theory Spec2Isabelle
  imports Main "HOL-Library.Word" "HOL-Library.Monad_Syntax"
begin

unbundle bit_operations_syntax

section \<open>The asynchronous VHD driver (drivers/block-vhd.c)\<close>

text \<open>
  A shallow embedding of the dynamic/differencing I/O path of \<^verbatim>\<open>block-vhd.c\<close>:
  the request router (\<^verbatim>\<open>vhd_queue_read\<close>, \<^verbatim>\<open>vhd_queue_write\<close>), the bitmap cache,
  the BAT with its single pending allocation, the transaction engine and the
  completion finishers.

  Conventions of the model.
  \<^item> Every function that can reach a failed \<^verbatim>\<open>ASSERT\<close> (which stores through a
    null pointer), a null or out-of-array access or a division by zero returns an
    \<open>option\<close>; \<open>None\<close> is that abort. The state is passed explicitly.
  \<^item> \<^verbatim>\<open>u32\<close>, \<^verbatim>\<open>u64\<close> and the \<^verbatim>\<open>uint8_t\<close> flag words are machine words; C's
    \<^verbatim>\<open>int\<close> (error codes, counters, sector counts, callback results) is \<open>int\<close>.
  \<^item> Pointers into the arrays \<^verbatim>\<open>bitmap_list\<close> and \<^verbatim>\<open>vreq_list\<close> are indices.
    An intrusive list (\<^verbatim>\<open>struct vhd_req_list\<close>, linked through \<^verbatim>\<open>next\<close>) is the
    sequence of the requests reachable from its head.
  \<^item> A bitmap buffer (\<^verbatim>\<open>map\<close>, \<^verbatim>\<open>shadow\<close>) is the set of the bit positions
    that are 1 in it.
  \<^item> The host's callback is a parameter \<open>cb\<close>; each invocation is appended, with
    the value it returned, to the trace \<open>callbacks\<close> of the state.
  \<^item> The profiling counters and the caller's data buffers take no part in the
    control flow and are left out.
\<close>

subsection \<open>Constants\<close>

type_synonym u8 = "8 word"
type_synonym u32 = "32 word"
type_synonym u64 = "64 word"

text \<open>The errno values of Linux, returned negated.\<close>

definition EIO :: int where [simp]: "EIO = 5"
definition ENOMEM :: int where [simp]: "ENOMEM = 12"
definition EBUSY :: int where [simp]: "EBUSY = 16"
definition EINVAL :: int where [simp]: "EINVAL = 22"

text \<open>
  Modelled from the spec: \<^verbatim>\<open>vhd.h\<close> and \<^verbatim>\<open>tapdisk.h\<close> are not among the sources.
  The BAT sentinel \<^verbatim>\<open>DD_BLK_UNUSED\<close> is 0xFFFFFFFF, a sector has 512 bytes
  (\<^verbatim>\<open>VHD_SECTOR_SHIFT\<close> is 9), and \<^verbatim>\<open>BLK_NOT_ALLOCATED\<close> is the sentinel, distinct
  from every error code, that a read of a hole hands to the callback.
\<close>

definition DD_BLK_UNUSED :: u32 where [simp]: "DD_BLK_UNUSED = 0xFFFFFFFF"
definition VHD_SECTOR_SHIFT :: nat where [simp]: "VHD_SECTOR_SHIFT = 9"
definition BLK_NOT_ALLOCATED :: int where [simp]: "BLK_NOT_ALLOCATED = 99"

definition VHD_CACHE_SIZE :: nat where [simp]: "VHD_CACHE_SIZE = 32"

definition VHD_BM_BAT_LOCKED :: int where [simp]: "VHD_BM_BAT_LOCKED = 0"
definition VHD_BM_BAT_CLEAR :: int where [simp]: "VHD_BM_BAT_CLEAR = 1"
definition VHD_BM_BIT_CLEAR :: int where [simp]: "VHD_BM_BIT_CLEAR = 2"
definition VHD_BM_BIT_SET :: int where [simp]: "VHD_BM_BIT_SET = 3"
definition VHD_BM_NOT_CACHED :: int where [simp]: "VHD_BM_NOT_CACHED = 4"
definition VHD_BM_READ_PENDING :: int where [simp]: "VHD_BM_READ_PENDING = 5"

definition VHD_FLAG_BAT_LOCKED :: u8 where [simp]: "VHD_FLAG_BAT_LOCKED = 1"
definition VHD_FLAG_BAT_WRITE_STARTED :: u8 where [simp]: "VHD_FLAG_BAT_WRITE_STARTED = 2"

definition VHD_FLAG_BM_UPDATE_BAT :: u8 where [simp]: "VHD_FLAG_BM_UPDATE_BAT = 1"
definition VHD_FLAG_BM_WRITE_PENDING :: u8 where [simp]: "VHD_FLAG_BM_WRITE_PENDING = 2"
definition VHD_FLAG_BM_READ_PENDING :: u8 where [simp]: "VHD_FLAG_BM_READ_PENDING = 4"
definition VHD_FLAG_BM_LOCKED :: u8 where [simp]: "VHD_FLAG_BM_LOCKED = 8"

definition VHD_FLAG_REQ_UPDATE_BAT :: u8 where [simp]: "VHD_FLAG_REQ_UPDATE_BAT = 1"
definition VHD_FLAG_REQ_UPDATE_BITMAP :: u8 where [simp]: "VHD_FLAG_REQ_UPDATE_BITMAP = 2"
definition VHD_FLAG_REQ_QUEUED :: u8 where [simp]: "VHD_FLAG_REQ_QUEUED = 4"
definition VHD_FLAG_REQ_FINISHED :: u8 where [simp]: "VHD_FLAG_REQ_FINISHED = 8"

definition VHD_FLAG_TX_LIVE :: u8 where [simp]: "VHD_FLAG_TX_LIVE = 1"
definition VHD_FLAG_TX_UPDATE_BAT :: u8 where [simp]: "VHD_FLAG_TX_UPDATE_BAT = 2"

text \<open>The operation codes; \<^verbatim>\<open>VHD_OP_BAT_WRITE\<close> is 0, the value a cleared request holds.\<close>

datatype vhd_op =
    VHD_OP_BAT_WRITE
  | VHD_OP_DATA_READ
  | VHD_OP_DATA_WRITE
  | VHD_OP_BITMAP_READ
  | VHD_OP_BITMAP_WRITE
  | VHD_OP_ZERO_BM_WRITE

text \<open>The footer's disk type.\<close>

datatype hd_type = HD_TYPE_FIXED | HD_TYPE_DYNAMIC | HD_TYPE_DIFF

subsection \<open>Data\<close>

text \<open>
  A pointer to a request: an element of \<^verbatim>\<open>vreq_list\<close>, the request embedded in a
  bitmap, or one of the two requests embedded in the BAT.
\<close>

datatype vhd_req_ptr = Vreq nat | Bm_req nat | Bat_req | Zero_req

datatype io_opcode = IO_PREAD | IO_PWRITE

record iocb =
  io_opcode :: io_opcode
  io_nbytes :: int
  io_offset :: u64

text \<open>
  \<^verbatim>\<open>struct vhd_request\<close>. \<open>r_tx\<close> points to the transaction of the bitmap with that
  index; \<open>r_iocb\<close> is \<open>None\<close> until \<^verbatim>\<open>io_prep_pread\<close>/\<^verbatim>\<open>io_prep_pwrite\<close> has
  filled the control block and set its \<^verbatim>\<open>data\<close> back-pointer.
\<close>

record vhd_request =
  r_id :: int
  r_error :: int
  r_op :: vhd_op
  r_nr_secs :: int
  r_lsec :: u64
  r_private :: int
  r_flags :: u8
  r_iocb :: "iocb option"
  r_tx :: "nat option"

record vhd_transaction =
  tx_error :: int
  tx_closed :: int
  tx_started :: int
  tx_finished :: int
  tx_status :: u8
  tx_requests :: "vhd_req_ptr list"

record vhd_bat =
  bat_entries :: "u32 list"
  bat_status :: u8
  pbw_blk :: u32
  pbw_offset :: u64
  bat_req :: vhd_request
  bat_req_buf :: "u8 list"
  zero_req :: vhd_request

record vhd_bitmap =
  blk :: u32
  seqno :: u64
  bm_status :: u8
  bm_map :: "nat set"
  bm_shadow :: "nat set"
  bm_tx :: vhd_transaction
  bm_queue :: "vhd_req_ptr list"
  bm_waiting :: "vhd_req_ptr list"
  bm_req :: vhd_request

text \<open>
  The arguments of one invocation of the host's callback
  \<^verbatim>\<open>cb(dd, error, sector, nr_secs, id, private)\<close>. The host may answer the same
  arguments differently over time: its callback also takes the number of the
  invocations made before.
\<close>

record cb_call =
  cb_error :: int
  cb_sector :: u64
  cb_nr_secs :: int
  cb_id :: int
  cb_private :: int

type_synonym td_callback = "nat \<Rightarrow> cb_call \<Rightarrow> int"

text \<open>
  \<^verbatim>\<open>struct vhd_state\<close>. The stacks \<^verbatim>\<open>bitmap_free\<close> and \<^verbatim>\<open>vreq_free\<close> are the live
  prefixes of their arrays (their counts are the lengths; the top is the last
  element); \<^verbatim>\<open>iocb_queue\<close> holds the owners of the queued control blocks.
\<close>

record vhd_state =
  ftr_type :: hd_type
  hdr_max_bat_size :: u32
  hdr_table_offset :: u64
  spp :: u32
  spb :: u32
  next_db :: u64
  bat :: vhd_bat
  bm_lru :: u64
  bm_secs :: u32
  bitmap :: "nat option list"
  bitmap_free :: "nat list"
  bitmap_list :: "vhd_bitmap list"
  vreq_free :: "nat list"
  vreq_list :: "vhd_request list"
  iocb_queue :: "vhd_req_ptr list"
  callbacks :: "(cb_call \<times> int) list"

subsection \<open>Helpers\<close>

definition test_vhd_flag :: "u8 \<Rightarrow> u8 \<Rightarrow> bool" where
  "test_vhd_flag w f = (w AND f \<noteq> 0)"

definition set_vhd_flag :: "u8 \<Rightarrow> u8 \<Rightarrow> u8" where
  "set_vhd_flag w f = w OR f"

definition clear_vhd_flag :: "u8 \<Rightarrow> u8 \<Rightarrow> u8" where
  "clear_vhd_flag w f = w AND NOT f"

text \<open>
  The C type \<^verbatim>\<open>int\<close> has 32 bits: a sum that leaves the range wraps around, and
  what a function returns as \<^verbatim>\<open>int\<close> lies in the range.
\<close>

definition int32 :: "int \<Rightarrow> int" where
  "int32 x = sint (word_of_int x :: 32 word)"

definition ASSERT :: "bool \<Rightarrow> unit option" where
  "ASSERT p = (if p then Some () else None)"

definition test_bit :: "nat \<Rightarrow> nat set \<Rightarrow> bool" where
  "test_bit nr addr = (nr \<in> addr)"

text \<open>
  \<^verbatim>\<open>set_bit\<close> ORs \<^verbatim>\<open>1 << (nr % 64)\<close> into the \<^verbatim>\<open>unsigned long\<close> \<open>nr / 64\<close> of the
  buffer, and the \<^verbatim>\<open>1\<close> it shifts is an \<^verbatim>\<open>int\<close>: shifted by 31 it is \<^verbatim>\<open>INT_MIN\<close>,
  which widens to a word with the bits 31 to 63 set, and a shift by 32 or more is
  not defined. \<open>nr\<close> is an \<^verbatim>\<open>int\<close>; a negative one is outside the buffer.
\<close>

definition set_bit :: "int \<Rightarrow> nat set \<Rightarrow> nat set option" where
  "set_bit nr addr =
     (if nr < 0 then None
      else
        let n = nat nr
        in if n mod 64 < 31 then Some (insert n addr)
           else if n mod 64 = 31
           then Some (addr \<union> set [64 * (n div 64) + 31 ..< 64 * (n div 64) + 64])
           else None)"

text \<open>\<^verbatim>\<open>bat_entry(s, blk)\<close>: the array has \<^verbatim>\<open>max_bat_size\<close> elements (\<^verbatim>\<open>alloc_bat\<close>).\<close>

definition bat_entry :: "vhd_state \<Rightarrow> u32 \<Rightarrow> u32 option" where
  "bat_entry s b =
     (if unat b < length (bat_entries (bat s)) then Some (bat_entries (bat s) ! unat b)
      else None)"

definition bm_at :: "vhd_state \<Rightarrow> nat \<Rightarrow> vhd_bitmap option" where
  "bm_at s i = (if i < length (bitmap_list s) then Some (bitmap_list s ! i) else None)"

definition bm_upd :: "nat \<Rightarrow> (vhd_bitmap \<Rightarrow> vhd_bitmap) \<Rightarrow> vhd_state \<Rightarrow> vhd_state" where
  "bm_upd i f s = s\<lparr>bitmap_list := (bitmap_list s)[i := f (bitmap_list s ! i)]\<rparr>"

definition tx_upd :: "nat \<Rightarrow> (vhd_transaction \<Rightarrow> vhd_transaction) \<Rightarrow> vhd_state \<Rightarrow> vhd_state" where
  "tx_upd i f s = bm_upd i (\<lambda>b. b\<lparr>bm_tx := f (bm_tx b)\<rparr>) s"

fun req_at :: "vhd_state \<Rightarrow> vhd_req_ptr \<Rightarrow> vhd_request option" where
  "req_at s (Vreq k) = (if k < length (vreq_list s) then Some (vreq_list s ! k) else None)"
| "req_at s (Bm_req i) = map_option bm_req (bm_at s i)"
| "req_at s Bat_req = Some (bat_req (bat s))"
| "req_at s Zero_req = Some (zero_req (bat s))"

fun req_upd :: "vhd_req_ptr \<Rightarrow> (vhd_request \<Rightarrow> vhd_request) \<Rightarrow> vhd_state \<Rightarrow> vhd_state" where
  "req_upd (Vreq k) f s = s\<lparr>vreq_list := (vreq_list s)[k := f (vreq_list s ! k)]\<rparr>"
| "req_upd (Bm_req i) f s = bm_upd i (\<lambda>b. b\<lparr>bm_req := f (bm_req b)\<rparr>) s"
| "req_upd Bat_req f s = s\<lparr>bat := (bat s)\<lparr>bat_req := f (bat_req (bat s))\<rparr>\<rparr>"
| "req_upd Zero_req f s = s\<lparr>bat := (bat s)\<lparr>zero_req := f (zero_req (bat s))\<rparr>\<rparr>"

text \<open>A request after \<^verbatim>\<open>memset(req, 0, sizeof(struct vhd_request))\<close>.\<close>

definition zeroed_request :: vhd_request where
  "zeroed_request =
     \<lparr>r_id = 0, r_error = 0, r_op = VHD_OP_BAT_WRITE, r_nr_secs = 0, r_lsec = 0,
      r_private = 0, r_flags = 0, r_iocb = None, r_tx = None\<rparr>"

subsection \<open>Request lists and transactions\<close>

definition add_to_tail :: "vhd_req_ptr list \<Rightarrow> vhd_req_ptr \<Rightarrow> vhd_req_ptr list" where
  "add_to_tail list e = list @ [e]"

text \<open>
  \<^verbatim>\<open>remove_from_req_list\<close> reads \<^verbatim>\<open>i->next\<close> of the head without a null check,
  unlinks the first occurrence of \<open>e\<close>, and returns \<^verbatim>\<open>-EINVAL\<close> when there is none.
\<close>

fun remove_from_req_list :: "vhd_req_ptr list \<Rightarrow> vhd_req_ptr \<Rightarrow> (int \<times> vhd_req_ptr list) option" where
  "remove_from_req_list [] e = None"
| "remove_from_req_list (i # rest) e =
     (if i = e then Some (0, rest)
      else if e \<in> set rest then Some (0, i # remove1 e rest)
      else Some (- EINVAL, i # rest))"

definition init_tx :: vhd_transaction where
  "init_tx = \<lparr>tx_error = 0, tx_closed = 0, tx_started = 0, tx_finished = 0,
              tx_status = 0, tx_requests = []\<rparr>"

text \<open>\<^verbatim>\<open>add_to_transaction(tx, r)\<close>, on the transaction of bitmap \<open>i\<close>.\<close>

definition add_to_transaction :: "nat \<Rightarrow> vhd_req_ptr \<Rightarrow> vhd_state \<Rightarrow> vhd_state option" where
  "add_to_transaction i r s = do {
     bm \<leftarrow> bm_at s i;
     _ \<leftarrow> ASSERT (tx_closed (bm_tx bm) = 0);
     _ \<leftarrow> req_at s r;
     let s1 = req_upd r (\<lambda>q. q\<lparr>r_tx := Some i\<rparr>) s;
     Some (tx_upd i (\<lambda>t. t\<lparr>tx_started := int32 (tx_started t + 1),
                              tx_requests := add_to_tail (tx_requests t) r,
                              tx_status := set_vhd_flag (tx_status t) VHD_FLAG_TX_LIVE\<rparr>) s1)
   }"

definition transaction_completed :: "vhd_transaction \<Rightarrow> bool" where
  "transaction_completed t = (tx_started t = tx_finished t)"

subsection \<open>The BAT lock\<close>

definition init_bat :: "vhd_state \<Rightarrow> vhd_state" where
  "init_bat s = s\<lparr>bat := (bat s)\<lparr>bat_req := (bat_req (bat s))\<lparr>r_tx := None\<rparr>,
                                  pbw_blk := 0, pbw_offset := 0, bat_status := 0\<rparr>\<rparr>"

definition lock_bat :: "vhd_state \<Rightarrow> vhd_state" where
  "lock_bat s = s\<lparr>bat := (bat s)\<lparr>bat_status := set_vhd_flag (bat_status (bat s)) VHD_FLAG_BAT_LOCKED\<rparr>\<rparr>"

definition unlock_bat :: "vhd_state \<Rightarrow> vhd_state" where
  "unlock_bat s = s\<lparr>bat := (bat s)\<lparr>bat_status := clear_vhd_flag (bat_status (bat s)) VHD_FLAG_BAT_LOCKED\<rparr>\<rparr>"

definition bat_locked :: "vhd_state \<Rightarrow> bool" where
  "bat_locked s = test_vhd_flag (bat_status (bat s)) VHD_FLAG_BAT_LOCKED"

subsection \<open>The bitmap cache\<close>

definition init_vhd_bitmap :: "nat \<Rightarrow> vhd_state \<Rightarrow> vhd_state" where
  "init_vhd_bitmap i s =
     bm_upd i (\<lambda>b. b\<lparr>blk := 0, seqno := 0, bm_status := 0, bm_tx := init_tx,
                       bm_queue := [], bm_waiting := [], bm_map := {}, bm_shadow := {},
                       bm_req := zeroed_request\<rparr>) s"

text \<open>\<^verbatim>\<open>get_bitmap\<close>: the first slot of \<^verbatim>\<open>s->bitmap\<close> whose bitmap has the block.\<close>

fun get_bitmap_slots :: "vhd_state \<Rightarrow> nat option list \<Rightarrow> u32 \<Rightarrow> nat option" where
  "get_bitmap_slots s [] b = None"
| "get_bitmap_slots s (None # rest) b = get_bitmap_slots s rest b"
| "get_bitmap_slots s (Some i # rest) b =
     (if i < length (bitmap_list s) \<and> blk (bitmap_list s ! i) = b then Some i
      else get_bitmap_slots s rest b)"

definition get_bitmap :: "vhd_state \<Rightarrow> u32 \<Rightarrow> nat option" where
  "get_bitmap s b = get_bitmap_slots s (bitmap s) b"

definition lock_bitmap :: "nat \<Rightarrow> vhd_state \<Rightarrow> vhd_state" where
  "lock_bitmap i s =
     bm_upd i (\<lambda>b. b\<lparr>bm_status := set_vhd_flag (bm_status b) VHD_FLAG_BM_LOCKED\<rparr>) s"

definition unlock_bitmap :: "nat \<Rightarrow> vhd_state \<Rightarrow> vhd_state" where
  "unlock_bitmap i s =
     bm_upd i (\<lambda>b. b\<lparr>bm_status := clear_vhd_flag (bm_status b) VHD_FLAG_BM_LOCKED\<rparr>) s"

definition bitmap_locked :: "vhd_bitmap \<Rightarrow> bool" where
  "bitmap_locked bm = test_vhd_flag (bm_status bm) VHD_FLAG_BM_LOCKED"

definition bitmap_valid :: "vhd_bitmap \<Rightarrow> bool" where
  "bitmap_valid bm = (\<not> test_vhd_flag (bm_status bm) VHD_FLAG_BM_READ_PENDING)"

definition bitmap_in_use :: "vhd_bitmap \<Rightarrow> bool" where
  "bitmap_in_use bm =
     (test_vhd_flag (bm_status bm) VHD_FLAG_BM_READ_PENDING \<or>
      test_vhd_flag (bm_status bm) VHD_FLAG_BM_WRITE_PENDING \<or>
      test_vhd_flag (tx_status (bm_tx bm)) VHD_FLAG_TX_UPDATE_BAT \<or>
      bm_waiting bm \<noteq> [] \<or> tx_requests (bm_tx bm) \<noteq> [] \<or> bm_queue bm \<noteq> [])"

text \<open>
  The scan of \<^verbatim>\<open>remove_lru_bitmap\<close>: the loop variables are \<open>(idx, lru, seq)\<close>.
\<close>

definition lru_scan_step :: "vhd_state \<Rightarrow> nat \<times> nat option \<times> u64 \<Rightarrow> nat \<times> nat option
    \<Rightarrow> nat \<times> nat option \<times> u64" where
  "lru_scan_step s acc slot =
     (case slot of
        (i, None) \<Rightarrow> acc
      | (i, Some b) \<Rightarrow>
          (case bm_at s b of
             None \<Rightarrow> acc
           | Some bm \<Rightarrow>
               if seqno bm < snd (snd acc) \<and> \<not> bitmap_locked bm then (i, Some b, seqno bm)
               else acc))"

definition remove_lru_bitmap :: "vhd_state \<Rightarrow> (nat option \<times> vhd_state) option" where
  "remove_lru_bitmap s =
     (case foldl (lru_scan_step s) (0, None, bm_lru s) (enumerate 0 (bitmap s)) of
        (idx, None, seq) \<Rightarrow> Some (None, s)
      | (idx, Some b, seq) \<Rightarrow> do {
          bm \<leftarrow> bm_at s b;
          _ \<leftarrow> ASSERT (\<not> bitmap_in_use bm);
          Some (Some b, s\<lparr>bitmap := (bitmap s)[idx := None]\<rparr>)
        })"

text \<open>\<^verbatim>\<open>alloc_vhd_bitmap\<close> returns the error code and the bitmap (\<^verbatim>\<open>*bitmap\<close>).\<close>

definition alloc_vhd_bitmap :: "vhd_state \<Rightarrow> u32 \<Rightarrow> (int \<times> nat option \<times> vhd_state) option" where
  "alloc_vhd_bitmap s b = do {
     (bmo, s1) \<leftarrow>
       (if bitmap_free s \<noteq> []
        then Some (Some (last (bitmap_free s)), s\<lparr>bitmap_free := butlast (bitmap_free s)\<rparr>)
        else remove_lru_bitmap s);
     case bmo of
       None \<Rightarrow> Some (- EBUSY, None, s1)
     | Some i \<Rightarrow> do {
         _ \<leftarrow> bm_at s1 i;
         Some (0, Some i, bm_upd i (\<lambda>bm. bm\<lparr>blk := b\<rparr>) (init_vhd_bitmap i s1))
       }
   }"

text \<open>\<^verbatim>\<open>__bitmap_lru_seqno\<close>: on overflow every cached sequence number is halved.\<close>

definition lru_halve_step :: "nat option \<Rightarrow> vhd_state \<Rightarrow> vhd_state" where
  "lru_halve_step slot s =
     (case slot of
        None \<Rightarrow> s
      | Some i \<Rightarrow>
          (let s1 = bm_upd i (\<lambda>bm. bm\<lparr>seqno := drop_bit 1 (seqno bm)\<rparr>) s;
               q = seqno (bitmap_list s1 ! i)
           in if q > bm_lru s1 then s1\<lparr>bm_lru := q\<rparr> else s1))"

definition bitmap_lru_seqno :: "vhd_state \<Rightarrow> u64 \<times> vhd_state" where
  "bitmap_lru_seqno s =
     (let s1 = (if bm_lru s = 0xffffffff then fold lru_halve_step (bitmap s) (s\<lparr>bm_lru := 0\<rparr>)
                else s);
          s2 = s1\<lparr>bm_lru := bm_lru s1 + 1\<rparr>
      in (bm_lru s2, s2))"

definition touch_bitmap :: "nat \<Rightarrow> vhd_state \<Rightarrow> vhd_state" where
  "touch_bitmap i s =
     (case bitmap_lru_seqno s of (q, s1) \<Rightarrow> bm_upd i (\<lambda>bm. bm\<lparr>seqno := q\<rparr>) s1)"

fun first_free_slot :: "nat option list \<Rightarrow> nat option" where
  "first_free_slot [] = None"
| "first_free_slot (None # rest) = Some 0"
| "first_free_slot (Some i # rest) = map_option Suc (first_free_slot rest)"

definition install_bitmap :: "nat \<Rightarrow> vhd_state \<Rightarrow> vhd_state option" where
  "install_bitmap i s =
     (case first_free_slot (bitmap s) of
        Some k \<Rightarrow> (let s1 = touch_bitmap i s in Some (s1\<lparr>bitmap := (bitmap s1)[k := Some i]\<rparr>))
      | None \<Rightarrow> do { _ \<leftarrow> ASSERT False; Some s })"

fun slot_of :: "nat option list \<Rightarrow> nat \<Rightarrow> nat option" where
  "slot_of [] i = None"
| "slot_of (x # rest) i = (if x = Some i then Some 0 else map_option Suc (slot_of rest i))"

definition free_vhd_bitmap :: "nat \<Rightarrow> vhd_state \<Rightarrow> vhd_state option" where
  "free_vhd_bitmap i s = do {
     bm \<leftarrow> bm_at s i;
     _ \<leftarrow> ASSERT (\<not> bitmap_locked bm);
     _ \<leftarrow> ASSERT (\<not> bitmap_in_use bm);
     _ \<leftarrow> ASSERT (slot_of (bitmap s) i \<noteq> None);
     k \<leftarrow> slot_of (bitmap s) i;
     Some (s\<lparr>bitmap := (bitmap s)[k := None], bitmap_free := bitmap_free s @ [i]\<rparr>)
   }"

text \<open>
  \<^verbatim>\<open>read_bitmap_cache\<close>. The block index is \<^verbatim>\<open>sector / s->spb\<close> narrowed to
  \<^verbatim>\<open>u32\<close>; the range check is \<^verbatim>\<open>blk > s->hdr.max_bat_size\<close>; the BAT is then read
  at \<open>blk\<close>.
\<close>

definition read_bitmap_cache :: "vhd_state \<Rightarrow> u64 \<Rightarrow> vhd_op \<Rightarrow> (int \<times> vhd_state) option" where
  "read_bitmap_cache s sector opc =
     (if ftr_type s = HD_TYPE_FIXED then Some (VHD_BM_BIT_SET, s)
      else if spb s = 0 then None
      else
        let b = (ucast (sector div ucast (spb s)) :: u32);
            sec = (ucast (sector mod ucast (spb s)) :: u32)
        in if b > hdr_max_bat_size s then Some (- EINVAL, s)
           else do {
             e \<leftarrow> bat_entry s b;
             if e = DD_BLK_UNUSED then
               (if opc = VHD_OP_DATA_WRITE \<and> pbw_blk (bat s) \<noteq> b \<and> bat_locked s
                then Some (VHD_BM_BAT_LOCKED, s)
                else Some (VHD_BM_BAT_CLEAR, s))
             else if ftr_type s = HD_TYPE_DYNAMIC then Some (VHD_BM_BIT_SET, s)
             else
               (case get_bitmap s b of
                  None \<Rightarrow> Some (VHD_BM_NOT_CACHED, s)
                | Some i \<Rightarrow> do {
                    let s1 = touch_bitmap i s;
                    bm \<leftarrow> bm_at s1 i;
                    if test_vhd_flag (bm_status bm) VHD_FLAG_BM_READ_PENDING
                    then Some (VHD_BM_READ_PENDING, s1)
                    else Some (if test_bit (unat sec) (bm_map bm) then VHD_BM_BIT_SET
                               else VHD_BM_BIT_CLEAR, s1)
                  })
           })"

text \<open>The loop of \<^verbatim>\<open>read_bitmap_cache_span\<close>; \<open>v\<close> is the bit value looked for.\<close>

function span_loop :: "nat set \<Rightarrow> u32 \<Rightarrow> int \<Rightarrow> bool \<Rightarrow> u32 \<Rightarrow> int \<Rightarrow> int" where
  "span_loop m spb' nr_secs v sec ret =
     (if sec < spb' \<and> ret < nr_secs then
        (if test_bit (unat sec) m \<noteq> v then ret
         else span_loop m spb' nr_secs v (sec + 1) (ret + 1))
      else ret)"
  by pat_completeness auto
termination
proof (relation "measure (\<lambda>(m, spb', nr_secs, v, sec, ret). unat spb' - unat sec)")
  show "wf (measure (\<lambda>(m, spb', nr_secs, v, sec, ret). unat spb' - unat sec))" by simp
next
  fix m :: "nat set" and spb' :: u32 and nr_secs :: int and v :: bool and sec :: u32
    and ret :: int
  assume a: "sec < spb' \<and> ret < nr_secs"
  then have lt: "unat sec < unat spb'" by (simp add: word_less_nat_alt)
  have "unat spb' < 2 ^ 32" using unsigned_less [of spb'] by simp
  with lt have "unat sec + 1 < 2 ^ 32" by simp
  then have "unat (sec + 1) = Suc (unat sec)" by (simp add: unat_word_ariths)
  moreover note lt
  ultimately show "((m, spb', nr_secs, v, sec + 1, ret + 1), m, spb', nr_secs, v, sec, ret)
      \<in> measure (\<lambda>(m, spb', nr_secs, v, sec, ret). unat spb' - unat sec)"
    by simp
qed

text \<open>\<^verbatim>\<open>MIN(nr_secs, s->spb - sec)\<close>: the comparison is made in \<^verbatim>\<open>unsigned int\<close>.\<close>

definition min_u32 :: "int \<Rightarrow> u32 \<Rightarrow> int" where
  "min_u32 a b = sint (if (word_of_int a :: u32) < b then word_of_int a else b)"

definition read_bitmap_cache_span :: "vhd_state \<Rightarrow> u64 \<Rightarrow> int \<Rightarrow> bool \<Rightarrow> int option" where
  "read_bitmap_cache_span s sector nr_secs value =
     (if ftr_type s = HD_TYPE_FIXED then Some nr_secs
      else if spb s = 0 then None
      else
        let sec = (ucast (sector mod ucast (spb s)) :: u32)
        in if ftr_type s = HD_TYPE_DYNAMIC then Some (min_u32 nr_secs (spb s - sec))
           else
             (case get_bitmap s (ucast (sector div ucast (spb s))) of
                None \<Rightarrow> do { _ \<leftarrow> ASSERT False; Some 0 }
              | Some i \<Rightarrow> do {
                  bm \<leftarrow> bm_at s i;
                  _ \<leftarrow> ASSERT (bitmap_valid bm);
                  Some (span_loop (bm_map bm) (spb s) nr_secs value sec 0)
                }))"

subsection \<open>The request pool and the I/O queue\<close>

definition alloc_vhd_request :: "vhd_state \<Rightarrow> (nat option \<times> vhd_state) option" where
  "alloc_vhd_request s =
     (if vreq_free s \<noteq> [] then do {
        let k = last (vreq_free s);
        let s1 = s\<lparr>vreq_free := butlast (vreq_free s)\<rparr>;
        req \<leftarrow> req_at s1 (Vreq k);
        _ \<leftarrow> ASSERT (r_nr_secs req = 0);
        Some (Some k, s1)
      } else Some (None, s))"

definition free_vhd_request :: "nat \<Rightarrow> vhd_state \<Rightarrow> vhd_state" where
  "free_vhd_request k s =
     (req_upd (Vreq k) (\<lambda>r. zeroed_request) s)\<lparr>vreq_free := vreq_free s @ [k]\<rparr>"

text \<open>
  \<^verbatim>\<open>aio_read\<close> and \<^verbatim>\<open>aio_write\<close> prepare the request's control block for
  \<^verbatim>\<open>req->nr_secs << VHD_SECTOR_SHIFT\<close> bytes at \<open>offset\<close> and queue it.
\<close>

definition aio_read :: "vhd_req_ptr \<Rightarrow> u64 \<Rightarrow> vhd_state \<Rightarrow> vhd_state" where
  "aio_read req offset s =
     (req_upd req (\<lambda>r. r\<lparr>r_iocb := Some \<lparr>io_opcode = IO_PREAD,
          io_nbytes = r_nr_secs r * 2 ^ VHD_SECTOR_SHIFT, io_offset = offset\<rparr>\<rparr>) s)
       \<lparr>iocb_queue := iocb_queue s @ [req]\<rparr>"

definition aio_write :: "vhd_req_ptr \<Rightarrow> u64 \<Rightarrow> vhd_state \<Rightarrow> vhd_state" where
  "aio_write req offset s =
     (req_upd req (\<lambda>r. r\<lparr>r_iocb := Some \<lparr>io_opcode = IO_PWRITE,
          io_nbytes = r_nr_secs r * 2 ^ VHD_SECTOR_SHIFT, io_offset = offset\<rparr>\<rparr>) s)
       \<lparr>iocb_queue := iocb_queue s @ [req]\<rparr>"

subsection \<open>Block allocation\<close>

definition reserve_new_block :: "u32 \<Rightarrow> vhd_state \<Rightarrow> vhd_state option" where
  "reserve_new_block b s = do {
     _ \<leftarrow> ASSERT (\<not> bat_locked s \<and>
                 \<not> test_vhd_flag (bat_status (bat s)) VHD_FLAG_BAT_WRITE_STARTED);
     Some (lock_bat (s\<lparr>bat := (bat s)\<lparr>pbw_blk := b, pbw_offset := next_db s\<rparr>\<rparr>))
   }"

text \<open>The four bytes \<^verbatim>\<open>cpu_to_be32\<close> leaves in memory: most significant first.\<close>

definition be32_bytes :: "u32 \<Rightarrow> u8 list" where
  "be32_bytes w = [ucast (drop_bit 24 w), ucast (drop_bit 16 w), ucast (drop_bit 8 w), ucast w]"

text \<open>
  \<^verbatim>\<open>schedule_bat_write\<close> copies 512 bytes from \<^verbatim>\<open>&bat_entry(s, blk - (blk % 128))\<close>:
  the 128 entries must lie inside the array.
\<close>

definition schedule_bat_write :: "vhd_state \<Rightarrow> (int \<times> vhd_state) option" where
  "schedule_bat_write s = do {
     _ \<leftarrow> ASSERT (bat_locked s);
     let b = pbw_blk (bat s);
     let base = b - (b mod 128);
     _ \<leftarrow> (if unat base + 128 \<le> length (bat_entries (bat s)) then Some () else None);
     let window = take 128 (drop (unat base) (bat_entries (bat s)));
     let buf = window[unat (b mod 128) := ucast (pbw_offset (bat s))];
     let offset = hdr_table_offset s + ucast ((b - (b mod 128)) * 4);
     let s1 = s\<lparr>bat := (bat s)\<lparr>bat_req_buf := concat (map be32_bytes buf),
                  bat_req := (bat_req (bat s))\<lparr>r_nr_secs := 1, r_op := VHD_OP_BAT_WRITE\<rparr>\<rparr>\<rparr>;
     let s2 = aio_write Bat_req offset s1;
     Some (0, s2\<lparr>bat := (bat s2)\<lparr>bat_status :=
                  set_vhd_flag (bat_status (bat s2)) VHD_FLAG_BAT_WRITE_STARTED\<rparr>\<rparr>)
   }"

definition schedule_zero_bm_write :: "nat \<Rightarrow> vhd_state \<Rightarrow> vhd_state option" where
  "schedule_zero_bm_write i s = do {
     let offset = push_bit VHD_SECTOR_SHIFT (pbw_offset (bat s));
     let s1 = req_upd Zero_req (\<lambda>r. r\<lparr>r_op := VHD_OP_ZERO_BM_WRITE,
                  r_lsec := ucast (pbw_blk (bat s) * spb s),
                  r_nr_secs := sint (bm_secs s)\<rparr>) s;
     _ \<leftarrow> bm_at s1 i;
     let s2 = lock_bitmap i s1;
     s3 \<leftarrow> add_to_transaction i Zero_req s2;
     Some (aio_write Zero_req offset s3)
   }"

definition update_bat :: "vhd_state \<Rightarrow> u32 \<Rightarrow> (int \<times> vhd_state) option" where
  "update_bat s b = do {
     e \<leftarrow> bat_entry s b;
     _ \<leftarrow> ASSERT (e = DD_BLK_UNUSED);
     if bat_locked s then do {
       _ \<leftarrow> ASSERT (pbw_blk (bat s) = b);
       Some (0, s)
     } else do {
       (err, bmo, s1) \<leftarrow>
         (case get_bitmap s b of
            Some i \<Rightarrow> Some (0, Some i, s)
          | None \<Rightarrow> do {
              (err, bmo, s1) \<leftarrow> alloc_vhd_bitmap s b;
              if err \<noteq> 0 then Some (err, None, s1)
              else do {
                i \<leftarrow> bmo;
                s2 \<leftarrow> install_bitmap i s1;
                Some (0, Some i, s2)
              }
            });
       if err \<noteq> 0 then Some (err, s1)
       else do {
         i \<leftarrow> bmo;
         s2 \<leftarrow> reserve_new_block b s1;
         s3 \<leftarrow> schedule_zero_bm_write i s2;
         Some (0, tx_upd i (\<lambda>t. t\<lparr>tx_status :=
                    set_vhd_flag (tx_status t) VHD_FLAG_TX_UPDATE_BAT\<rparr>) s3)
       }
     }
   }"

subsection \<open>Scheduling data and bitmap I/O\<close>

definition schedule_data_read :: "vhd_state \<Rightarrow> u64 \<Rightarrow> int \<Rightarrow> u8 \<Rightarrow> int \<Rightarrow> int
    \<Rightarrow> (int \<times> vhd_state) option" where
  "schedule_data_read s sector nr_secs flags ident private = do {
     offset \<leftarrow>
       (if ftr_type s = HD_TYPE_FIXED then Some (push_bit VHD_SECTOR_SHIFT sector)
        else if spb s = 0 then None
        else do {
          let b = (ucast (sector div ucast (spb s)) :: u32);
          let sec = (ucast (sector mod ucast (spb s)) :: u32);
          e \<leftarrow> bat_entry s b;
          _ \<leftarrow> (if ftr_type s = HD_TYPE_DIFF then do {
                 _ \<leftarrow> ASSERT (e \<noteq> DD_BLK_UNUSED);
                 i \<leftarrow> get_bitmap s b;
                 bm \<leftarrow> bm_at s i;
                 ASSERT (bitmap_valid bm)
               } else Some ());
          Some (push_bit VHD_SECTOR_SHIFT (ucast e + ucast (bm_secs s + sec) :: u64))
        });
     (ro, s1) \<leftarrow> alloc_vhd_request s;
     case ro of
       None \<Rightarrow> Some (- ENOMEM, s1)
     | Some k \<Rightarrow> do {
         let s2 = req_upd (Vreq k) (\<lambda>r. r\<lparr>r_lsec := sector, r_nr_secs := nr_secs,
                    r_flags := flags, r_id := ident, r_private := private,
                    r_op := VHD_OP_DATA_READ\<rparr>) s1;
         Some (0, aio_read (Vreq k) offset s2)
       }
   }"

definition schedule_data_write :: "vhd_state \<Rightarrow> u64 \<Rightarrow> int \<Rightarrow> u8 \<Rightarrow> int \<Rightarrow> int
    \<Rightarrow> (int \<times> vhd_state) option" where
  "schedule_data_write s sector nr_secs flags ident private = do {
     (err, b, offset, s0) \<leftarrow>
       (if ftr_type s = HD_TYPE_FIXED then Some (0, 0, push_bit VHD_SECTOR_SHIFT sector, s)
        else if spb s = 0 then None
        else do {
          let b = (ucast (sector div ucast (spb s)) :: u32);
          let sec = (ucast (sector mod ucast (spb s)) :: u32);
          e \<leftarrow> bat_entry s b;
          (err, offset, s0) \<leftarrow>
            (if test_vhd_flag flags VHD_FLAG_REQ_UPDATE_BAT then do {
               (err, s0) \<leftarrow> update_bat s b;
               Some (err, pbw_offset (bat s0), s0)
             } else Some (0, ucast e, s));
          Some (err, b, push_bit VHD_SECTOR_SHIFT (offset + ucast (bm_secs s + sec)), s0)
        });
     if err \<noteq> 0 then Some (err, s0)
     else do {
       (ro, s1) \<leftarrow> alloc_vhd_request s0;
       case ro of
         None \<Rightarrow> Some (- ENOMEM, s1)
       | Some k \<Rightarrow> do {
           let s2 = req_upd (Vreq k) (\<lambda>r. r\<lparr>r_lsec := sector, r_nr_secs := nr_secs,
                      r_flags := flags, r_id := ident, r_private := private,
                      r_op := VHD_OP_DATA_WRITE\<rparr>) s1;
           s3 \<leftarrow>
             (if test_vhd_flag flags VHD_FLAG_REQ_UPDATE_BITMAP then do {
                i \<leftarrow> get_bitmap s2 b;
                bm \<leftarrow> bm_at s2 i;
                _ \<leftarrow> ASSERT (bitmap_valid bm);
                let s' = lock_bitmap i s2;
                if tx_closed (bm_tx bm) \<noteq> 0 then
                  Some (req_upd (Vreq k)
                          (\<lambda>r. r\<lparr>r_flags := set_vhd_flag (r_flags r) VHD_FLAG_REQ_QUEUED\<rparr>)
                          (bm_upd i (\<lambda>bm. bm\<lparr>bm_queue := add_to_tail (bm_queue bm) (Vreq k)\<rparr>) s'))
                else add_to_transaction i (Vreq k) s'
              } else Some s2);
           Some (0, aio_write (Vreq k) offset s3)
         }
     }
   }"

definition schedule_bitmap_read :: "vhd_state \<Rightarrow> u32 \<Rightarrow> (int \<times> vhd_state) option" where
  "schedule_bitmap_read s b = do {
     _ \<leftarrow> ASSERT (ftr_type s \<noteq> HD_TYPE_FIXED);
     e \<leftarrow> bat_entry s b;
     _ \<leftarrow> ASSERT (e \<noteq> DD_BLK_UNUSED);
     _ \<leftarrow> ASSERT (get_bitmap s b = None);
     let offset = push_bit VHD_SECTOR_SHIFT (ucast e :: u64);
     (err, bmo, s1) \<leftarrow> alloc_vhd_bitmap s b;
     if err \<noteq> 0 then Some (err, s1)
     else do {
       i \<leftarrow> bmo;
       let s2 = req_upd (Bm_req i) (\<lambda>r. r\<lparr>r_lsec := ucast (b * spb s),
                  r_nr_secs := sint (bm_secs s), r_op := VHD_OP_BITMAP_READ\<rparr>) s1;
       let s3 = lock_bitmap i (aio_read (Bm_req i) offset s2);
       s4 \<leftarrow> install_bitmap i s3;
       Some (0, bm_upd i (\<lambda>bm. bm\<lparr>bm_status :=
                  set_vhd_flag (bm_status bm) VHD_FLAG_BM_READ_PENDING\<rparr>) s4)
     }
   }"

definition schedule_bitmap_write :: "vhd_state \<Rightarrow> u32 \<Rightarrow> (int \<times> vhd_state) option" where
  "schedule_bitmap_write s b = do {
     e \<leftarrow> bat_entry s b;
     _ \<leftarrow> ASSERT (ftr_type s \<noteq> HD_TYPE_FIXED);
     i \<leftarrow> get_bitmap s b;
     bm \<leftarrow> bm_at s i;
     _ \<leftarrow> ASSERT (bitmap_valid bm \<and>
                 \<not> test_vhd_flag (bm_status bm) VHD_FLAG_BM_WRITE_PENDING);
     offset \<leftarrow>
       (if e = DD_BLK_UNUSED then do {
          _ \<leftarrow> ASSERT (pbw_blk (bat s) = b);
          Some (pbw_offset (bat s))
        } else Some (ucast e));
     let s1 = req_upd (Bm_req i) (\<lambda>r. r\<lparr>r_lsec := ucast (b * spb s),
                r_nr_secs := sint (bm_secs s), r_op := VHD_OP_BITMAP_WRITE\<rparr>) s;
     let s2 = touch_bitmap i (lock_bitmap i
                (aio_write (Bm_req i) (push_bit VHD_SECTOR_SHIFT offset) s1));
     Some (0, bm_upd i (\<lambda>bm. bm\<lparr>bm_status :=
                set_vhd_flag (bm_status bm) VHD_FLAG_BM_WRITE_PENDING\<rparr>) s2)
   }"

text \<open>
  \<^verbatim>\<open>__vhd_queue_request\<close>: the request waits on the bitmap whose read is pending.
\<close>

definition vhd_queue_request :: "vhd_state \<Rightarrow> vhd_op \<Rightarrow> u64 \<Rightarrow> int \<Rightarrow> int \<Rightarrow> int
    \<Rightarrow> (int \<times> vhd_state) option" where
  "vhd_queue_request s opc sector nr_secs ident private = do {
     _ \<leftarrow> ASSERT (ftr_type s \<noteq> HD_TYPE_FIXED);
     _ \<leftarrow> (if spb s = 0 then None else Some ());
     i \<leftarrow> get_bitmap s (ucast (sector div ucast (spb s)));
     bm \<leftarrow> bm_at s i;
     _ \<leftarrow> ASSERT (test_vhd_flag (bm_status bm) VHD_FLAG_BM_READ_PENDING);
     (ro, s1) \<leftarrow> alloc_vhd_request s;
     case ro of
       None \<Rightarrow> Some (- ENOMEM, s1)
     | Some k \<Rightarrow> do {
         let s2 = req_upd (Vreq k) (\<lambda>r. r\<lparr>r_lsec := sector, r_nr_secs := nr_secs,
                    r_id := ident, r_private := private, r_op := opc\<rparr>) s1;
         Some (0, lock_bitmap i
                    (bm_upd i (\<lambda>bm. bm\<lparr>bm_waiting := add_to_tail (bm_waiting bm) (Vreq k)\<rparr>) s2))
       }
   }"

subsection \<open>The request router\<close>

definition invoke_cb :: "td_callback \<Rightarrow> int \<Rightarrow> u64 \<Rightarrow> int \<Rightarrow> int \<Rightarrow> int \<Rightarrow> vhd_state
    \<Rightarrow> int \<times> vhd_state" where
  "invoke_cb cb err sector nr_secs ident private s =
     (let c = \<lparr>cb_error = err, cb_sector = sector, cb_nr_secs = nr_secs, cb_id = ident,
               cb_private = private\<rparr>;
          ret = int32 (cb (length (callbacks s)) c)
      in (ret, s\<lparr>callbacks := callbacks s @ [(c, ret)]\<rparr>))"

text \<open>
  \<^verbatim>\<open>MIN(remaining, s->spb - (sec % s->spb))\<close>: compared in 64 bits, then narrowed to
  the \<^verbatim>\<open>int\<close> \<open>n\<close>.
\<close>

definition min_span :: "vhd_state \<Rightarrow> u64 \<Rightarrow> int \<Rightarrow> int option" where
  "min_span s sec remaining =
     (if spb s = 0 then None
      else
        let a = (word_of_int remaining :: u64);
            b = ucast (spb s) - (sec mod ucast (spb s))
        in Some (sint (ucast (if a < b then a else b) :: u32)))"

text \<open>
  One iteration of the \<^verbatim>\<open>while (sec < end)\<close> loop of \<^verbatim>\<open>vhd_queue_read\<close> and of
  \<^verbatim>\<open>vhd_queue_write\<close> (the \<^verbatim>\<open>switch\<close>) either returns from the function or goes
  on with the span length \<open>n\<close>, the sum \<open>rsp\<close> and the state.
\<close>

datatype loop_step = Return int vhd_state | Continue int int vhd_state

definition vhd_queue_read_body :: "td_callback \<Rightarrow> int \<Rightarrow> int \<Rightarrow> vhd_state \<Rightarrow> u64 \<Rightarrow> int
    \<Rightarrow> int \<Rightarrow> loop_step option" where
  "vhd_queue_read_body cb ident private s sec remaining rsp = do {
     (c, s1) \<leftarrow> read_bitmap_cache s sec VHD_OP_DATA_READ;
     if c = - EINVAL
     then (case invoke_cb cb (- EINVAL) sec remaining ident private s1 of
             (r, s') \<Rightarrow> Some (Return r s'))
     else if c = VHD_BM_BAT_CLEAR then do {
       n \<leftarrow> min_span s1 sec remaining;
       (ret, s2) \<leftarrow> Some (invoke_cb cb BLK_NOT_ALLOCATED sec n ident private s1);
       if ret = - EBUSY
       then (case invoke_cb cb (- EBUSY) (sec + word_of_int n) (int32 (remaining - n)) ident private s2 of
               (r, s') \<Rightarrow> Some (Return r s'))
       else Some (Continue n (int32 (rsp + ret)) s2)
     }
     else if c = VHD_BM_BIT_CLEAR then do {
       n \<leftarrow> read_bitmap_cache_span s1 sec remaining False;
       (ret, s2) \<leftarrow> Some (invoke_cb cb BLK_NOT_ALLOCATED sec n ident private s1);
       if ret = - EBUSY
       then (case invoke_cb cb (- EBUSY) (sec + word_of_int n) (int32 (remaining - n)) ident private s2 of
               (r, s') \<Rightarrow> Some (Return r s'))
       else Some (Continue n (int32 (rsp + ret)) s2)
     }
     else if c = VHD_BM_BIT_SET then do {
       n \<leftarrow> read_bitmap_cache_span s1 sec remaining True;
       (err, s2) \<leftarrow> schedule_data_read s1 sec n 0 ident private;
       if err \<noteq> 0
       then (case invoke_cb cb err sec remaining ident private s2 of
               (r, s') \<Rightarrow> Some (Return r s'))
       else Some (Continue n rsp s2)
     }
     else if c = VHD_BM_NOT_CACHED then do {
       n \<leftarrow> min_span s1 sec remaining;
       (err, s2) \<leftarrow> schedule_bitmap_read s1 (ucast (sec div ucast (spb s1)));
       if err \<noteq> 0
       then (case invoke_cb cb err sec remaining ident private s2 of
               (r, s') \<Rightarrow> Some (Return r s'))
       else do {
         (err, s3) \<leftarrow> vhd_queue_request s2 VHD_OP_DATA_READ sec n ident private;
         if err \<noteq> 0
         then (case invoke_cb cb err sec remaining ident private s3 of
                 (r, s') \<Rightarrow> Some (Return r s'))
         else Some (Continue n rsp s3)
       }
     }
     else if c = VHD_BM_READ_PENDING then do {
       n \<leftarrow> min_span s1 sec remaining;
       (err, s2) \<leftarrow> vhd_queue_request s1 VHD_OP_DATA_READ sec n ident private;
       if err \<noteq> 0
       then (case invoke_cb cb err sec remaining ident private s2 of
               (r, s') \<Rightarrow> Some (Return r s'))
       else Some (Continue n rsp s2)
     }
     else do {
       _ \<leftarrow> ASSERT False;
       Some (Continue 1 rsp s1)
     }
   }"

text \<open>
  The loop of \<^verbatim>\<open>vhd_queue_read\<close>, from the current sector \<open>sec\<close> with the sum
  \<open>rsp\<close> so far. It need not terminate on every state (a span of length 0
  repeats the iteration): not returning is \<open>None\<close>.
\<close>

partial_function (option) vhd_queue_read_loop ::
  "td_callback \<Rightarrow> int \<Rightarrow> int \<Rightarrow> u64 \<Rightarrow> vhd_state \<Rightarrow> u64 \<Rightarrow> int \<Rightarrow> (int \<times> vhd_state) option" where
  "vhd_queue_read_loop cb ident private end' s sec rsp =
     (if sec < end' then do {
        st \<leftarrow> vhd_queue_read_body cb ident private s sec (sint (ucast (end' - sec) :: u32)) rsp;
        case st of
          Return r s' \<Rightarrow> Some (r, s')
        | Continue n rsp' s' \<Rightarrow>
            vhd_queue_read_loop cb ident private end' s' (sec + word_of_int n) rsp'
      } else Some (rsp, s))"

declare vhd_queue_read_loop.simps [code]

definition vhd_queue_read :: "td_callback \<Rightarrow> vhd_state \<Rightarrow> u64 \<Rightarrow> int \<Rightarrow> int \<Rightarrow> int
    \<Rightarrow> (int \<times> vhd_state) option" where
  "vhd_queue_read cb s sector nr_sectors ident private =
     vhd_queue_read_loop cb ident private (sector + word_of_int nr_sectors) s sector 0"

definition vhd_queue_write_body :: "td_callback \<Rightarrow> int \<Rightarrow> int \<Rightarrow> vhd_state \<Rightarrow> u64 \<Rightarrow> int
    \<Rightarrow> loop_step option" where
  "vhd_queue_write_body cb ident private s sec remaining = do {
     (c, s1) \<leftarrow> read_bitmap_cache s sec VHD_OP_DATA_WRITE;
     if c = - EINVAL
     then (case invoke_cb cb (- EINVAL) sec remaining ident private s1 of
             (r, s') \<Rightarrow> Some (Return r s'))
     else if c = VHD_BM_BAT_LOCKED
     then (case invoke_cb cb (- EBUSY) sec remaining ident private s1 of
             (r, s') \<Rightarrow> Some (Return r s'))
     else if c = VHD_BM_BAT_CLEAR then do {
       n \<leftarrow> min_span s1 sec remaining;
       (err, s2) \<leftarrow> schedule_data_write s1 sec n
                      (VHD_FLAG_REQ_UPDATE_BAT OR VHD_FLAG_REQ_UPDATE_BITMAP) ident private;
       if err \<noteq> 0
       then (case invoke_cb cb err sec remaining ident private s2 of
               (r, s') \<Rightarrow> Some (Return r s'))
       else Some (Continue n 0 s2)
     }
     else if c = VHD_BM_BIT_CLEAR then do {
       n \<leftarrow> read_bitmap_cache_span s1 sec remaining False;
       (err, s2) \<leftarrow> schedule_data_write s1 sec n VHD_FLAG_REQ_UPDATE_BITMAP ident private;
       if err \<noteq> 0
       then (case invoke_cb cb err sec remaining ident private s2 of
               (r, s') \<Rightarrow> Some (Return r s'))
       else Some (Continue n 0 s2)
     }
     else if c = VHD_BM_BIT_SET then do {
       n \<leftarrow> read_bitmap_cache_span s1 sec remaining True;
       (err, s2) \<leftarrow> schedule_data_write s1 sec n 0 ident private;
       if err \<noteq> 0
       then (case invoke_cb cb err sec remaining ident private s2 of
               (r, s') \<Rightarrow> Some (Return r s'))
       else Some (Continue n 0 s2)
     }
     else if c = VHD_BM_NOT_CACHED then do {
       n \<leftarrow> min_span s1 sec remaining;
       (err, s2) \<leftarrow> schedule_bitmap_read s1 (ucast (sec div ucast (spb s1)));
       if err \<noteq> 0
       then (case invoke_cb cb err sec remaining ident private s2 of
               (r, s') \<Rightarrow> Some (Return r s'))
       else do {
         (err, s3) \<leftarrow> vhd_queue_request s2 VHD_OP_DATA_WRITE sec n ident private;
         if err \<noteq> 0
         then (case invoke_cb cb err sec remaining ident private s3 of
                 (r, s') \<Rightarrow> Some (Return r s'))
         else Some (Continue n 0 s3)
       }
     }
     else if c = VHD_BM_READ_PENDING then do {
       n \<leftarrow> min_span s1 sec remaining;
       (err, s2) \<leftarrow> vhd_queue_request s1 VHD_OP_DATA_WRITE sec n ident private;
       if err \<noteq> 0
       then (case invoke_cb cb err sec remaining ident private s2 of
               (r, s') \<Rightarrow> Some (Return r s'))
       else Some (Continue n 0 s2)
     }
     else do {
       _ \<leftarrow> ASSERT False;
       Some (Continue 1 0 s1)
     }
   }"

partial_function (option) vhd_queue_write_loop ::
  "td_callback \<Rightarrow> int \<Rightarrow> int \<Rightarrow> u64 \<Rightarrow> vhd_state \<Rightarrow> u64 \<Rightarrow> (int \<times> vhd_state) option" where
  "vhd_queue_write_loop cb ident private end' s sec =
     (if sec < end' then do {
        st \<leftarrow> vhd_queue_write_body cb ident private s sec (sint (ucast (end' - sec) :: u32));
        case st of
          Return r s' \<Rightarrow> Some (r, s')
        | Continue n rsp' s' \<Rightarrow>
            vhd_queue_write_loop cb ident private end' s' (sec + word_of_int n)
      } else Some (0, s))"

declare vhd_queue_write_loop.simps [code]

definition vhd_queue_write :: "td_callback \<Rightarrow> vhd_state \<Rightarrow> u64 \<Rightarrow> int \<Rightarrow> int \<Rightarrow> int
    \<Rightarrow> (int \<times> vhd_state) option" where
  "vhd_queue_write cb s sector nr_sectors ident private =
     vhd_queue_write_loop cb ident private (sector + word_of_int nr_sectors) s sector"

subsection \<open>Completion\<close>

text \<open>
  \<^verbatim>\<open>signal_completion\<close> walks the list from \<open>list\<close>: each request's callback is
  invoked with \<open>error\<close> or, when that is 0, with the request's own error, and the
  request is cleared and returned to the pool. Only pool requests carry a callback.
\<close>

fun signal_completion :: "td_callback \<Rightarrow> vhd_req_ptr list \<Rightarrow> int \<Rightarrow> vhd_state
    \<Rightarrow> (int \<times> vhd_state) option" where
  "signal_completion cb [] error s = Some (0, s)"
| "signal_completion cb (Vreq k # rest) error s = do {
     r \<leftarrow> req_at s (Vreq k);
     let err = (if error \<noteq> 0 then error else r_error r);
     (ret, s1) \<leftarrow> Some (invoke_cb cb err (r_lsec r) (r_nr_secs r) (r_id r) (r_private r) s);
     (rsp, s2) \<leftarrow> signal_completion cb rest error (free_vhd_request k s1);
     Some (int32 (ret + rsp), s2)
   }"
| "signal_completion cb (p # rest) error s = None"

text \<open>\<^verbatim>\<open>for (i = 0; i < nr_secs; i++) set_bit(sec + i, shadow)\<close>.\<close>

definition set_bits :: "u32 \<Rightarrow> int \<Rightarrow> nat set \<Rightarrow> nat set option" where
  "set_bits sec nr_secs addr =
     fold (\<lambda>i a. a \<bind> set_bit (sint (sec + of_nat i))) [0..<nat nr_secs] (Some addr)"

text \<open>
  The \<^verbatim>\<open>while (r)\<close> loop of \<^verbatim>\<open>start_new_bitmap_transaction\<close> over the requests
  that were queued on bitmap \<open>i\<close>; \<open>completed\<close> collects those that failed.
\<close>

definition promote_step :: "nat \<Rightarrow> vhd_req_ptr \<Rightarrow> vhd_req_ptr list \<Rightarrow> vhd_state
    \<Rightarrow> (vhd_req_ptr list \<times> vhd_state) option" where
  "promote_step i r completed s = do {
     req \<leftarrow> req_at s r;
     let s1 = req_upd r (\<lambda>q. q\<lparr>r_flags := clear_vhd_flag (r_flags q) VHD_FLAG_REQ_QUEUED\<rparr>) s;
     if r_error req \<noteq> 0 then Some (add_to_tail completed r, s1)
     else do {
       s2 \<leftarrow> add_to_transaction i r s1;
       if test_vhd_flag (r_flags req) VHD_FLAG_REQ_FINISHED then do {
         s3 \<leftarrow>
           (if ftr_type s2 = HD_TYPE_DIFF then
              (if spb s2 = 0 then None
               else do {
                 bm \<leftarrow> bm_at s2 i;
                 shadow \<leftarrow> set_bits (ucast (r_lsec req mod ucast (spb s2))) (r_nr_secs req)
                             (bm_shadow bm);
                 Some (bm_upd i (\<lambda>bm. bm\<lparr>bm_shadow := shadow\<rparr>) s2)
               })
            else Some s2);
         Some (completed, tx_upd i (\<lambda>t. t\<lparr>tx_finished := int32 (tx_finished t + 1)\<rparr>) s3)
       } else Some (completed, s2)
     }
   }"

fun promote_queue :: "nat \<Rightarrow> vhd_req_ptr list \<Rightarrow> vhd_req_ptr list \<Rightarrow> vhd_state
    \<Rightarrow> (vhd_req_ptr list \<times> vhd_state) option" where
  "promote_queue i [] completed s = Some (completed, s)"
| "promote_queue i (r # rest) completed s = do {
     (completed', s') \<leftarrow> promote_step i r completed s;
     promote_queue i rest completed' s'
   }"

definition queue_len :: "vhd_state \<Rightarrow> nat \<Rightarrow> nat" where
  "queue_len s i = (case bm_at s i of None \<Rightarrow> 0 | Some bm \<Rightarrow> length (bm_queue bm))"

lemma bm_at_bm_upd:
  "bm_at (bm_upd i f s) j =
     (if i = j then map_option f (bm_at s j) else bm_at s j)"
  by (auto simp: bm_at_def bm_upd_def)

lemma queue_len_bm_upd:
  "(\<And>b. bm_queue (f b) = bm_queue b) \<Longrightarrow> queue_len (bm_upd i f s) j = queue_len s j"
  by (auto simp: queue_len_def bm_at_bm_upd split: option.splits)

lemma queue_len_tx_upd [simp]: "queue_len (tx_upd i f s) j = queue_len s j"
  by (simp add: tx_upd_def queue_len_bm_upd)

lemma queue_len_req_upd [simp]: "queue_len (req_upd r f s) j = queue_len s j"
  by (cases r) (simp_all add: queue_len_bm_upd, simp_all add: queue_len_def bm_at_def)

lemma queue_len_free_vhd_request [simp]: "queue_len (free_vhd_request k s) j = queue_len s j"
  by (simp add: free_vhd_request_def queue_len_def bm_at_def)

lemma queue_len_invoke_cb:
  "invoke_cb cb e sec n ident private s = (ret, s1) \<Longrightarrow> queue_len s1 j = queue_len s j"
  by (auto simp: invoke_cb_def queue_len_def bm_at_def Let_def)

lemma queue_len_signal_completion:
  "signal_completion cb l e s = Some (rsp, s') \<Longrightarrow> queue_len s' j = queue_len s j"
proof (induction cb l e s arbitrary: rsp s' rule: signal_completion.induct)
  case (2 cb k rest error s)
  from "2.prems" obtain r ret s1 rsp2 where
    r: "req_at s (Vreq k) = Some r" and
    c: "invoke_cb cb (if error \<noteq> 0 then error else r_error r) (r_lsec r) (r_nr_secs r)
          (r_id r) (r_private r) s = (ret, s1)" and
    rec: "signal_completion cb rest error (free_vhd_request k s1) = Some (rsp2, s')"
    by (auto simp: Let_def split: Option.bind_splits prod.splits if_splits)
  have "queue_len s' j = queue_len (free_vhd_request k s1) j"
    using "2.IH" rec r c by (auto simp: Let_def)
  moreover from c have "queue_len s1 j = queue_len s j" by (rule queue_len_invoke_cb)
  ultimately show ?case by simp
qed simp_all

lemma queue_len_add_to_transaction:
  "add_to_transaction i r s = Some s' \<Longrightarrow> queue_len s' j = queue_len s j"
  by (auto simp: add_to_transaction_def Let_def split: Option.bind_splits)


lemma queue_len_promote_step:
  "promote_step i r c s = Some (c', s') \<Longrightarrow> queue_len s' j = queue_len s j"
  by (auto simp: promote_step_def Let_def queue_len_bm_upd
        dest!: queue_len_add_to_transaction [where j = j]
        split: Option.bind_splits if_splits)

lemma queue_len_promote_queue:
  "promote_queue i l c s = Some (c', s') \<Longrightarrow> queue_len s' j = queue_len s j"
proof (induction i l c s arbitrary: c' s' rule: promote_queue.induct)
  case (2 i r rest completed s)
  from "2.prems" obtain c1 s1 where
    st: "promote_step i r completed s = Some (c1, s1)" and
    rec: "promote_queue i rest c1 s1 = Some (c', s')"
    by (auto split: Option.bind_splits)
  from "2.IH" [OF st refl rec] queue_len_promote_step [OF st] show ?case by simp
qed simp

text \<open>
  \<^verbatim>\<open>finish_bitmap_transaction\<close>, \<^verbatim>\<open>start_new_bitmap_transaction\<close> and
  \<^verbatim>\<open>finish_data_transaction\<close> call each other; the recursion ends because
  \<^verbatim>\<open>start_new_bitmap_transaction\<close> empties the bitmap's queue before it goes on.
\<close>

function finish_bitmap_transaction :: "td_callback \<Rightarrow> vhd_state \<Rightarrow> nat \<Rightarrow> int
      \<Rightarrow> (int \<times> vhd_state) option"
  and start_new_bitmap_transaction :: "td_callback \<Rightarrow> vhd_state \<Rightarrow> nat
      \<Rightarrow> (int \<times> vhd_state) option"
  and finish_data_transaction :: "td_callback \<Rightarrow> vhd_state \<Rightarrow> nat
      \<Rightarrow> (int \<times> vhd_state) option" where
  "finish_bitmap_transaction cb s i error = do {
     bm \<leftarrow> bm_at s i;
     let s1 = tx_upd i (\<lambda>t. t\<lparr>tx_error := (if tx_error t \<noteq> 0 then tx_error t else error)\<rparr>) s;
     if test_vhd_flag (tx_status (bm_tx bm)) VHD_FLAG_TX_UPDATE_BAT then do {
       _ \<leftarrow> ASSERT (blk bm = pbw_blk (bat s1));
       _ \<leftarrow> ASSERT (test_vhd_flag (bat_status (bat s1)) VHD_FLAG_BAT_WRITE_STARTED);
       Some (0, req_upd Bat_req (\<lambda>r. r\<lparr>r_tx := Some i\<rparr>) s1)
     } else do {
       bm1 \<leftarrow> bm_at s1 i;
       (rsp, s2) \<leftarrow> signal_completion cb (tx_requests (bm_tx bm1)) (tx_error (bm_tx bm1)) s1;
       (rsp', s3) \<leftarrow> start_new_bitmap_transaction cb (tx_upd i (\<lambda>t. init_tx) s2) i;
       bm3 \<leftarrow> bm_at s3 i;
       Some (int32 (rsp + rsp'), if \<not> bitmap_in_use bm3 then unlock_bitmap i s3 else s3)
     }
   }"
| "start_new_bitmap_transaction cb s i = do {
     bm \<leftarrow> bm_at s i;
     if bm_queue bm = [] then Some (0, s)
     else do {
       let s1 = bm_upd i (\<lambda>bm. bm\<lparr>bm_queue := []\<rparr>) s;
       e \<leftarrow> bat_entry s1 (blk bm);
       if e = DD_BLK_UNUSED then signal_completion cb (bm_queue bm) (- EIO) s1
       else do {
         (completed, s2) \<leftarrow> promote_queue i (bm_queue bm) [] s1;
         bm2 \<leftarrow> bm_at s2 i;
         (rsp, s3) \<leftarrow>
           (if transaction_completed (bm_tx bm2) then finish_data_transaction cb s2 i
            else Some (0, s2));
         (rsp', s4) \<leftarrow> signal_completion cb completed 0 s3;
         Some (int32 (rsp + rsp'), s4)
       }
     }
   }"
| "finish_data_transaction cb s i = do {
     bm \<leftarrow> bm_at s i;
     let s1 = tx_upd i (\<lambda>t. t\<lparr>tx_closed := 1\<rparr>) s;
     if tx_error (bm_tx bm) = 0 \<and> ftr_type s = HD_TYPE_DIFF then do {
       (r, s2) \<leftarrow> schedule_bitmap_write s1 (blk bm);
       Some (0, s2)
     } else finish_bitmap_transaction cb s1 i 0
   }"
  by pat_completeness auto
termination
proof (relation "measure (\<lambda>x. case x of
          Inl (cb, s, i, e) \<Rightarrow> 3 * queue_len s i + 1
        | Inr (Inl (cb, s, i)) \<Rightarrow> 3 * queue_len s i
        | Inr (Inr (cb, s, i)) \<Rightarrow> 3 * queue_len s i + 2)", goal_cases)
  case 1
  then show ?case by simp
next
  case (2 cb s i error bm s1 bm1 x rsp s2)
  then show ?case
    by (auto dest!: queue_len_signal_completion [where j = i])
next
  case (3 cb s i bm s1 e x completed s2 bm2)
  from 3 have "queue_len s2 i = queue_len s1 i"
    by (auto dest!: queue_len_promote_queue [where j = i])
  moreover from 3 have "queue_len s1 i = 0" "queue_len s i > 0"
    by (auto simp: queue_len_def bm_at_bm_upd)
  ultimately show ?case by simp
next
  case (4 cb s i bm s1)
  then show ?case by simp
qed


declare finish_bitmap_transaction.simps [simp del]
declare start_new_bitmap_transaction.simps [simp del]
declare finish_data_transaction.simps [simp del]
declare req_upd.simps [simp del]

subsection \<open>The finishers\<close>

text \<open>
  The success branch of \<^verbatim>\<open>finish_bat_write\<close>: the pending entry is committed and
  \<^verbatim>\<open>next_db\<close> moves past the new block, padded so that the data of the block after
  it starts on a page.
\<close>

definition commit_pending_block :: "vhd_state \<Rightarrow> vhd_state option" where
  "commit_pending_block s = do {
     _ \<leftarrow> bat_entry s (pbw_blk (bat s));
     let s' = s\<lparr>bat := (bat s)\<lparr>bat_entries := (bat_entries (bat s))
                     [unat (pbw_blk (bat s)) := ucast (pbw_offset (bat s))]\<rparr>,
                 next_db := next_db s + ucast (spb s + bm_secs s)\<rparr>;
     if spp s' = 0 then None
     else if (next_db s' + ucast (bm_secs s')) mod ucast (spp s') \<noteq> 0
     then Some (s'\<lparr>next_db := next_db s' +
             (ucast (spp s') - (next_db s' + ucast (bm_secs s')) mod ucast (spp s'))\<rparr>)
     else Some s'
   }"

definition finish_bat_write :: "td_callback \<Rightarrow> vhd_state \<Rightarrow> vhd_req_ptr
    \<Rightarrow> (int \<times> vhd_state) option" where
  "finish_bat_write cb s req = do {
     rq \<leftarrow> req_at s req;
     i \<leftarrow> get_bitmap s (pbw_blk (bat s));
     bm \<leftarrow> bm_at s i;
     _ \<leftarrow> ASSERT (bitmap_valid bm);
     _ \<leftarrow> ASSERT (bat_locked s \<and>
                 test_vhd_flag (bat_status (bat s)) VHD_FLAG_BAT_WRITE_STARTED);
     _ \<leftarrow> ASSERT (test_vhd_flag (tx_status (bm_tx bm)) VHD_FLAG_TX_LIVE);
     s1 \<leftarrow>
       (if r_error rq = 0 then commit_pending_block s
        else Some (tx_upd i (\<lambda>t. t\<lparr>tx_error := r_error rq\<rparr>) s));
     let s2 = tx_upd i (\<lambda>t. t\<lparr>tx_status :=
                clear_vhd_flag (tx_status t) VHD_FLAG_TX_UPDATE_BAT\<rparr>) s1;
     (rsp, s3) \<leftarrow>
       (if r_tx (bat_req (bat s2)) \<noteq> None then finish_bitmap_transaction cb s2 i (r_error rq)
        else Some (0, s2));
     Some (rsp, init_bat (unlock_bat s3))
   }"

definition finish_zero_bm_write :: "td_callback \<Rightarrow> vhd_state \<Rightarrow> vhd_req_ptr
    \<Rightarrow> (int \<times> vhd_state) option" where
  "finish_zero_bm_write cb s req = do {
     rq \<leftarrow> req_at s req;
     _ \<leftarrow> (if spb s = 0 then None else Some ());
     let b = (ucast (r_lsec rq div ucast (spb s)) :: u32);
     _ \<leftarrow> ASSERT (bat_locked s);
     _ \<leftarrow> ASSERT (pbw_blk (bat s) = b);
     i \<leftarrow> get_bitmap s b;
     bm \<leftarrow> bm_at s i;
     _ \<leftarrow> ASSERT (bitmap_valid bm \<and> bitmap_locked bm);
     t \<leftarrow> r_tx rq;
     txbm \<leftarrow> bm_at s t;
     (r, l) \<leftarrow> remove_from_req_list (tx_requests (bm_tx txbm)) req;
     let s1 = tx_upd t (\<lambda>t. t\<lparr>tx_finished := int32 (tx_finished t + 1), tx_requests := l\<rparr>) s;
     if r_error rq \<noteq> 0 then do {
       let s2 = tx_upd t (\<lambda>t. t\<lparr>tx_error := r_error rq,
                    tx_status := clear_vhd_flag (tx_status t) VHD_FLAG_TX_UPDATE_BAT\<rparr>)
                  (init_bat (unlock_bat s1));
       txbm2 \<leftarrow> bm_at s2 t;
       if transaction_completed (bm_tx txbm2) then finish_data_transaction cb s2 i
       else Some (0, s2)
     } else do {
       (r, s2) \<leftarrow> schedule_bat_write s1;
       Some (0, s2)
     }
   }"

text \<open>
  The \<^verbatim>\<open>while (r)\<close> loop of \<^verbatim>\<open>finish_bitmap_read\<close>: every waiting request is
  copied, released, and sent through the router again.
\<close>

fun requeue_waiting :: "td_callback \<Rightarrow> vhd_req_ptr list \<Rightarrow> vhd_state \<Rightarrow> (int \<times> vhd_state) option" where
  "requeue_waiting cb [] s = Some (0, s)"
| "requeue_waiting cb (Vreq k # rest) s = do {
     tmp \<leftarrow> req_at s (Vreq k);
     let s1 = free_vhd_request k s;
     _ \<leftarrow> ASSERT (r_op tmp = VHD_OP_DATA_READ \<or> r_op tmp = VHD_OP_DATA_WRITE);
     (ret, s2) \<leftarrow>
       (if r_op tmp = VHD_OP_DATA_READ
        then vhd_queue_read cb s1 (r_lsec tmp) (r_nr_secs tmp) (r_id tmp) (r_private tmp)
        else vhd_queue_write cb s1 (r_lsec tmp) (r_nr_secs tmp) (r_id tmp) (r_private tmp));
     (rsp, s3) \<leftarrow> requeue_waiting cb rest s2;
     Some (int32 (ret + rsp), s3)
   }"
| "requeue_waiting cb (p # rest) s = None"

text \<open>
  On failure \<^verbatim>\<open>finish_bitmap_read\<close> passes \<^verbatim>\<open>r->error\<close> of the first waiting
  request (a null dereference when nothing waits) to \<^verbatim>\<open>signal_completion\<close>.
\<close>

definition finish_bitmap_read :: "td_callback \<Rightarrow> vhd_state \<Rightarrow> vhd_req_ptr
    \<Rightarrow> (int \<times> vhd_state) option" where
  "finish_bitmap_read cb s req = do {
     rq \<leftarrow> req_at s req;
     _ \<leftarrow> (if spb s = 0 then None else Some ());
     i \<leftarrow> get_bitmap s (ucast (r_lsec rq div ucast (spb s)));
     bm \<leftarrow> bm_at s i;
     _ \<leftarrow> ASSERT (test_vhd_flag (bm_status bm) VHD_FLAG_BM_READ_PENDING);
     let r = bm_waiting bm;
     let s1 = bm_upd i (\<lambda>bm. bm\<lparr>bm_waiting := [], bm_status :=
                clear_vhd_flag (bm_status bm) VHD_FLAG_BM_READ_PENDING\<rparr>) s;
     (rsp, s2) \<leftarrow>
       (if r_error rq = 0
        then requeue_waiting cb r (bm_upd i (\<lambda>bm. bm\<lparr>bm_shadow := bm_map bm\<rparr>) s1)
        else do {
          first \<leftarrow> (case r of [] \<Rightarrow> None | x # rest \<Rightarrow> req_at s1 x);
          (rsp, s') \<leftarrow> signal_completion cb r (r_error first) s1;
          s'' \<leftarrow> free_vhd_bitmap i s';
          Some (rsp, s'')
        });
     bm2 \<leftarrow> bm_at s2 i;
     Some (rsp, if \<not> bitmap_in_use bm2 then unlock_bitmap i s2 else s2)
   }"

definition finish_bitmap_write :: "td_callback \<Rightarrow> vhd_state \<Rightarrow> vhd_req_ptr
    \<Rightarrow> (int \<times> vhd_state) option" where
  "finish_bitmap_write cb s req = do {
     rq \<leftarrow> req_at s req;
     _ \<leftarrow> (if spb s = 0 then None else Some ());
     i \<leftarrow> get_bitmap s (ucast (r_lsec rq div ucast (spb s)));
     bm \<leftarrow> bm_at s i;
     _ \<leftarrow> ASSERT (tx_closed (bm_tx bm) \<noteq> 0);
     _ \<leftarrow> ASSERT (bitmap_valid bm);
     _ \<leftarrow> ASSERT (test_vhd_flag (bm_status bm) VHD_FLAG_BM_WRITE_PENDING);
     let s1 = bm_upd i (\<lambda>bm. bm\<lparr>bm_status :=
                clear_vhd_flag (bm_status bm) VHD_FLAG_BM_WRITE_PENDING\<rparr>) s;
     let s2 = (if r_error rq \<noteq> 0 then bm_upd i (\<lambda>bm. bm\<lparr>bm_shadow := bm_map bm\<rparr>) s1
               else bm_upd i (\<lambda>bm. bm\<lparr>bm_map := bm_shadow bm\<rparr>) s1);
     finish_bitmap_transaction cb s2 i (r_error rq)
   }"

definition finish_data_read :: "td_callback \<Rightarrow> vhd_state \<Rightarrow> vhd_req_ptr
    \<Rightarrow> (int \<times> vhd_state) option" where
  "finish_data_read cb s req = signal_completion cb [req] 0 s"

text \<open>
  \<^verbatim>\<open>finish_data_write\<close>. The counter it advances is that of \<^verbatim>\<open>req->tx\<close>; the
  bitmap whose shadow it marks and whose transaction it may finish is the one
  \<^verbatim>\<open>get_bitmap\<close> finds for the request's block. A request that is in no list has
  no successor, which is what the \<^verbatim>\<open>ASSERT(s, !req->next)\<close> of the last branch asks.
\<close>

definition finish_data_write :: "td_callback \<Rightarrow> vhd_state \<Rightarrow> vhd_req_ptr
    \<Rightarrow> (int \<times> vhd_state) option" where
  "finish_data_write cb s req = do {
     rq \<leftarrow> req_at s req;
     let s1 = req_upd req (\<lambda>r. r\<lparr>r_flags := set_vhd_flag (r_flags r) VHD_FLAG_REQ_FINISHED\<rparr>) s;
     case r_tx rq of
       Some t \<Rightarrow> do {
         _ \<leftarrow> (if spb s1 = 0 then None else Some ());
         i \<leftarrow> get_bitmap s1 (ucast (r_lsec rq div ucast (spb s1)));
         bm \<leftarrow> bm_at s1 i;
         _ \<leftarrow> ASSERT (bitmap_valid bm \<and> bitmap_locked bm);
         _ \<leftarrow> bm_at s1 t;
         let s2 = tx_upd t (\<lambda>t. t\<lparr>tx_finished := int32 (tx_finished t + 1)\<rparr>) s1;
         s3 \<leftarrow>
           (if r_error rq = 0 \<and> ftr_type s2 = HD_TYPE_DIFF
            then do {
              bm' \<leftarrow> bm_at s2 i;
              shadow \<leftarrow> set_bits (ucast (r_lsec rq mod ucast (spb s2))) (r_nr_secs rq)
                          (bm_shadow bm');
              Some (bm_upd i (\<lambda>bm. bm\<lparr>bm_shadow := shadow\<rparr>) s2)
            } else Some s2);
         txbm \<leftarrow> bm_at s3 t;
         if transaction_completed (bm_tx txbm) then finish_data_transaction cb s3 i
         else Some (0, s3)
       }
     | None \<Rightarrow>
         if \<not> test_vhd_flag (r_flags rq) VHD_FLAG_REQ_QUEUED
         then signal_completion cb [req] 0 s1
         else Some (0, s1)
   }"

subsection \<open>Dispatching completions\<close>

text \<open>
  One event reaped by \<^verbatim>\<open>io_getevents\<close>: \<open>ev_obj\<close> is the owner of the control block
  \<^verbatim>\<open>ep->obj\<close>, \<open>ev_res\<close> the byte count \<^verbatim>\<open>ep->res\<close>, and \<open>ev_data\<close> what a read of
  a bitmap has stored in the bitmap's \<^verbatim>\<open>map\<close> (its \<^verbatim>\<open>req->buf\<close>).
\<close>

record io_event =
  ev_obj :: vhd_req_ptr
  ev_res :: int
  ev_data :: "nat set"

text \<open>
  The body of the event loop of \<^verbatim>\<open>vhd_do_callbacks\<close>. The request is found
  through the control block's back-pointer \<^verbatim>\<open>io->data\<close>, which is null in a
  request that was cleared and not prepared again.
\<close>

definition vhd_do_callbacks_event :: "td_callback \<Rightarrow> vhd_state \<Rightarrow> io_event
    \<Rightarrow> (int \<times> vhd_state) option" where
  "vhd_do_callbacks_event cb s ev = do {
     rq \<leftarrow> req_at s (ev_obj ev);
     io \<leftarrow> r_iocb rq;
     let s0 = (case (ev_obj ev, io_opcode io) of
                 (Bm_req i, IO_PREAD) \<Rightarrow> bm_upd i (\<lambda>bm. bm\<lparr>bm_map := ev_data ev\<rparr>) s
               | _ \<Rightarrow> s);
     let s1 = req_upd (ev_obj ev)
                (\<lambda>r. r\<lparr>r_error := (if ev_res ev = io_nbytes io then 0 else - EIO)\<rparr>) s0;
     case r_op rq of
       VHD_OP_DATA_READ \<Rightarrow> finish_data_read cb s1 (ev_obj ev)
     | VHD_OP_DATA_WRITE \<Rightarrow> finish_data_write cb s1 (ev_obj ev)
     | VHD_OP_BITMAP_READ \<Rightarrow> finish_bitmap_read cb s1 (ev_obj ev)
     | VHD_OP_BITMAP_WRITE \<Rightarrow> finish_bitmap_write cb s1 (ev_obj ev)
     | VHD_OP_ZERO_BM_WRITE \<Rightarrow> finish_zero_bm_write cb s1 (ev_obj ev)
     | VHD_OP_BAT_WRITE \<Rightarrow> finish_bat_write cb s1 (ev_obj ev)
   }"

text \<open>
  \<^verbatim>\<open>fail_vhd_request\<close> records the error in the request and runs the finisher of
  its operation.
\<close>

definition fail_vhd_request :: "td_callback \<Rightarrow> vhd_state \<Rightarrow> vhd_req_ptr \<Rightarrow> int
    \<Rightarrow> (int \<times> vhd_state) option" where
  "fail_vhd_request cb s r err = do {
     rq \<leftarrow> req_at s r;
     let s1 = req_upd r (\<lambda>q. q\<lparr>r_error := err\<rparr>) s;
     case r_op rq of
       VHD_OP_DATA_READ \<Rightarrow> finish_data_read cb s1 r
     | VHD_OP_DATA_WRITE \<Rightarrow> finish_data_write cb s1 r
     | VHD_OP_BITMAP_READ \<Rightarrow> finish_bitmap_read cb s1 r
     | VHD_OP_BITMAP_WRITE \<Rightarrow> finish_bitmap_write cb s1 r
     | VHD_OP_ZERO_BM_WRITE \<Rightarrow> finish_zero_bm_write cb s1 r
     | VHD_OP_BAT_WRITE \<Rightarrow> finish_bat_write cb s1 r
   }"

text \<open>
  The loop of \<^verbatim>\<open>vhd_submit\<close> over the control blocks the kernel did not take,
  from index \<open>i\<close>. Its bound \<^verbatim>\<open>s->iocb_queued\<close> is read again in every round, and
  a finisher may queue more: the loop need not end.
\<close>

partial_function (option) fail_queued :: "td_callback \<Rightarrow> int \<Rightarrow> nat \<Rightarrow> int \<Rightarrow> vhd_state
    \<Rightarrow> (int \<times> vhd_state) option" where
  "fail_queued cb err i rsp s =
     (if i < length (iocb_queue s) then do {
        rq \<leftarrow> req_at s (iocb_queue s ! i);
        _ \<leftarrow> r_iocb rq;
        (r, s') \<leftarrow> fail_vhd_request cb s (iocb_queue s ! i) err;
        fail_queued cb err (Suc i) (int32 (rsp + r)) s'
      } else Some (rsp, s))"

declare fail_queued.simps [code]

text \<open>
  \<^verbatim>\<open>vhd_submit\<close>. \<open>io_submit\<close> is the kernel: from the batch it is handed it
  returns the number of control blocks it took, or a negative error. Requests it
  did not take are failed with that error, or with \<^verbatim>\<open>-EIO\<close>.
\<close>

type_synonym io_submit_t = "vhd_req_ptr list \<Rightarrow> int"

definition vhd_submit :: "td_callback \<Rightarrow> io_submit_t \<Rightarrow> vhd_state \<Rightarrow> (int \<times> vhd_state) option" where
  "vhd_submit cb io_submit s =
     (if iocb_queue s = [] then Some (0, s)
      else do {
        let ret = int32 (io_submit (iocb_queue s));
        let err = (if ret < 0 then ret
                   else if ret < int (length (iocb_queue s)) then - EIO else 0);
        (rsp, s') \<leftarrow>
          (if err \<noteq> 0 then fail_queued cb err (if ret < 0 then 0 else nat ret) 0 s
           else Some (0, s));
        Some (rsp, s'\<lparr>iocb_queue := []\<rparr>)
      })"

text \<open>
  \<^verbatim>\<open>vhd_do_callbacks\<close> on the events \<^verbatim>\<open>io_getevents\<close> returned: each is dispatched
  in turn, and what the finishers queued meanwhile is submitted.
\<close>

fun do_callbacks_events :: "td_callback \<Rightarrow> io_event list \<Rightarrow> int \<Rightarrow> vhd_state
    \<Rightarrow> (int \<times> vhd_state) option" where
  "do_callbacks_events cb [] rsp s = Some (rsp, s)"
| "do_callbacks_events cb (ev # evs) rsp s = do {
     (r, s') \<leftarrow> vhd_do_callbacks_event cb s ev;
     do_callbacks_events cb evs (int32 (rsp + r)) s'
   }"

definition vhd_do_callbacks :: "td_callback \<Rightarrow> io_submit_t \<Rightarrow> vhd_state \<Rightarrow> io_event list
    \<Rightarrow> (int \<times> vhd_state) option" where
  "vhd_do_callbacks cb io_submit s evs = do {
     (rsp, s') \<leftarrow> do_callbacks_events cb evs 0 s;
     if length (iocb_queue s') \<noteq> length (iocb_queue s) then do {
       (r, s'') \<leftarrow> vhd_submit cb io_submit s';
       Some (rsp, s'')
     } else Some (rsp, s')
   }"

text \<open>
  The host (tapdisk) drives the image through \<^verbatim>\<open>struct tap_disk tapdisk_vhd\<close>: it
  queues reads and writes, submits, and polls for completions. A run is the
  sequence of these calls; it ends at the first call that aborts. The kernel of a
  run takes every batch whole.
\<close>

definition io_submit_all :: io_submit_t where
  "io_submit_all batch = int (length batch)"

datatype td_call =
    Td_queue_read u64 int int int
  | Td_queue_write u64 int int int
  | Td_submit
  | Td_do_callbacks "io_event list"

fun td_run :: "td_callback \<Rightarrow> td_call list \<Rightarrow> vhd_state \<Rightarrow> vhd_state option" where
  "td_run cb [] s = Some s"
| "td_run cb (Td_queue_read sector nr ident private # calls) s = do {
     (r, s') \<leftarrow> vhd_queue_read cb s sector nr ident private;
     td_run cb calls s'
   }"
| "td_run cb (Td_queue_write sector nr ident private # calls) s = do {
     (r, s') \<leftarrow> vhd_queue_write cb s sector nr ident private;
     td_run cb calls s'
   }"
| "td_run cb (Td_submit # calls) s = do {
     (r, s') \<leftarrow> vhd_submit cb io_submit_all s;
     td_run cb calls s'
   }"
| "td_run cb (Td_do_callbacks evs # calls) s = do {
     (r, s') \<leftarrow> vhd_do_callbacks cb io_submit_all s evs;
     td_run cb calls s'
   }"

subsection \<open>Opening an image\<close>

text \<open>
  The state \<^verbatim>\<open>__vhd_open\<close> leaves for a dynamic or differencing image whose header
  and BAT were read: \<^verbatim>\<open>vhd_read_bat\<close> places \<^verbatim>\<open>next_db\<close> after the table and after
  every allocated block and pads it so that the data of the next block starts on a
  page; the bitmap cache is empty with all of \<^verbatim>\<open>bitmap_list\<close> free, and
  \<^verbatim>\<open>init_aio_state\<close> puts every request of the pool on the free stack. \<open>table\<close> is
  the BAT as stored in the file (\<^verbatim>\<open>max_bat_size\<close> entries), \<open>pagesize\<close> the host's
  page size and \<open>pool\<close> the size \<^verbatim>\<open>VHD_REQS_DATA\<close> of the request pool, which
  \<^verbatim>\<open>tapdisk.h\<close> fixes.
\<close>

definition secs_round_up :: "u32 \<Rightarrow> u32" where
  "secs_round_up bytes = drop_bit VHD_SECTOR_SHIFT (bytes + 511)"

definition vhd_read_bat :: "u32 list \<Rightarrow> vhd_state \<Rightarrow> vhd_state" where
  "vhd_read_bat table s =
     (let first = drop_bit VHD_SECTOR_SHIFT (hdr_table_offset s)
                  + ucast (secs_round_up (4 * hdr_max_bat_size s));
          n = fold (\<lambda>e n. if e \<noteq> DD_BLK_UNUSED \<and> ucast e \<ge> n
                           then ucast (e + spb s + bm_secs s) else n) table first;
          n' = (if (n + ucast (bm_secs s)) mod ucast (spp s) \<noteq> 0
                then n + (ucast (spp s) - (n + ucast (bm_secs s)) mod ucast (spp s))
                else n)
      in s\<lparr>bat := (bat s)\<lparr>bat_entries := table\<rparr>, next_db := n'\<rparr>)"

definition empty_bitmap :: vhd_bitmap where
  "empty_bitmap =
     \<lparr>blk = 0, seqno = 0, bm_status = 0, bm_map = {}, bm_shadow = {}, bm_tx = init_tx,
      bm_queue = [], bm_waiting = [], bm_req = zeroed_request\<rparr>"

definition vhd_open_state :: "hd_type \<Rightarrow> u32 \<Rightarrow> u64 \<Rightarrow> u32 list \<Rightarrow> u32 \<Rightarrow> nat \<Rightarrow> vhd_state" where
  "vhd_open_state type block_size table_offset table pagesize pool =
     vhd_read_bat table
       \<lparr>ftr_type = type,
        hdr_max_bat_size = of_nat (length table),
        hdr_table_offset = table_offset,
        spp = drop_bit VHD_SECTOR_SHIFT pagesize,
        spb = drop_bit VHD_SECTOR_SHIFT block_size,
        next_db = 0,
        bat = \<lparr>bat_entries = [], bat_status = 0, pbw_blk = 0, pbw_offset = 0,
                bat_req = zeroed_request, bat_req_buf = replicate 512 0,
                zero_req = zeroed_request\<rparr>,
        bm_lru = 0,
        bm_secs = secs_round_up (drop_bit 3 (drop_bit VHD_SECTOR_SHIFT block_size)),
        bitmap = replicate VHD_CACHE_SIZE None,
        bitmap_free = [0..<VHD_CACHE_SIZE],
        bitmap_list = replicate VHD_CACHE_SIZE empty_bitmap,
        vreq_free = [0..<pool],
        vreq_list = replicate pool zeroed_request,
        iocb_queue = [],
        callbacks = []\<rparr>"

subsection \<open>Example images and events\<close>

text \<open>
  A host whose callback always returns 0; a freshly created image with 2 MiB
  blocks, its BAT of 128 unused entries at byte 1536, 4 KiB pages and a pool of
  four requests; and the completion of a one-sector transfer, in full or failed.
\<close>

definition cb_zero :: td_callback where
  "cb_zero n c = 0"

definition image :: "hd_type \<Rightarrow> vhd_state" where
  "image type = vhd_open_state type 0x200000 1536 (replicate 128 DD_BLK_UNUSED) 4096 4"

definition ev_done :: "vhd_req_ptr \<Rightarrow> io_event" where
  "ev_done p = \<lparr>ev_obj = p, ev_res = 512, ev_data = {}\<rparr>"

definition ev_failed :: "vhd_req_ptr \<Rightarrow> io_event" where
  "ev_failed p = \<lparr>ev_obj = p, ev_res = - 5, ev_data = {}\<rparr>"

text \<open>
  Block 130 reserved on an image with 256 BAT entries; a new dynamic image of 4
  blocks; and the image of 128 blocks after one sector was written to the
  unallocated block 0 and the zeroed bitmap and the data have reached the disk:
  the BAT write is in flight.
\<close>

definition block_130_reserved :: "vhd_state option" where
  "block_130_reserved =
     reserve_new_block 130
       (vhd_open_state HD_TYPE_DYNAMIC 0x200000 1536 (replicate 256 DD_BLK_UNUSED) 4096 4)"

definition image_4_blocks :: vhd_state where
  "image_4_blocks =
     vhd_open_state HD_TYPE_DYNAMIC 0x200000 1536 (replicate 4 DD_BLK_UNUSED) 4096 4"

definition bat_write_pending :: "vhd_state option" where
  "bat_write_pending =
     td_run cb_zero
       [Td_queue_write 0 1 7 0, Td_submit,
        Td_do_callbacks [ev_done Zero_req], Td_do_callbacks [ev_done (Vreq 3)]]
       (image HD_TYPE_DYNAMIC)"

text \<open>
  The dynamic image after a write to block 0 was queued and submitted: block 0 is
  being allocated and the BAT is locked.
\<close>

definition block_0_pending :: "vhd_state option" where
  "block_0_pending = td_run cb_zero [Td_queue_write 0 1 7 0, Td_submit] (image HD_TYPE_DYNAMIC)"

text \<open>
  The arguments of the callback with which \<^verbatim>\<open>signal_completion\<close> reports a
  request: the error of the call if there is one, the request's own otherwise.
\<close>

definition completion_call :: "int \<Rightarrow> vhd_request \<Rightarrow> cb_call" where
  "completion_call e r =
     \<lparr>cb_error = (if e \<noteq> 0 then e else r_error r), cb_sector = r_lsec r,
      cb_nr_secs = r_nr_secs r, cb_id = r_id r, cb_private = r_private r\<rparr>"

text \<open>
  A dynamic image on which a write to sector 0 has allocated block 0 (the
  write of the BAT is in flight) and a write to sector 1 has been queued
  behind it.
\<close>

definition write_queued_behind_allocation :: "vhd_state option" where
  "write_queued_behind_allocation =
     td_run cb_zero
       [Td_queue_write 0 1 1 0, Td_submit,
        Td_do_callbacks [ev_done Zero_req], Td_do_callbacks [ev_done (Vreq 3)],
        Td_queue_write 1 1 2 0, Td_submit]
       (image HD_TYPE_DYNAMIC)"

text \<open>
  A host callback that answers with the number of sectors it was told about,
  a read that crosses from block 0 into block 1 of an empty dynamic image, and
  the first write to block 0.
\<close>

definition cb_secs :: td_callback where
  "cb_secs n c = cb_nr_secs c"

text \<open>The image of 128 blocks whose block 0 is allocated, at sector 7.\<close>

definition image_block_0 :: "hd_type \<Rightarrow> vhd_state" where
  "image_block_0 type =
     vhd_open_state type 0x200000 1536 (7 # replicate 127 DD_BLK_UNUSED) 4096 4"

definition read_over_holes :: "(int \<times> vhd_state) option" where
  "read_over_holes = vhd_queue_read cb_secs (image HD_TYPE_DYNAMIC) 4090 10 7 0"

definition write_block_0 :: "(int \<times> vhd_state) option" where
  "write_block_0 = vhd_queue_write cb_secs (image HD_TYPE_DYNAMIC) 0 1 7 0"

text \<open>
  A read of sector 0 of the differencing image whose block 0 is allocated: the
  bitmap of block 0 is not cached, its read is in flight and the request waits.
\<close>

definition bitmap_read_pending :: "vhd_state option" where
  "bitmap_read_pending =
     td_run cb_zero [Td_queue_read 0 1 7 0, Td_submit] (image_block_0 HD_TYPE_DIFF)"

text \<open>
  A write to the unallocated block 0 of a differencing image whose zeroed bitmap
  could not be written, while the data was.
\<close>

definition failed_allocation :: "vhd_state option" where
  "failed_allocation =
     td_run cb_zero
       [Td_queue_write 0 1 7 0, Td_submit,
        Td_do_callbacks [ev_failed Zero_req], Td_do_callbacks [ev_done (Vreq 3)]]
       (image HD_TYPE_DIFF)"

text \<open>
  Four writes to block 0 of a dynamic image. The first allocates the block; the
  second is queued behind it (request 2); the write of the BAT fails. The third
  allocates the block again and is given request 2, the fourth request 3. Then
  request 2 completes, the zeroed bitmap is written, and request 2 completes once
  more: two writes were submitted from it.
\<close>

definition reused_request :: "vhd_state option" where
  "reused_request =
     td_run cb_zero
       [Td_queue_write 0 1 1 0, Td_submit,
        Td_do_callbacks [ev_done Zero_req], Td_do_callbacks [ev_done (Vreq 3)],
        Td_queue_write 1 1 2 0, Td_submit,
        Td_do_callbacks [ev_failed Bat_req],
        Td_queue_write 2 1 3 0, Td_queue_write 3 1 4 0, Td_submit,
        Td_do_callbacks [ev_done (Vreq 2)], Td_do_callbacks [ev_done Zero_req],
        Td_do_callbacks [ev_done (Vreq 2)]]
       (image HD_TYPE_DYNAMIC)"

section \<open>Properties\<close>

subsection \<open>Arithmetic in \<^verbatim>\<open>int\<close>\<close>

lemma int32_int32 [simp]: "int32 (int32 x) = int32 x"
  by (simp add: int32_def)

lemma int32_add_left [simp]: "int32 (int32 a + b) = int32 (a + b)"
  by (simp add: int32_def)

lemma int32_add_right [simp]: "int32 (a + int32 b) = int32 (a + b)"
  by (simp add: int32_def)

lemma int32_0 [simp]: "int32 0 = 0"
  by (simp add: int32_def)

lemma int32_id: "- (2 ^ 31) \<le> x \<Longrightarrow> x < 2 ^ 31 \<Longrightarrow> int32 x = x"
  by (simp add: int32_def signed_of_int signed_take_bit_int_eq_self)

lemma int32_range: "- (2 ^ 31) \<le> int32 x \<and> int32 x < 2 ^ 31"
  using sint_range_size [of "word_of_int x :: 32 word"] by (simp add: int32_def word_size)

subsection \<open>Flags\<close>

lemma test_set_same: "f \<noteq> 0 \<Longrightarrow> test_vhd_flag (set_vhd_flag w f) f"
  unfolding test_vhd_flag_def set_vhd_flag_def
  by (metis (no_types, opaque_lifting) and.idem bit.conj_disj_distrib2 or_eq_0_iff)

lemma test_set_other: "f AND g = 0 \<Longrightarrow> test_vhd_flag (set_vhd_flag w f) g = test_vhd_flag w g"
  unfolding test_vhd_flag_def set_vhd_flag_def
  by (simp add: bit.conj_disj_distrib2)

lemma test_clear_same: "\<not> test_vhd_flag (clear_vhd_flag w f) f"
  unfolding test_vhd_flag_def clear_vhd_flag_def
  by (simp add: and.assoc)

lemma test_clear_other: "f AND g = 0 \<Longrightarrow> test_vhd_flag (clear_vhd_flag w f) g = test_vhd_flag w g"
proof -
  assume a: "f AND g = 0"
  have "NOT f AND g = g"
    by (rule bit_eqI) (use a in \<open>auto simp: bit_and_iff bit_not_iff bit_eq_iff\<close>)
  then have "(w AND NOT f) AND g = w AND g" by (simp add: and.assoc)
  then show ?thesis by (simp add: test_vhd_flag_def clear_vhd_flag_def)
qed

subsection \<open>What the finishers leave alone\<close>

text \<open>
  The geometry, the BAT entries and \<^verbatim>\<open>next_db\<close> are touched by nothing but the
  commit of a BAT write.
\<close>

definition layout :: "vhd_state \<Rightarrow> u32 list \<times> u64 \<times> u32 \<times> u32 \<times> u32 \<times> hd_type \<times> u32 \<times> u64" where
  "layout s = (bat_entries (bat s), next_db s, spb s, spp s, bm_secs s, ftr_type s,
     hdr_max_bat_size s, hdr_table_offset s)"

lemma layout_bm_upd [simp]: "layout (bm_upd i f s) = layout s"
  by (simp add: layout_def bm_upd_def)

lemma layout_tx_upd [simp]: "layout (tx_upd i f s) = layout s"
  by (simp add: tx_upd_def)

lemma layout_req_upd [simp]: "layout (req_upd r f s) = layout s"
  by (cases r) (simp_all add: layout_def bm_upd_def req_upd.simps)

lemma layout_free_vhd_request [simp]: "layout (free_vhd_request k s) = layout s"
  by (simp add: free_vhd_request_def layout_def req_upd.simps)

lemma layout_invoke_cb: "invoke_cb cb e sec n ident private s = (ret, s') \<Longrightarrow> layout s' = layout s"
  by (auto simp: invoke_cb_def layout_def Let_def)

lemma layout_lock_bitmap [simp]: "layout (lock_bitmap i s) = layout s"
  by (simp add: lock_bitmap_def)

lemma layout_unlock_bitmap [simp]: "layout (unlock_bitmap i s) = layout s"
  by (simp add: unlock_bitmap_def)

lemma layout_aio_write [simp]: "layout (aio_write r off s) = layout s"
  by (cases r) (simp_all add: aio_write_def layout_def bm_upd_def req_upd.simps)

lemma layout_lru_halve_step [simp]: "layout (lru_halve_step slot s) = layout s"
  by (cases slot) (simp_all add: lru_halve_step_def Let_def layout_def bm_upd_def)

lemma layout_fold_lru_halve [simp]: "layout (fold lru_halve_step slots s) = layout s"
  by (induction slots arbitrary: s) simp_all

lemma layout_touch_bitmap [simp]: "layout (touch_bitmap i s) = layout s"
proof -
  have "layout (snd (bitmap_lru_seqno s)) = layout s"
  proof (cases "bm_lru s = 0xffffffff")
    case True
    have "layout (fold lru_halve_step (bitmap s) (s\<lparr>bm_lru := 0\<rparr>)) = layout (s\<lparr>bm_lru := 0\<rparr>)"
      by (rule layout_fold_lru_halve)
    then show ?thesis using True by (simp add: bitmap_lru_seqno_def Let_def layout_def)
  next
    case False
    then show ?thesis by (simp add: bitmap_lru_seqno_def Let_def layout_def)
  qed
  then show ?thesis by (auto simp: touch_bitmap_def split: prod.splits)
qed

lemma layout_signal_completion:
  "signal_completion cb l e s = Some (rsp, s') \<Longrightarrow> layout s' = layout s"
proof (induction cb l e s arbitrary: rsp s' rule: signal_completion.induct)
  case (2 cb k rest error s)
  from "2.prems" obtain r ret s1 rsp2 where
    r: "req_at s (Vreq k) = Some r" and
    c: "invoke_cb cb (if error \<noteq> 0 then error else r_error r) (r_lsec r) (r_nr_secs r)
          (r_id r) (r_private r) s = (ret, s1)" and
    rec: "signal_completion cb rest error (free_vhd_request k s1) = Some (rsp2, s')"
    by (auto simp: Let_def split: Option.bind_splits prod.splits if_splits)
  have "layout s' = layout (free_vhd_request k s1)"
    using "2.IH" rec r c by (auto simp: Let_def)
  moreover from c have "layout s1 = layout s" by (rule layout_invoke_cb)
  ultimately show ?case by simp
qed simp_all

lemma layout_add_to_transaction:
  "add_to_transaction i r s = Some s' \<Longrightarrow> layout s' = layout s"
  by (auto simp: add_to_transaction_def Let_def split: Option.bind_splits)

lemma layout_promote_step:
  "promote_step i r c s = Some (c', s') \<Longrightarrow> layout s' = layout s"
  by (auto simp: promote_step_def Let_def
        dest!: layout_add_to_transaction
        split: Option.bind_splits if_splits)

lemma layout_promote_queue:
  "promote_queue i l c s = Some (c', s') \<Longrightarrow> layout s' = layout s"
proof (induction i l c s arbitrary: c' s' rule: promote_queue.induct)
  case (2 i r rest completed s)
  from "2.prems" obtain c1 s1 where
    st: "promote_step i r completed s = Some (c1, s1)" and
    rec: "promote_queue i rest c1 s1 = Some (c', s')"
    by (auto split: Option.bind_splits)
  from "2.IH" [OF st refl rec] layout_promote_step [OF st] show ?case by simp
qed simp

lemma layout_schedule_bitmap_write:
  "schedule_bitmap_write s b = Some (r, s') \<Longrightarrow> layout s' = layout s"
  by (auto simp: schedule_bitmap_write_def Let_def split: Option.bind_splits if_splits)


lemma layout_finish_transaction:
  "finish_bitmap_transaction cb s i e = Some (rsp, s') \<Longrightarrow> layout s' = layout s"
  "start_new_bitmap_transaction cb s i = Some (rsp, s') \<Longrightarrow> layout s' = layout s"
  "finish_data_transaction cb s i = Some (rsp, s') \<Longrightarrow> layout s' = layout s"
proof (induction cb s i e and cb s i and cb s i arbitrary: rsp s' and rsp s' and rsp s'
    rule: finish_bitmap_transaction_start_new_bitmap_transaction_finish_data_transaction.induct)
  case (1 cb s i error)
  show ?case
  proof (cases "bm_at s i")
    case None
    with "1.prems" [unfolded finish_bitmap_transaction.simps [of cb s i error]] show ?thesis by simp
  next
    case (Some bm)
    define s1 where "s1 = tx_upd i (\<lambda>t. t\<lparr>tx_error := (if tx_error t \<noteq> 0 then tx_error t else error)\<rparr>) s"
    show ?thesis
    proof (cases "test_vhd_flag (tx_status (bm_tx bm)) VHD_FLAG_TX_UPDATE_BAT")
      case True
      with "1.prems" [unfolded finish_bitmap_transaction.simps [of cb s i error]] Some show ?thesis
        by (auto simp: Let_def bind_eq_Some_conv split: if_splits)
    next
      case False
      with "1.prems" [unfolded finish_bitmap_transaction.simps [of cb s i error]] Some obtain bm1 rsp1 s2 rsp2 s3 bm3 where
        bm1: "bm_at s1 i = Some bm1" and
        sc: "signal_completion cb (tx_requests (bm_tx bm1)) (tx_error (bm_tx bm1)) s1 = Some (rsp1, s2)" and
        sn: "start_new_bitmap_transaction cb (tx_upd i (\<lambda>t. init_tx) s2) i = Some (rsp2, s3)" and
        bm3: "bm_at s3 i = Some bm3" and
        res: "s' = (if \<not> bitmap_in_use bm3 then unlock_bitmap i s3 else s3)"
        by (auto simp: Let_def bind_eq_Some_conv s1_def [symmetric])
      have "layout s3 = layout (tx_upd i (\<lambda>t. init_tx) s2)"
        using "1.IH" [OF Some s1_def False bm1 _ refl sn] sc by simp
      moreover have "layout s2 = layout s1" using sc by (rule layout_signal_completion)
      ultimately show ?thesis using res by (simp add: s1_def)
    qed
  qed
next
  case (2 cb s i)
  show ?case
  proof (cases "bm_at s i")
    case None
    with "2.prems" [unfolded start_new_bitmap_transaction.simps [of cb s i]] show ?thesis by simp
  next
    case (Some bm)
    define s1 where "s1 = bm_upd i (\<lambda>bm. bm\<lparr>bm_queue := []\<rparr>) s"
    show ?thesis
    proof (cases "bm_queue bm = []")
      case True
      with "2.prems" [unfolded start_new_bitmap_transaction.simps [of cb s i]] Some show ?thesis by simp
    next
      case False
      with "2.prems" [unfolded start_new_bitmap_transaction.simps [of cb s i]] Some obtain e where e: "bat_entry s1 (blk bm) = Some e"
        by (auto simp: Let_def bind_eq_Some_conv s1_def [symmetric])
      show ?thesis
      proof (cases "e = DD_BLK_UNUSED")
        case True
        with "2.prems" [unfolded start_new_bitmap_transaction.simps [of cb s i]] Some False e have "signal_completion cb (bm_queue bm) (- EIO) s1 = Some (rsp, s')"
          by (simp add: Let_def s1_def [symmetric])
        from layout_signal_completion [OF this] show ?thesis by (simp add: s1_def)
      next
        case ne: False
        with "2.prems" [unfolded start_new_bitmap_transaction.simps [of cb s i]] Some False e obtain completed s2 bm2 rsp1 s3 rsp2 where
          pq: "promote_queue i (bm_queue bm) [] s1 = Some (completed, s2)" and
          bm2: "bm_at s2 i = Some bm2" and
          fd: "(if transaction_completed (bm_tx bm2) then finish_data_transaction cb s2 i
                else Some (0, s2)) = Some (rsp1, s3)" and
          sc: "signal_completion cb completed 0 s3 = Some (rsp2, s')"
          by (auto simp: Let_def bind_eq_Some_conv s1_def [symmetric])
        have "layout s3 = layout s2"
        proof (cases "transaction_completed (bm_tx bm2)")
          case True
          with fd have "finish_data_transaction cb s2 i = Some (rsp1, s3)" by simp
          from "2.IH" [OF Some False s1_def e ne _ refl bm2 True this] pq show ?thesis by simp
        next
          case False
          with fd show ?thesis by simp
        qed
        moreover have "layout s2 = layout s1" using pq by (rule layout_promote_queue)
        moreover have "layout s' = layout s3" using sc by (rule layout_signal_completion)
        ultimately show ?thesis by (simp add: s1_def)
      qed
    qed
  qed
next
  case (3 cb s i)
  show ?case
  proof (cases "bm_at s i")
    case None
    with "3.prems" [unfolded finish_data_transaction.simps [of cb s i]] show ?thesis by simp
  next
    case (Some bm)
    define s1 where "s1 = tx_upd i (\<lambda>t. t\<lparr>tx_closed := 1\<rparr>) s"
    show ?thesis
    proof (cases "tx_error (bm_tx bm) = 0 \<and> ftr_type s = HD_TYPE_DIFF")
      case True
      with "3.prems" [unfolded finish_data_transaction.simps [of cb s i]] Some obtain r where "schedule_bitmap_write s1 (blk bm) = Some (r, s')"
        by (auto simp: Let_def bind_eq_Some_conv s1_def [symmetric])
      from layout_schedule_bitmap_write [OF this] show ?thesis by (simp add: s1_def)
    next
      case False
      with "3.prems" [unfolded finish_data_transaction.simps [of cb s i]] Some have "finish_bitmap_transaction cb s1 i 0 = Some (rsp, s')"
        by (auto simp: Let_def s1_def [symmetric])
      from "3.IH" [OF Some s1_def False this] show ?thesis by (simp add: s1_def)
    qed
  qed
qed


lemma layout_unlock_bat [simp]: "layout (unlock_bat s) = layout s"
  by (simp add: unlock_bat_def layout_def)

lemma layout_init_bat [simp]: "layout (init_bat s) = layout s"
  by (simp add: init_bat_def layout_def)

lemma layout_eqD:
  "layout s' = layout s \<Longrightarrow> bat_entries (bat s') = bat_entries (bat s) \<and> next_db s' = next_db s"
  by (simp add: layout_def)

subsection \<open>Padding \<^verbatim>\<open>next_db\<close>\<close>

lemma pad_least:
  fixes n B P :: nat
  assumes P: "0 < P"
  defines "v \<equiv> (if (n + B) mod P \<noteq> 0 then n + (P - (n + B) mod P) else n)"
  shows "n \<le> v \<and> (v + B) mod P = 0 \<and> (\<forall>u. n \<le> u \<and> (u + B) mod P = 0 \<longrightarrow> v \<le> u)"
proof (cases "(n + B) mod P = 0")
  case True
  then show ?thesis by (simp add: v_def)
next
  case False
  define r where "r = (n + B) mod P"
  have r: "0 < r" "r < P" using False P by (simp_all add: r_def)
  have v: "v = n + (P - r)" using False by (simp add: v_def r_def)
  have nB: "n + B = (n + B) div P * P + r" by (simp add: r_def)
  have "v + B = (n + B) div P * P + r + (P - r)" using v nB by simp
  also have "\<dots> = ((n + B) div P + 1) * P" using r by (simp add: algebra_simps)
  finally have vB: "v + B = ((n + B) div P + 1) * P" .
  then have m: "(v + B) mod P = 0" by simp
  have least: "v \<le> u" if u: "n \<le> u" "(u + B) mod P = 0" for u
  proof -
    from u(2) have "P dvd u + B" by (simp add: mod_eq_0_iff_dvd)
    then obtain k where k: "u + B = k * P" by (auto simp: dvd_def mult.commute)
    have "(n + B) div P * P + r \<le> k * P" using nB u(1) k by linarith
    then have "(n + B) div P * P < k * P" using r by linarith
    then have "(n + B) div P < k" using P by simp
    then have "((n + B) div P + 1) * P \<le> k * P" using P
      by (metis Suc_eq_plus1 Suc_leI mult_le_mono1)
    then have "v + B \<le> u + B" using vB k by simp
    then show ?thesis by simp
  qed
  show ?thesis using v m least by auto
qed

lemma unat_ucast_u32_u64: "unat (ucast (w :: u32) :: u64) = unat w"
proof -
  have "unat w < 2 ^ 32" using unsigned_less [of w] by simp
  then have "unat w < 2 ^ 64" by simp
  then show ?thesis by (simp add: unsigned_ucast_eq take_bit_nat_eq_self)
qed

lemma next_db_advance:
  fixes nd :: u64 and sb bs sp :: u32
  assumes sp: "sp \<noteq> 0"
    and no32: "unat sb + unat bs < 2 ^ 32"
    and no64: "unat nd + unat sb + unat bs + unat bs + unat sp < 2 ^ 64"
  defines "nd1 \<equiv> nd + ucast (sb + bs)"
  defines "nd2 \<equiv> (if (nd1 + ucast bs) mod ucast sp \<noteq> 0
                    then nd1 + (ucast sp - (nd1 + ucast bs) mod ucast sp) else nd1)"
  shows "unat nd2 =
      (if (unat nd + unat sb + unat bs + unat bs) mod unat sp \<noteq> 0
       then unat nd + unat sb + unat bs + (unat sp - (unat nd + unat sb + unat bs + unat bs) mod unat sp)
       else unat nd + unat sb + unat bs)"
proof -
  have P: "0 < unat sp" using sp by (simp add: unat_gt_0)
  have u32: "unat (sb + bs) = unat sb + unat bs"
    using no32 by (simp add: unat_add_lem [THEN iffD1])
  have uc: "unat (ucast (sb + bs) :: u64) = unat sb + unat bs"
    using u32 by (simp add: unat_ucast_u32_u64)
  have ucb: "unat (ucast bs :: u64) = unat bs" by (simp add: unat_ucast_u32_u64)
  have ucs: "unat (ucast sp :: u64) = unat sp" by (simp add: unat_ucast_u32_u64)
  have n1: "unat nd1 = unat nd + unat sb + unat bs"
    unfolding nd1_def using no64 uc by (simp add: unat_add_lem [THEN iffD1])
  have n1b: "unat (nd1 + ucast bs) = unat nd + unat sb + unat bs + unat bs"
    using no64 n1 ucb by (simp add: unat_add_lem [THEN iffD1])
  have r: "unat ((nd1 + ucast bs) mod ucast sp) = (unat nd + unat sb + unat bs + unat bs) mod unat sp"
    by (simp add: unat_mod n1b ucs)
  have rlt: "(unat nd + unat sb + unat bs + unat bs) mod unat sp < unat sp" using P by simp
  have rle: "(nd1 + ucast bs) mod ucast sp \<le> ucast sp"
    by (simp add: word_le_nat_alt r ucs less_imp_le [OF rlt])
  have d: "unat (ucast sp - (nd1 + ucast bs) mod ucast sp) =
      unat sp - (unat nd + unat sb + unat bs + unat bs) mod unat sp"
    using rle by (simp add: unat_sub r ucs)
  have z: "((nd1 + ucast bs) mod ucast sp = 0) = ((unat nd + unat sb + unat bs + unat bs) mod unat sp = 0)"
    using r by (metis unat_eq_0)
  show ?thesis
  proof (cases "(nd1 + ucast bs) mod ucast sp = 0")
    case True
    then show ?thesis using z n1 by (simp add: nd2_def)
  next
    case False
    have "unat (nd1 + (ucast sp - (nd1 + ucast bs) mod ucast sp)) =
        unat nd1 + unat (ucast sp - (nd1 + ucast bs) mod ucast sp)"
      using no64 n1 d by (simp add: unat_add_lem [THEN iffD1])
    then show ?thesis using False z n1 d by (simp add: nd2_def)
  qed
qed


subsection \<open>The BAT write\<close>

text \<open>
  Where the window of 128 entries that starts at \<open>blk - blk mod 128\<close> lies inside
  the in-memory BAT, the buffer of the BAT write is that window with the entry at
  \<open>blk mod 128\<close> replaced by \<^verbatim>\<open>pbw_offset\<close> (narrowed to 32 bits, as the C
  assignment does), every entry stored big-endian; one sector is queued at the
  file offset \<open>table_offset + (blk - blk mod 128) * 4\<close>, and
  \<^verbatim>\<open>VHD_FLAG_BAT_WRITE_STARTED\<close> is set.
\<close>

theorem schedule_bat_write_sector:
  assumes locked: "bat_locked s"
    and window: "unat (pbw_blk (bat s) - pbw_blk (bat s) mod 128) + 128 \<le> length (bat_entries (bat s))"
  shows "\<exists>s'. schedule_bat_write s = Some (0, s') \<and>
           bat_req_buf (bat s') =
             concat (map be32_bytes
               ((take 128 (drop (unat (pbw_blk (bat s) - pbw_blk (bat s) mod 128)) (bat_entries (bat s))))
                  [unat (pbw_blk (bat s) mod 128) := ucast (pbw_offset (bat s))])) \<and>
           length (bat_req_buf (bat s')) = 512 \<and>
           r_iocb (bat_req (bat s')) =
             Some \<lparr>io_opcode = IO_PWRITE, io_nbytes = 512,
                   io_offset = hdr_table_offset s + ucast ((pbw_blk (bat s) - pbw_blk (bat s) mod 128) * 4)\<rparr> \<and>
           iocb_queue s' = iocb_queue s @ [Bat_req] \<and>
           test_vhd_flag (bat_status (bat s')) VHD_FLAG_BAT_WRITE_STARTED \<and>
           bat_entries (bat s') = bat_entries (bat s)"
proof -
  have len: "length (concat (map be32_bytes xs)) = 4 * length xs" for xs
    by (induction xs) (simp_all add: be32_bytes_def)
  show ?thesis
    using locked window
    by (simp add: schedule_bat_write_def ASSERT_def Let_def aio_write_def test_set_same len req_upd.simps)
qed



theorem schedule_bat_write_sector_witness:
  "\<exists>s s'. block_130_reserved = Some s \<and> bat_locked s \<and> pbw_blk (bat s) = 130 \<and>
      length (bat_entries (bat s)) = 256 \<and>
      schedule_bat_write s = Some (0, s') \<and>
      r_iocb (bat_req (bat s')) =
        Some \<lparr>io_opcode = IO_PWRITE, io_nbytes = 512, io_offset = 1536 + 512\<rparr> \<and>
      take 12 (bat_req_buf (bat s')) = [255, 255, 255, 255, 255, 255, 255, 255, 0, 0, 0, 7] \<and>
      test_vhd_flag (bat_status (bat s')) VHD_FLAG_BAT_WRITE_STARTED"
proof -
  have "case block_130_reserved of
          None \<Rightarrow> False
        | Some s \<Rightarrow> bat_locked s \<and> pbw_blk (bat s) = 130 \<and> pbw_offset (bat s) = 7 \<and>
            hdr_table_offset s = 1536 \<and> bat_entries (bat s) = replicate 256 DD_BLK_UNUSED"
    by code_simp
  then obtain s where s: "block_130_reserved = Some s" and l: "bat_locked s"
    and blk: "pbw_blk (bat s) = 130" "pbw_offset (bat s) = 7" "hdr_table_offset s = 1536"
    and ent: "bat_entries (bat s) = replicate 256 DD_BLK_UNUSED"
    by (auto split: option.splits)
  have w: "unat (pbw_blk (bat s) - pbw_blk (bat s) mod 128) + 128 \<le> length (bat_entries (bat s))"
    unfolding blk ent by simp
  from schedule_bat_write_sector [OF l w] obtain s' where
    r: "schedule_bat_write s = Some (0, s')" and
    b: "bat_req_buf (bat s') =
             concat (map be32_bytes
               ((take 128 (drop (unat (pbw_blk (bat s) - pbw_blk (bat s) mod 128)) (bat_entries (bat s))))
                  [unat (pbw_blk (bat s) mod 128) := ucast (pbw_offset (bat s))]))" and
    io: "r_iocb (bat_req (bat s')) =
             Some \<lparr>io_opcode = IO_PWRITE, io_nbytes = 512,
                   io_offset = hdr_table_offset s + ucast ((pbw_blk (bat s) - pbw_blk (bat s) mod 128) * 4)\<rparr>" and
    f: "test_vhd_flag (bat_status (bat s')) VHD_FLAG_BAT_WRITE_STARTED"
    by blast
  have "take 12 (bat_req_buf (bat s')) = [255, 255, 255, 255, 255, 255, 255, 255, 0, 0, 0, 7]"
    unfolding b blk ent by code_simp
  moreover have "r_iocb (bat_req (bat s')) =
        Some \<lparr>io_opcode = IO_PWRITE, io_nbytes = 512, io_offset = 1536 + 512\<rparr>"
    unfolding io blk by simp
  ultimately show ?thesis using s l r f blk ent by auto
qed

text \<open>
  C8. The claim describes the buffer of the BAT write as the 128-entry window of
  the in-memory BAT around the pending block. \<^verbatim>\<open>schedule_bat_write\<close> copies 512
  bytes from \<^verbatim>\<open>&bat_entry(s, blk - (blk % 128))\<close> whatever the size of the array,
  which \<^verbatim>\<open>alloc_bat\<close> allocates with \<^verbatim>\<open>max_bat_size\<close> entries: whenever
  \<^verbatim>\<open>max_bat_size\<close> is not a multiple of 128, the copy for a block of the last
  window runs past the end of the BAT. On an image of 4 blocks the first
  allocation already does: the write to sector 0 is queued, and when the zeroed
  bitmap has reached the disk the BAT write copies 124 entries that are not part
  of the table.
\<close>

theorem schedule_bat_write_past_the_bat:
  "length (bat_entries (bat image_4_blocks)) = 4 \<and>
   hdr_max_bat_size image_4_blocks = 4 \<and>
   (case reserve_new_block 0 image_4_blocks of
      None \<Rightarrow> False
    | Some s \<Rightarrow>
        bat_locked s \<and> pbw_blk (bat s) = 0 \<and>
        unat (pbw_blk (bat s) - pbw_blk (bat s) mod 128) + 128 > length (bat_entries (bat s)) \<and>
        schedule_bat_write s = None) \<and>
   td_run cb_zero [Td_queue_write 0 1 7 0, Td_submit] image_4_blocks \<noteq> None \<and>
   td_run cb_zero [Td_queue_write 0 1 7 0, Td_submit, Td_do_callbacks [ev_done Zero_req]]
     image_4_blocks = None"
  by code_simp

lemma commit_pending_block_Some:
  assumes "commit_pending_block s = Some s1"
  shows "unat (pbw_blk (bat s)) < length (bat_entries (bat s))"
    and "spp s \<noteq> 0"
    and "bat_entries (bat s1) =
           (bat_entries (bat s))[unat (pbw_blk (bat s)) := ucast (pbw_offset (bat s))]"
    and "next_db s1 =
          (if (next_db s + ucast (spb s + bm_secs s) + ucast (bm_secs s)) mod ucast (spp s) \<noteq> 0
           then next_db s + ucast (spb s + bm_secs s) +
                 (ucast (spp s) - (next_db s + ucast (spb s + bm_secs s) + ucast (bm_secs s)) mod ucast (spp s))
           else next_db s + ucast (spb s + bm_secs s))"
  using assms
  by (auto simp: commit_pending_block_def Let_def bind_eq_Some_conv bat_entry_def split: if_splits)

lemma finish_bat_write_frame:
  assumes run: "finish_bat_write cb s req = Some (rsp, s')"
    and rq: "req_at s req = Some rq"
  shows "r_error rq \<noteq> 0 \<Longrightarrow> layout s' = layout s"
    and "r_error rq = 0 \<Longrightarrow> \<exists>s1. commit_pending_block s = Some s1 \<and> layout s' = layout s1"
    and "\<exists>s3. s' = init_bat (unlock_bat s3)"
  using run rq
  by (auto simp: finish_bat_write_def Let_def bind_eq_Some_conv
        dest!: layout_finish_transaction(1) split: if_splits)

text \<open>
  C4. When the BAT-write finisher runs with error 0 it stores \<^verbatim>\<open>pbw_offset\<close>
  (narrowed to 32 bits) in \<open>bat[pbw_blk]\<close> and advances \<^verbatim>\<open>next_db\<close> to the least
  \<open>v \<ge> next_db + SPB + BM\<close> with \<open>(v + BM) mod SPP = 0\<close> (as long as the sums do
  not leave 32 and 64 bits); with a nonzero error the BAT and \<^verbatim>\<open>next_db\<close> are
  unchanged; in both cases the BAT lock is released and \<^verbatim>\<open>pbw_blk\<close>,
  \<^verbatim>\<open>pbw_offset\<close> and the status are reset.
\<close>

theorem finish_bat_write_commit:
  assumes run: "finish_bat_write cb s req = Some (rsp, s')"
    and rq: "req_at s req = Some rq"
  shows "(r_error rq = 0 \<longrightarrow>
            bat_entries (bat s') =
              (bat_entries (bat s))[unat (pbw_blk (bat s)) := ucast (pbw_offset (bat s))] \<and>
            unat (pbw_blk (bat s)) < length (bat_entries (bat s)) \<and>
            (unat (spb s) + unat (bm_secs s) < 2 ^ 32 \<and>
             unat (next_db s) + unat (spb s) + unat (bm_secs s) + unat (bm_secs s) + unat (spp s) < 2 ^ 64
             \<longrightarrow> unat (next_db s) + unat (spb s) + unat (bm_secs s) \<le> unat (next_db s') \<and>
                 (unat (next_db s') + unat (bm_secs s)) mod unat (spp s) = 0 \<and>
                 (\<forall>v. unat (next_db s) + unat (spb s) + unat (bm_secs s) \<le> v \<and>
                      (v + unat (bm_secs s)) mod unat (spp s) = 0 \<longrightarrow> unat (next_db s') \<le> v))) \<and>
         (r_error rq \<noteq> 0 \<longrightarrow>
            bat_entries (bat s') = bat_entries (bat s) \<and> next_db s' = next_db s) \<and>
         \<not> bat_locked s' \<and> pbw_blk (bat s') = 0 \<and> pbw_offset (bat s') = 0 \<and>
         bat_status (bat s') = 0 \<and> r_tx (bat_req (bat s')) = None"
proof -
  from finish_bat_write_frame(3) [OF run rq] obtain s3 where s': "s' = init_bat (unlock_bat s3)" ..
  have reset: "\<not> bat_locked s' \<and> pbw_blk (bat s') = 0 \<and> pbw_offset (bat s') = 0 \<and>
         bat_status (bat s') = 0 \<and> r_tx (bat_req (bat s')) = None"
    by (simp add: s' init_bat_def bat_locked_def test_vhd_flag_def)
  have err: "bat_entries (bat s') = bat_entries (bat s) \<and> next_db s' = next_db s"
    if "r_error rq \<noteq> 0"
    using finish_bat_write_frame(1) [OF run rq that] by (simp add: layout_def)
  have ok: "bat_entries (bat s') =
              (bat_entries (bat s))[unat (pbw_blk (bat s)) := ucast (pbw_offset (bat s))] \<and>
            unat (pbw_blk (bat s)) < length (bat_entries (bat s)) \<and>
            (unat (spb s) + unat (bm_secs s) < 2 ^ 32 \<and>
             unat (next_db s) + unat (spb s) + unat (bm_secs s) + unat (bm_secs s) + unat (spp s) < 2 ^ 64
             \<longrightarrow> unat (next_db s) + unat (spb s) + unat (bm_secs s) \<le> unat (next_db s') \<and>
                 (unat (next_db s') + unat (bm_secs s)) mod unat (spp s) = 0 \<and>
                 (\<forall>v. unat (next_db s) + unat (spb s) + unat (bm_secs s) \<le> v \<and>
                      (v + unat (bm_secs s)) mod unat (spp s) = 0 \<longrightarrow> unat (next_db s') \<le> v))"
    if z: "r_error rq = 0"
  proof -
    from finish_bat_write_frame(2) [OF run rq z] obtain s1 where
      c: "commit_pending_block s = Some s1" and l: "layout s' = layout s1" by blast
    from l have fr: "bat_entries (bat s') = bat_entries (bat s1)" "next_db s' = next_db s1"
      by (simp_all add: layout_def)
    note inr = commit_pending_block_Some(1) [OF c]
      and sp = commit_pending_block_Some(2) [OF c]
      and be = commit_pending_block_Some(3) [OF c]
      and nd = commit_pending_block_Some(4) [OF c]
    have P: "0 < unat (spp s)" using sp by (simp add: unat_gt_0)
    have adv: "unat (next_db s) + unat (spb s) + unat (bm_secs s) \<le> unat (next_db s') \<and>
                 (unat (next_db s') + unat (bm_secs s)) mod unat (spp s) = 0 \<and>
                 (\<forall>v. unat (next_db s) + unat (spb s) + unat (bm_secs s) \<le> v \<and>
                      (v + unat (bm_secs s)) mod unat (spp s) = 0 \<longrightarrow> unat (next_db s') \<le> v)"
      if no: "unat (spb s) + unat (bm_secs s) < 2 ^ 32"
        "unat (next_db s) + unat (spb s) + unat (bm_secs s) + unat (bm_secs s) + unat (spp s) < 2 ^ 64"
    proof -
      have "unat (next_db s1) =
          (if (unat (next_db s) + unat (spb s) + unat (bm_secs s) + unat (bm_secs s)) mod unat (spp s) \<noteq> 0
           then unat (next_db s) + unat (spb s) + unat (bm_secs s) +
                (unat (spp s) - (unat (next_db s) + unat (spb s) + unat (bm_secs s) + unat (bm_secs s)) mod unat (spp s))
           else unat (next_db s) + unat (spb s) + unat (bm_secs s))"
        unfolding nd by (rule next_db_advance [OF sp no])
      with pad_least [OF P, of "unat (next_db s) + unat (spb s) + unat (bm_secs s)" "unat (bm_secs s)"]
      show ?thesis by (simp add: fr add.assoc)
    qed
    show ?thesis using inr be fr adv by simp
  qed
  show ?thesis using ok err reset by blast
qed



theorem finish_bat_write_commit_witness:
  "\<exists>s rsp s'. bat_write_pending = Some s \<and>
      finish_bat_write cb_zero s Bat_req = Some (rsp, s') \<and>
      r_error (bat_req (bat s)) = 0 \<and> pbw_blk (bat s) = 0 \<and> pbw_offset (bat s) = 7 \<and>
      next_db s = 7 \<and> spb s = 4096 \<and> bm_secs s = 1 \<and> spp s = 8 \<and>
      bat_entries (bat s') ! 0 = 7 \<and> unat (next_db s') = 4111 \<and> \<not> bat_locked s'"
proof -
  have "case bat_write_pending of
          None \<Rightarrow> False
        | Some s \<Rightarrow> finish_bat_write cb_zero s Bat_req \<noteq> None \<and>
            r_error (bat_req (bat s)) = 0 \<and> pbw_blk (bat s) = 0 \<and> pbw_offset (bat s) = 7 \<and>
            next_db s = 7 \<and> spb s = 4096 \<and> bm_secs s = 1 \<and> spp s = 8 \<and>
            length (bat_entries (bat s)) = 128"
    by code_simp
  then obtain s rsp s' where s: "bat_write_pending = Some s"
    and run: "finish_bat_write cb_zero s Bat_req = Some (rsp, s')"
    and vals: "r_error (bat_req (bat s)) = 0" "pbw_blk (bat s) = 0" "pbw_offset (bat s) = 7"
      "next_db s = 7" "spb s = 4096" "bm_secs s = 1" "spp s = 8"
    and len: "length (bat_entries (bat s)) = 128"
    by (auto split: option.splits)
  have rq: "req_at s Bat_req = Some (bat_req (bat s))" by simp
  note th = finish_bat_write_commit [OF run rq]
  from th vals have e: "bat_entries (bat s') = (bat_entries (bat s))[0 := 7]" by simp
  from th vals have adv: "4104 \<le> unat (next_db s') \<and> (unat (next_db s') + 1) mod 8 = 0 \<and>
      (\<forall>v. 4104 \<le> v \<and> (v + 1) mod 8 = 0 \<longrightarrow> unat (next_db s') \<le> v)"
    by simp
  then have "unat (next_db s') \<le> 4111" by simp
  with adv have "unat (next_db s') = 4111" by presburger
  moreover from th have "\<not> bat_locked s'" by simp
  moreover from e len have "bat_entries (bat s') ! 0 = 7" by simp
  ultimately show ?thesis using s run vals by auto
qed



subsection \<open>The router\<close>

lemma read_bitmap_cache_bat_locked:
  assumes "ftr_type s \<noteq> HD_TYPE_FIXED" and "spb s \<noteq> 0"
    and "\<not> ucast (sec div ucast (spb s)) > hdr_max_bat_size s"
    and "bat_entry s (ucast (sec div ucast (spb s))) = Some DD_BLK_UNUSED"
    and "bat_locked s" and "pbw_blk (bat s) \<noteq> ucast (sec div ucast (spb s))"
  shows "read_bitmap_cache s sec VHD_OP_DATA_WRITE = Some (VHD_BM_BAT_LOCKED, s)"
  using assms by (simp add: read_bitmap_cache_def Let_def)

lemma read_bitmap_cache_read_not_locked:
  "read_bitmap_cache s sector VHD_OP_DATA_READ \<noteq> Some (VHD_BM_BAT_LOCKED, s')"
  by (auto simp: read_bitmap_cache_def Let_def bind_eq_Some_conv split: if_splits option.splits)

text \<open>
  C7. A write whose current sector lies in a block with an unused BAT entry while
  the BAT is locked for another block gets exactly one callback, with
  \<^verbatim>\<open>-EBUSY\<close> for the whole remaining range, and the call returns at once with
  what the callback returned, leaving the state as it was; and no read is ever
  classified \<^verbatim>\<open>VHD_BM_BAT_LOCKED\<close>.
\<close>

theorem vhd_queue_write_bat_locked:
  assumes type: "ftr_type s \<noteq> HD_TYPE_FIXED" and spb: "spb s \<noteq> 0"
    and more: "sec < end'"
    and range: "\<not> ucast (sec div ucast (spb s)) > hdr_max_bat_size s"
    and unused: "bat_entry s (ucast (sec div ucast (spb s))) = Some DD_BLK_UNUSED"
    and locked: "bat_locked s"
    and other: "pbw_blk (bat s) \<noteq> ucast (sec div ucast (spb s))"
  shows "vhd_queue_write_loop cb ident private end' s sec =
           Some (int32 (cb (length (callbacks s))
                   \<lparr>cb_error = - EBUSY, cb_sector = sec,
                    cb_nr_secs = sint (ucast (end' - sec) :: u32), cb_id = ident,
                    cb_private = private\<rparr>),
                 s\<lparr>callbacks := callbacks s @
                    [(\<lparr>cb_error = - EBUSY, cb_sector = sec,
                       cb_nr_secs = sint (ucast (end' - sec) :: u32), cb_id = ident,
                       cb_private = private\<rparr>,
                      int32 (cb (length (callbacks s))
                        \<lparr>cb_error = - EBUSY, cb_sector = sec,
                         cb_nr_secs = sint (ucast (end' - sec) :: u32), cb_id = ident,
                         cb_private = private\<rparr>))]\<rparr>) \<and>
         (\<forall>t sector t'. read_bitmap_cache t sector VHD_OP_DATA_READ \<noteq> Some (VHD_BM_BAT_LOCKED, t'))"
proof -
  have c: "read_bitmap_cache s sec VHD_OP_DATA_WRITE = Some (VHD_BM_BAT_LOCKED, s)"
    using type spb range unused locked other by (rule read_bitmap_cache_bat_locked)
  have w: "vhd_queue_write_loop cb ident private end' s sec =
           Some (int32 (cb (length (callbacks s))
                   \<lparr>cb_error = - EBUSY, cb_sector = sec,
                    cb_nr_secs = sint (ucast (end' - sec) :: u32), cb_id = ident,
                    cb_private = private\<rparr>),
                 s\<lparr>callbacks := callbacks s @
                    [(\<lparr>cb_error = - EBUSY, cb_sector = sec,
                       cb_nr_secs = sint (ucast (end' - sec) :: u32), cb_id = ident,
                       cb_private = private\<rparr>,
                      int32 (cb (length (callbacks s))
                        \<lparr>cb_error = - EBUSY, cb_sector = sec,
                         cb_nr_secs = sint (ucast (end' - sec) :: u32), cb_id = ident,
                         cb_private = private\<rparr>))]\<rparr>)"
    by (subst vhd_queue_write_loop.simps)
      (simp add: more vhd_queue_write_body_def c invoke_cb_def Let_def)
  have r: "\<forall>t sector t'. read_bitmap_cache t sector VHD_OP_DATA_READ \<noteq> Some (VHD_BM_BAT_LOCKED, t')"
    by (intro allI read_bitmap_cache_read_not_locked)
  from w r show ?thesis by (rule conjI)
qed

theorem vhd_queue_write_bat_locked_witness:
  "\<exists>s. block_0_pending = Some s \<and> ftr_type s = HD_TYPE_DYNAMIC \<and> spb s = 4096 \<and>
      hdr_max_bat_size s = 128 \<and> bat_entry s 1 = Some DD_BLK_UNUSED \<and> bat_locked s \<and>
      pbw_blk (bat s) = 0 \<and> callbacks s = [] \<and>
      vhd_queue_write cb_zero s 4096 8 9 0 =
        Some (0, s\<lparr>callbacks :=
                  [(\<lparr>cb_error = - 16, cb_sector = 4096, cb_nr_secs = 8, cb_id = 9,
                     cb_private = 0\<rparr>, 0)]\<rparr>)"
proof -
  have "case block_0_pending of
          None \<Rightarrow> False
        | Some s \<Rightarrow> ftr_type s = HD_TYPE_DYNAMIC \<and> spb s = 4096 \<and> hdr_max_bat_size s = 128 \<and>
            bat_entry s 1 = Some DD_BLK_UNUSED \<and> bat_locked s \<and> pbw_blk (bat s) = 0 \<and>
            callbacks s = []"
    by code_simp
  then obtain s where s: "block_0_pending = Some s"
    and v: "ftr_type s = HD_TYPE_DYNAMIC" "spb s = 4096" "hdr_max_bat_size s = 128"
      "bat_entry s 1 = Some DD_BLK_UNUSED" "bat_locked s" "pbw_blk (bat s) = 0" "callbacks s = []"
    by (auto split: option.splits)
  have b: "(ucast ((4096 :: u64) div ucast (spb s)) :: u32) = 1" by (simp add: v)
  have "vhd_queue_write_loop cb_zero 9 0 (4096 + word_of_int 8) s 4096 =
      Some (int32 (cb_zero (length (callbacks s))
                   \<lparr>cb_error = - EBUSY, cb_sector = 4096,
                    cb_nr_secs = sint (ucast ((4096 + word_of_int 8 :: u64) - 4096) :: u32), cb_id = 9,
                    cb_private = 0\<rparr>),
                 s\<lparr>callbacks := callbacks s @
                    [(\<lparr>cb_error = - EBUSY, cb_sector = 4096,
                       cb_nr_secs = sint (ucast ((4096 + word_of_int 8 :: u64) - 4096) :: u32), cb_id = 9,
                       cb_private = 0\<rparr>,
                      int32 (cb_zero (length (callbacks s))
                        \<lparr>cb_error = - EBUSY, cb_sector = 4096,
                         cb_nr_secs = sint (ucast ((4096 + word_of_int 8 :: u64) - 4096) :: u32), cb_id = 9,
                         cb_private = 0\<rparr>))]\<rparr>)"
    by (rule vhd_queue_write_bat_locked [THEN conjunct1]) (simp_all add: v b)
  then have "vhd_queue_write cb_zero s 4096 8 9 0 =
        Some (0, s\<lparr>callbacks :=
                  [(\<lparr>cb_error = - 16, cb_sector = 4096, cb_nr_secs = 8, cb_id = 9,
                     cb_private = 0\<rparr>, 0)]\<rparr>)"
    by (simp add: vhd_queue_write_def v cb_zero_def)
  then show ?thesis using s v by auto
qed

text \<open>
  C5. The claim asks that a sector whose block index is \<open>\<ge> max_bat_size\<close> is
  answered with \<^verbatim>\<open>-EINVAL\<close> without touching the BAT. The range check of
  \<^verbatim>\<open>read_bitmap_cache\<close> is \<^verbatim>\<open>blk > s->hdr.max_bat_size\<close>: on an image with 128
  BAT entries the first sector of block 128 passes it and the BAT is read at
  index 128, one past the array, for reads and writes alike; block 129 is
  rejected as the claim says.
\<close>

theorem read_bitmap_cache_at_max_bat_size:
  "hdr_max_bat_size (image HD_TYPE_DYNAMIC) = 128 \<and>
   length (bat_entries (bat (image HD_TYPE_DYNAMIC))) = 128 \<and>
   spb (image HD_TYPE_DYNAMIC) = 4096 \<and>
   bat_entry (image HD_TYPE_DYNAMIC) 128 = None \<and>
   read_bitmap_cache (image HD_TYPE_DYNAMIC) (128 * 4096) VHD_OP_DATA_READ = None \<and>
   read_bitmap_cache (image HD_TYPE_DYNAMIC) (128 * 4096) VHD_OP_DATA_WRITE = None \<and>
   vhd_queue_read cb_zero (image HD_TYPE_DYNAMIC) (128 * 4096) 1 1 0 = None \<and>
   vhd_queue_write cb_zero (image HD_TYPE_DYNAMIC) (128 * 4096) 1 1 0 = None \<and>
   read_bitmap_cache (image HD_TYPE_DYNAMIC) (129 * 4096) VHD_OP_DATA_READ =
     Some (- EINVAL, image HD_TYPE_DYNAMIC)"
  by code_simp

subsection \<open>Promotion of queued writes\<close>

lemma signal_completion_all:
  assumes "distinct l" and "\<forall>r\<in>set l. \<exists>k. r = Vreq k \<and> k < length (vreq_list s)"
  shows "\<exists>rsp s' new. signal_completion cb l e s = Some (rsp, s') \<and>
           callbacks s' = callbacks s @ new \<and>
           map fst new = map (\<lambda>r. completion_call e (the (req_at s r))) l \<and>
           rsp = int32 (sum_list (map snd new)) \<and>
           bitmap_list s' = bitmap_list s \<and> bat s' = bat s \<and> iocb_queue s' = iocb_queue s \<and>
           layout s' = layout s \<and>
           length (vreq_list s') = length (vreq_list s) \<and>
           vreq_free s' = vreq_free s @ map (\<lambda>r. case r of Vreq k \<Rightarrow> k | _ \<Rightarrow> 0) l"
  using assms
proof (induction l arbitrary: s)
  case Nil
  then show ?case by simp
next
  case (Cons r rest)
  from Cons.prems obtain k where r: "r = Vreq k" and k: "k < length (vreq_list s)" by auto
  define c where "c = completion_call e (vreq_list s ! k)"
  define s1 where "s1 = s\<lparr>callbacks := callbacks s @ [(c, int32 (cb (length (callbacks s)) c))]\<rparr>"
  define s2 where "s2 = free_vhd_request k s1"
  have inv: "invoke_cb cb (if e \<noteq> 0 then e else r_error (vreq_list s ! k)) (r_lsec (vreq_list s ! k))
      (r_nr_secs (vreq_list s ! k)) (r_id (vreq_list s ! k)) (r_private (vreq_list s ! k)) s
      = (int32 (cb (length (callbacks s)) c), s1)"
    by (simp add: invoke_cb_def Let_def c_def s1_def completion_call_def)
  have len2: "length (vreq_list s2) = length (vreq_list s)"
    by (simp add: s2_def s1_def free_vhd_request_def req_upd.simps)
  have d: "distinct rest" and nk: "Vreq k \<notin> set rest" using Cons.prems r by auto
  have p2: "\<forall>r\<in>set rest. \<exists>k. r = Vreq k \<and> k < length (vreq_list s2)"
    using Cons.prems len2 by auto
  from Cons.IH [OF d p2] obtain rsp s' new where
    sc: "signal_completion cb rest e s2 = Some (rsp, s')" and
    cbs: "callbacks s' = callbacks s2 @ new" and
    args: "map fst new = map (\<lambda>r. completion_call e (the (req_at s2 r))) rest" and
    rsp: "rsp = int32 (sum_list (map snd new))" and
    fr: "bitmap_list s' = bitmap_list s2" "bat s' = bat s2" "iocb_queue s' = iocb_queue s2"
      "layout s' = layout s2"
      "length (vreq_list s') = length (vreq_list s2)"
      "vreq_free s' = vreq_free s2 @ map (\<lambda>r. case r of Vreq k \<Rightarrow> k | _ \<Rightarrow> 0) rest"
    by blast
  have same: "req_at s2 q = req_at s q" if "q \<in> set rest" for q
  proof -
    from that Cons.prems obtain j where q: "q = Vreq j" "j < length (vreq_list s)" by auto
    with that nk have "j \<noteq> k" by auto
    then show ?thesis using q
      by (simp add: s2_def s1_def free_vhd_request_def req_upd.simps)
  qed
  have args': "map fst new = map (\<lambda>r. completion_call e (the (req_at s r))) rest"
    unfolding args using same by (simp cong: map_cong)
  have run: "signal_completion cb (r # rest) e s = Some (int32 (int32 (cb (length (callbacks s)) c) + rsp), s')"
    using k inv sc by (simp add: r s2_def Let_def)
  have c2: "callbacks s2 = callbacks s @ [(c, int32 (cb (length (callbacks s)) c))]"
    by (simp add: s2_def s1_def free_vhd_request_def req_upd.simps)
  have fr2: "bitmap_list s2 = bitmap_list s" "bat s2 = bat s" "iocb_queue s2 = iocb_queue s"
    "layout s2 = layout s" "vreq_free s2 = vreq_free s @ [k]"
    by (simp_all add: s2_def s1_def free_vhd_request_def req_upd.simps layout_def)
  show ?case
    apply (rule exI [of _ "int32 (int32 (cb (length (callbacks s)) c) + rsp)"])
    apply (rule exI [of _ s'])
    apply (rule exI [of _ "(c, int32 (cb (length (callbacks s)) c)) # new"])
    using run cbs c2 args' rsp fr fr2 len2 k by (simp add: r c_def)
qed

text \<open>
  C10. When \<^verbatim>\<open>start_new_bitmap_transaction\<close> finds writes queued on a bitmap
  whose block has no BAT entry (\<^verbatim>\<open>DD_BLK_UNUSED\<close>: the write of the BAT that
  allocated it has failed), it starts no transaction: every queued request is
  reported to the host with \<^verbatim>\<open>-EIO\<close>, in queue order, and returned to the pool;
  the queue is left empty, the BAT and \<^verbatim>\<open>next_db\<close> are unchanged and nothing is
  added to the I/O queue. The value returned is the sum, in \<^verbatim>\<open>int\<close>, of what the
  callbacks returned.
\<close>

theorem start_new_bitmap_transaction_unallocated:
  assumes bm: "bm_at s i = Some bm"
    and queued: "bm_queue bm \<noteq> []"
    and unused: "bat_entry s (blk bm) = Some DD_BLK_UNUSED"
    and pool: "\<forall>r\<in>set (bm_queue bm). \<exists>k. r = Vreq k \<and> k < length (vreq_list s)"
    and dist: "distinct (bm_queue bm)"
  shows "\<exists>rsp s' new. start_new_bitmap_transaction cb s i = Some (rsp, s') \<and>
           callbacks s' = callbacks s @ new \<and>
           map fst new = map (\<lambda>r. completion_call (- EIO) (the (req_at s r))) (bm_queue bm) \<and>
           list_all (\<lambda>c. cb_error (fst c) = - EIO) new \<and>
           rsp = int32 (sum_list (map snd new)) \<and>
           bm_at s' i = Some (bm\<lparr>bm_queue := []\<rparr>) \<and>
           bat s' = bat s \<and> next_db s' = next_db s \<and> iocb_queue s' = iocb_queue s \<and>
           vreq_free s' = vreq_free s @ map (\<lambda>r. case r of Vreq k \<Rightarrow> k | _ \<Rightarrow> 0) (bm_queue bm)"
proof -
  define s1 where "s1 = bm_upd i (\<lambda>bm. bm\<lparr>bm_queue := []\<rparr>) s"
  have e1: "bat_entry s1 (blk bm) = Some DD_BLK_UNUSED"
    using unused by (simp add: s1_def bat_entry_def bm_upd_def split: if_splits)
  have pool1: "\<forall>r\<in>set (bm_queue bm). \<exists>k. r = Vreq k \<and> k < length (vreq_list s1)"
    using pool by (simp add: s1_def bm_upd_def)
  from signal_completion_all [OF dist pool1, of cb "- EIO"] obtain rsp s' new where
    sc: "signal_completion cb (bm_queue bm) (- EIO) s1 = Some (rsp, s')" and
    cbs: "callbacks s' = callbacks s1 @ new" and
    args: "map fst new = map (\<lambda>r. completion_call (- EIO) (the (req_at s1 r))) (bm_queue bm)" and
    rsp: "rsp = int32 (sum_list (map snd new))" and
    fr: "bitmap_list s' = bitmap_list s1" "bat s' = bat s1" "iocb_queue s' = iocb_queue s1"
      "layout s' = layout s1"
      "vreq_free s' = vreq_free s1 @ map (\<lambda>r. case r of Vreq k \<Rightarrow> k | _ \<Rightarrow> 0) (bm_queue bm)"
    by blast
  have run: "start_new_bitmap_transaction cb s i = Some (rsp, s')"
    using bm queued e1 sc
    by (subst start_new_bitmap_transaction.simps) (simp add: Let_def s1_def [symmetric])
  have same: "req_at s1 q = req_at s q" if "q \<in> set (bm_queue bm)" for q
    using that pool by (auto simp: s1_def bm_upd_def)
  have args': "map fst new = map (\<lambda>r. completion_call (- EIO) (the (req_at s r))) (bm_queue bm)"
    unfolding args using same by (simp cong: map_cong)
  have err: "list_all (\<lambda>c. cb_error (fst c) = - EIO) new"
  proof -
    have "list_all (\<lambda>c. cb_error c = - EIO) (map fst new)"
      unfolding args by (simp add: list_all_iff completion_call_def)
    then show ?thesis by (simp add: list_all_iff)
  qed
  have bm': "bm_at s' i = Some (bm\<lparr>bm_queue := []\<rparr>)"
    using bm fr(1) by (simp add: bm_at_def s1_def bm_upd_def split: if_splits)
  have "next_db s' = next_db s" using fr(4) by (simp add: layout_def s1_def bm_upd_def)
  then show ?thesis
    using run cbs args' err rsp bm' fr by (simp add: s1_def bm_upd_def)
qed

theorem start_new_bitmap_transaction_unallocated_witness:
  "\<exists>s bm rsp s'. write_queued_behind_allocation = Some s \<and> bm_at s 31 = Some bm \<and>
      bm_queue bm = [Vreq 2] \<and> blk bm = 0 \<and> bat_entry s 0 = Some DD_BLK_UNUSED \<and>
      length (vreq_list s) = 4 \<and>
      start_new_bitmap_transaction cb_zero s 31 = Some (rsp, s') \<and>
      map fst (callbacks s') =
        [\<lparr>cb_error = - EIO, cb_sector = 1, cb_nr_secs = 1, cb_id = 2, cb_private = 0\<rparr>] \<and>
      bm_at s' 31 = Some (bm\<lparr>bm_queue := []\<rparr>) \<and> bat s' = bat s \<and>
      map (\<lambda>c. (cb_error (fst c), cb_id (fst c)))
        (callbacks (the (td_run cb_zero [Td_do_callbacks [ev_failed Bat_req]] s))) =
        [(- EIO, 1), (- EIO, 2)]"
proof -
  have "case write_queued_behind_allocation of
          None \<Rightarrow> False
        | Some s \<Rightarrow> map_option (\<lambda>bm. (bm_queue bm, blk bm)) (bm_at s 31) = Some ([Vreq 2], 0) \<and>
            bat_entry s 0 = Some DD_BLK_UNUSED \<and> length (vreq_list s) = 4 \<and>
            callbacks s = [] \<and>
            map_option (\<lambda>r. (r_lsec r, r_nr_secs r, r_id r, r_private r)) (req_at s (Vreq 2)) =
              Some (1, 1, 2, 0) \<and>
            map (\<lambda>c. (cb_error (fst c), cb_id (fst c)))
              (callbacks (the (td_run cb_zero [Td_do_callbacks [ev_failed Bat_req]] s))) =
              [(- EIO, 1), (- EIO, 2)]"
    by code_simp
  then obtain s bm r where s: "write_queued_behind_allocation = Some s"
    and bm: "bm_at s 31 = Some bm" and q: "bm_queue bm = [Vreq 2]" and b: "blk bm = 0"
    and e: "bat_entry s 0 = Some DD_BLK_UNUSED" and len: "length (vreq_list s) = 4"
    and c0: "callbacks s = []"
    and r: "req_at s (Vreq 2) = Some r" "r_lsec r = 1" "r_nr_secs r = 1" "r_id r = 2"
      "r_private r = 0"
    and after: "map (\<lambda>c. (cb_error (fst c), cb_id (fst c)))
              (callbacks (the (td_run cb_zero [Td_do_callbacks [ev_failed Bat_req]] s))) =
              [(- EIO, 1), (- EIO, 2)]"
    by (auto split: option.splits)
  have queued: "bm_queue bm \<noteq> []" by (simp add: q)
  have unused: "bat_entry s (blk bm) = Some DD_BLK_UNUSED" by (simp add: b e)
  have pool: "\<forall>r\<in>set (bm_queue bm). \<exists>k. r = Vreq k \<and> k < length (vreq_list s)"
    by (simp add: q len)
  have dist: "distinct (bm_queue bm)" by (simp add: q)
  from start_new_bitmap_transaction_unallocated [OF bm queued unused pool dist, of cb_zero]
  obtain rsp s' new where
    run: "start_new_bitmap_transaction cb_zero s 31 = Some (rsp, s')" and
    cbs: "callbacks s' = callbacks s @ new" and
    args: "map fst new = map (\<lambda>r. completion_call (- EIO) (the (req_at s r))) (bm_queue bm)" and
    fr: "bm_at s' 31 = Some (bm\<lparr>bm_queue := []\<rparr>)" "bat s' = bat s"
    by blast
  have "map fst (callbacks s') =
        [\<lparr>cb_error = - EIO, cb_sector = 1, cb_nr_secs = 1, cb_id = 2, cb_private = 0\<rparr>]"
    using cbs args c0 q r by (simp add: completion_call_def)
  then show ?thesis using s bm q b e len run fr after by auto
qed

subsection \<open>The value returned by the router\<close>

text \<open>
  Nothing the router calls reports to the host: the schedulers leave the trace
  of callbacks alone, and their error codes are never positive.
\<close>

lemma callbacks_bm_upd [simp]: "callbacks (bm_upd i f s) = callbacks s"
  by (simp add: bm_upd_def)

lemma callbacks_tx_upd [simp]: "callbacks (tx_upd i f s) = callbacks s"
  by (simp add: tx_upd_def)

lemma callbacks_req_upd [simp]: "callbacks (req_upd r f s) = callbacks s"
  by (cases r) (simp_all add: req_upd.simps)

lemma callbacks_lock_bitmap [simp]: "callbacks (lock_bitmap i s) = callbacks s"
  by (simp add: lock_bitmap_def)

lemma callbacks_aio_read [simp]: "callbacks (aio_read r off s) = callbacks s"
  by (simp add: aio_read_def)

lemma callbacks_aio_write [simp]: "callbacks (aio_write r off s) = callbacks s"
  by (simp add: aio_write_def)

lemma callbacks_lru_halve_step [simp]: "callbacks (lru_halve_step slot s) = callbacks s"
  by (cases slot) (simp_all add: lru_halve_step_def Let_def)

lemma callbacks_fold_lru_halve [simp]: "callbacks (fold lru_halve_step slots s) = callbacks s"
  by (induction slots arbitrary: s) simp_all

lemma callbacks_touch_bitmap [simp]: "callbacks (touch_bitmap i s) = callbacks s"
  by (simp add: touch_bitmap_def bitmap_lru_seqno_def Let_def)

lemma callbacks_init_vhd_bitmap [simp]: "callbacks (init_vhd_bitmap i s) = callbacks s"
  by (simp add: init_vhd_bitmap_def)

lemma callbacks_lock_bat [simp]: "callbacks (lock_bat s) = callbacks s"
  by (simp add: lock_bat_def)

lemma callbacks_alloc_vhd_request:
  "alloc_vhd_request s = Some (ro, s') \<Longrightarrow> callbacks s' = callbacks s"
  by (auto simp: alloc_vhd_request_def Let_def bind_eq_Some_conv split: if_splits)

lemma callbacks_remove_lru_bitmap:
  "remove_lru_bitmap s = Some (bo, s') \<Longrightarrow> callbacks s' = callbacks s"
  by (auto simp: remove_lru_bitmap_def bind_eq_Some_conv split: prod.splits option.splits)

lemma callbacks_alloc_vhd_bitmap:
  "alloc_vhd_bitmap s b = Some (err, bmo, s') \<Longrightarrow> callbacks s' = callbacks s \<and> err \<le> 0"
  by (auto simp: alloc_vhd_bitmap_def bind_eq_Some_conv
        dest!: callbacks_remove_lru_bitmap split: if_splits option.splits)

lemma callbacks_install_bitmap:
  "install_bitmap i s = Some s' \<Longrightarrow> callbacks s' = callbacks s"
  by (auto simp: install_bitmap_def ASSERT_def Let_def split: option.splits)

lemma callbacks_add_to_transaction:
  "add_to_transaction i r s = Some s' \<Longrightarrow> callbacks s' = callbacks s"
  by (auto simp: add_to_transaction_def Let_def bind_eq_Some_conv)

lemma callbacks_reserve_new_block:
  "reserve_new_block b s = Some s' \<Longrightarrow> callbacks s' = callbacks s"
  by (auto simp: reserve_new_block_def bind_eq_Some_conv)

lemma callbacks_schedule_zero_bm_write:
  "schedule_zero_bm_write i s = Some s' \<Longrightarrow> callbacks s' = callbacks s"
  by (auto simp: schedule_zero_bm_write_def Let_def bind_eq_Some_conv
        dest!: callbacks_add_to_transaction)

lemma callbacks_update_bat:
  assumes u: "update_bat s b = Some (err, s')"
  shows "callbacks s' = callbacks s \<and> err \<le> 0"
proof (cases "bat_locked s")
  case True
  with u show ?thesis by (auto simp: update_bat_def bind_eq_Some_conv)
next
  case False
  show ?thesis
  proof (cases "get_bitmap s b")
    case (Some i)
    with u False obtain s2 s3 where
      r: "reserve_new_block b s = Some s2" and z: "schedule_zero_bm_write i s2 = Some s3" and
      res: "s' = tx_upd i (\<lambda>t. t\<lparr>tx_status := set_vhd_flag (tx_status t) VHD_FLAG_TX_UPDATE_BAT\<rparr>) s3"
        "err = 0"
      by (auto simp: update_bat_def bind_eq_Some_conv)
    from callbacks_reserve_new_block [OF r] callbacks_schedule_zero_bm_write [OF z] res
    show ?thesis by simp
  next
    case None
    with u False obtain e1 bmo s1 where a: "alloc_vhd_bitmap s b = Some (e1, bmo, s1)"
      by (auto simp: update_bat_def bind_eq_Some_conv)
    note fa = callbacks_alloc_vhd_bitmap [OF a]
    show ?thesis
    proof (cases "e1 = 0")
      case False
      with u \<open>\<not> bat_locked s\<close> None a have "err = e1" "s' = s1"
        by (auto simp: update_bat_def bind_eq_Some_conv)
      with fa show ?thesis by simp
    next
      case True
      with u \<open>\<not> bat_locked s\<close> None a obtain i s2 s3 s4 where
        i: "install_bitmap i s1 = Some s2" and
        r: "reserve_new_block b s2 = Some s3" and z: "schedule_zero_bm_write i s3 = Some s4" and
        res: "s' = tx_upd i (\<lambda>t. t\<lparr>tx_status := set_vhd_flag (tx_status t) VHD_FLAG_TX_UPDATE_BAT\<rparr>) s4"
          "err = 0"
        by (auto simp: update_bat_def bind_eq_Some_conv)
      from callbacks_install_bitmap [OF i] callbacks_reserve_new_block [OF r]
        callbacks_schedule_zero_bm_write [OF z] res fa
      show ?thesis by simp
    qed
  qed
qed

lemma callbacks_schedule_data_write:
  assumes w: "schedule_data_write s sec n fl ident private = Some (err, s')"
  shows "callbacks s' = callbacks s \<and> err \<le> 0"
proof -
  from w obtain e0 b off s0 where
    pre: "(if ftr_type s = HD_TYPE_FIXED then Some (0, 0, push_bit VHD_SECTOR_SHIFT sec, s)
        else if spb s = 0 then None
        else do {
          let b = (ucast (sec div ucast (spb s)) :: u32);
          let sec' = (ucast (sec mod ucast (spb s)) :: u32);
          e \<leftarrow> bat_entry s b;
          (err, offset, s0) \<leftarrow>
            (if test_vhd_flag fl VHD_FLAG_REQ_UPDATE_BAT then do {
               (err, s0) \<leftarrow> update_bat s b;
               Some (err, pbw_offset (bat s0), s0)
             } else Some (0, ucast e, s));
          Some (err, b, push_bit VHD_SECTOR_SHIFT (offset + ucast (bm_secs s + sec')), s0)
        }) = Some (e0, b, off, s0)" and
    post: "(if e0 \<noteq> 0 then Some (e0, s0)
     else do {
       (ro, s1) \<leftarrow> alloc_vhd_request s0;
       case ro of
         None \<Rightarrow> Some (- ENOMEM, s1)
       | Some k \<Rightarrow> do {
           let s2 = req_upd (Vreq k) (\<lambda>r. r\<lparr>r_lsec := sec, r_nr_secs := n,
                      r_flags := fl, r_id := ident, r_private := private,
                      r_op := VHD_OP_DATA_WRITE\<rparr>) s1;
           s3 \<leftarrow>
             (if test_vhd_flag fl VHD_FLAG_REQ_UPDATE_BITMAP then do {
                i \<leftarrow> get_bitmap s2 b;
                bm \<leftarrow> bm_at s2 i;
                _ \<leftarrow> ASSERT (bitmap_valid bm);
                let s' = lock_bitmap i s2;
                if tx_closed (bm_tx bm) \<noteq> 0 then
                  Some (req_upd (Vreq k)
                          (\<lambda>r. r\<lparr>r_flags := set_vhd_flag (r_flags r) VHD_FLAG_REQ_QUEUED\<rparr>)
                          (bm_upd i (\<lambda>bm. bm\<lparr>bm_queue := add_to_tail (bm_queue bm) (Vreq k)\<rparr>) s'))
                else add_to_transaction i (Vreq k) s'
              } else Some s2);
           Some (0, aio_write (Vreq k) off s3)
         }
     }) = Some (err, s')"
    unfolding schedule_data_write_def by (simp add: bind_eq_Some_conv) blast
  have p: "callbacks s0 = callbacks s \<and> e0 \<le> 0"
    using pre
    by (auto simp: Let_def bind_eq_Some_conv dest!: callbacks_update_bat split: if_splits)
  have q: "callbacks s' = callbacks s0 \<and> err \<le> 0"
  proof (cases "e0 = 0")
    case False
    with post p show ?thesis by simp
  next
    case True
    with post obtain ro s1 where a: "alloc_vhd_request s0 = Some (ro, s1)"
      by (auto simp: bind_eq_Some_conv)
    note fa = callbacks_alloc_vhd_request [OF a]
    show ?thesis
    proof (cases ro)
      case None
      with post True a fa show ?thesis by (auto simp: bind_eq_Some_conv)
    next
      case (Some k)
      with post True a fa show ?thesis
        by (auto simp: Let_def bind_eq_Some_conv dest!: callbacks_add_to_transaction
              split: if_splits)
    qed
  qed
  from p q show ?thesis by simp
qed

lemma callbacks_schedule_data_read:
  "schedule_data_read s sec n fl ident private = Some (err, s') \<Longrightarrow>
     callbacks s' = callbacks s \<and> err \<le> 0"
  by (auto simp: schedule_data_read_def Let_def bind_eq_Some_conv
        dest!: callbacks_alloc_vhd_request split: option.splits)

lemma callbacks_schedule_bitmap_read:
  "schedule_bitmap_read s b = Some (err, s') \<Longrightarrow> callbacks s' = callbacks s \<and> err \<le> 0"
  by (auto simp: schedule_bitmap_read_def Let_def bind_eq_Some_conv
        dest!: callbacks_alloc_vhd_bitmap callbacks_install_bitmap
        split: if_splits)

lemma callbacks_vhd_queue_request:
  "vhd_queue_request s opc sec n ident private = Some (err, s') \<Longrightarrow>
     callbacks s' = callbacks s \<and> err \<le> 0"
  by (auto simp: vhd_queue_request_def Let_def bind_eq_Some_conv
        dest!: callbacks_alloc_vhd_request split: option.splits)

lemma callbacks_read_bitmap_cache:
  "read_bitmap_cache s sec opc = Some (c, s') \<Longrightarrow> callbacks s' = callbacks s"
  by (auto simp: read_bitmap_cache_def Let_def bind_eq_Some_conv
        split: if_splits option.splits)

lemma callbacks_update_eqD:
  "s1\<lparr>callbacks := c1\<rparr> = s2\<lparr>callbacks := c2\<rparr> \<Longrightarrow> c1 = c2"
  by (drule arg_cong [where f = callbacks]) simp

lemma vhd_queue_read_body_callbacks:
  assumes "vhd_queue_read_body cb ident private s sec remaining rsp = Some st"
    and "int32 rsp = rsp"
  shows "case st of
      Return r s' \<Rightarrow> \<exists>new. callbacks s' = callbacks s @ new \<and> new \<noteq> [] \<and>
         cb_error (fst (last new)) < 0 \<and> r = snd (last new)
    | Continue n rsp' s' \<Rightarrow> \<exists>new. callbacks s' = callbacks s @ new \<and>
         list_all (\<lambda>c. cb_error (fst c) = BLK_NOT_ALLOCATED) new \<and>
         rsp' = int32 (rsp + sum_list (map snd new))"
  using assms
  by (auto simp: vhd_queue_read_body_def bind_eq_Some_conv Let_def invoke_cb_def
        dest!: callbacks_read_bitmap_cache callbacks_schedule_data_read
          callbacks_schedule_bitmap_read callbacks_vhd_queue_request callbacks_update_eqD
        split: if_splits)

lemma vhd_queue_write_body_callbacks:
  assumes "vhd_queue_write_body cb ident private s sec remaining = Some st"
  shows "case st of
      Return r s' \<Rightarrow> \<exists>new. callbacks s' = callbacks s @ new \<and> new \<noteq> [] \<and>
         cb_error (fst (last new)) < 0 \<and> r = snd (last new)
    | Continue n rsp' s' \<Rightarrow> callbacks s' = callbacks s"
  using assms
  by (auto simp: vhd_queue_write_body_def bind_eq_Some_conv Let_def invoke_cb_def
        dest!: callbacks_read_bitmap_cache callbacks_schedule_data_write
          callbacks_schedule_bitmap_read callbacks_vhd_queue_request callbacks_update_eqD
        split: if_splits)

lemma vhd_queue_write_loop_callbacks:
  assumes run: "vhd_queue_write_loop cb ident private end' s sec = Some res"
  shows "\<exists>new. callbacks (snd res) = callbacks s @ new \<and>
           (new = [] \<and> fst res = 0 \<or>
            new \<noteq> [] \<and> cb_error (fst (last new)) < 0 \<and> fst res = snd (last new))"
proof (rule vhd_queue_write_loop.raw_induct
    [where P = "\<lambda>cb ident private end' s sec res.
           \<exists>new. callbacks (snd res) = callbacks s @ new \<and>
           (new = [] \<and> fst res = 0 \<or>
            new \<noteq> [] \<and> cb_error (fst (last new)) < 0 \<and> fst res = snd (last new))",
     OF _ run], goal_cases)
  case (1 loop cb ident priv end' s sec res)
  note IH = 1(1) and eq = 1(2)
  show ?case
  proof (cases "sec < end'")
    case False
    with eq have "res = (0, s)" by simp
    then show ?thesis by simp
  next
    case True
    with eq obtain st where
      body: "vhd_queue_write_body cb ident priv s sec (sint (ucast (end' - sec) :: u32))
               = Some st" and
      k: "(case st of Return r s' \<Rightarrow> Some (r, s')
           | Continue n rsp' s' \<Rightarrow> loop cb ident priv end' s' (sec + word_of_int n))
          = Some res"
      by (simp add: bind_eq_Some_conv) blast
    note b = vhd_queue_write_body_callbacks [OF body]
    show ?thesis
    proof (cases st)
      case (Return r s')
      with k have res: "res = (r, s')" by simp
      from b Return obtain new where
        "callbacks s' = callbacks s @ new \<and> new \<noteq> [] \<and>
         cb_error (fst (last new)) < 0 \<and> r = snd (last new)"
        by auto
      then show ?thesis unfolding res by (intro exI [of _ new]) simp
    next
      case (Continue n rsp' s1)
      with k have rec: "loop cb ident priv end' s1 (sec + word_of_int n) = Some res"
        by simp
      from b Continue have n1: "callbacks s1 = callbacks s" by simp
      from IH [OF rec] n1 show ?thesis by simp
    qed
  qed
qed


lemma vhd_queue_read_loop_callbacks:
  assumes run: "vhd_queue_read_loop cb ident private end' s sec rsp = Some res"
    and rng: "int32 rsp = rsp"
  shows "\<exists>new. callbacks (snd res) = callbacks s @ new \<and>
           (list_all (\<lambda>c. cb_error (fst c) = BLK_NOT_ALLOCATED) new \<and>
              fst res = int32 (rsp + sum_list (map snd new)) \<or>
            new \<noteq> [] \<and> cb_error (fst (last new)) < 0 \<and> fst res = snd (last new))"
proof -
  have "int32 rsp = rsp \<longrightarrow>
        (\<exists>new. callbacks (snd res) = callbacks s @ new \<and>
           (list_all (\<lambda>c. cb_error (fst c) = BLK_NOT_ALLOCATED) new \<and>
              fst res = int32 (rsp + sum_list (map snd new)) \<or>
            new \<noteq> [] \<and> cb_error (fst (last new)) < 0 \<and> fst res = snd (last new)))"
  proof (rule vhd_queue_read_loop.raw_induct
      [where P = "\<lambda>cb ident private end' s sec rsp res. int32 rsp = rsp \<longrightarrow>
           (\<exists>new. callbacks (snd res) = callbacks s @ new \<and>
             (list_all (\<lambda>c. cb_error (fst c) = BLK_NOT_ALLOCATED) new \<and>
                fst res = int32 (rsp + sum_list (map snd new)) \<or>
              new \<noteq> [] \<and> cb_error (fst (last new)) < 0 \<and> fst res = snd (last new)))",
       OF _ run], goal_cases)
    case (1 loop cb ident priv end' s sec rsp res)
    note IH = 1(1) and eq = 1(2)
    show ?case
    proof
      assume rng: "int32 rsp = rsp"
      show "\<exists>new. callbacks (snd res) = callbacks s @ new \<and>
             (list_all (\<lambda>c. cb_error (fst c) = BLK_NOT_ALLOCATED) new \<and>
                fst res = int32 (rsp + sum_list (map snd new)) \<or>
              new \<noteq> [] \<and> cb_error (fst (last new)) < 0 \<and> fst res = snd (last new))"
      proof (cases "sec < end'")
        case False
        with eq have "res = (rsp, s)" by simp
        then show ?thesis using rng by simp
      next
        case True
        with eq obtain st where
          body: "vhd_queue_read_body cb ident priv s sec (sint (ucast (end' - sec) :: u32)) rsp
                   = Some st" and
          k: "(case st of Return r s' \<Rightarrow> Some (r, s')
               | Continue n rsp' s' \<Rightarrow> loop cb ident priv end' s' (sec + word_of_int n) rsp')
              = Some res"
          by (simp add: bind_eq_Some_conv) blast
        note b = vhd_queue_read_body_callbacks [OF body rng]
        show ?thesis
        proof (cases st)
          case (Return r s')
          with k have res: "res = (r, s')" by simp
          from b Return obtain new where
            "callbacks s' = callbacks s @ new \<and> new \<noteq> [] \<and>
             cb_error (fst (last new)) < 0 \<and> r = snd (last new)"
            by auto
          then show ?thesis unfolding res by (intro exI [of _ new]) simp
        next
          case (Continue n rsp' s1)
          with k have rec: "loop cb ident priv end' s1 (sec + word_of_int n) rsp' = Some res"
            by simp
          from b Continue obtain new1 where
            n1: "callbacks s1 = callbacks s @ new1"
              "list_all (\<lambda>c. cb_error (fst c) = BLK_NOT_ALLOCATED) new1"
              "rsp' = int32 (rsp + sum_list (map snd new1))"
            by auto
          have r': "int32 rsp' = rsp'" by (simp add: n1(3))
          from IH [OF rec] r' obtain new2 where
            n2: "callbacks (snd res) = callbacks s1 @ new2 \<and>
                 (list_all (\<lambda>c. cb_error (fst c) = BLK_NOT_ALLOCATED) new2 \<and>
                    fst res = int32 (rsp' + sum_list (map snd new2)) \<or>
                  new2 \<noteq> [] \<and> cb_error (fst (last new2)) < 0 \<and> fst res = snd (last new2))"
            by blast
          then have c: "callbacks (snd res) = callbacks s @ (new1 @ new2)" using n1 by simp
          from n2 have "list_all (\<lambda>c. cb_error (fst c) = BLK_NOT_ALLOCATED) (new1 @ new2) \<and>
                    fst res = int32 (rsp + sum_list (map snd (new1 @ new2))) \<or>
                  new1 @ new2 \<noteq> [] \<and> cb_error (fst (last (new1 @ new2))) < 0 \<and>
                    fst res = snd (last (new1 @ new2))"
            using n1 by (auto simp: add.assoc)
          with c show ?thesis by (intro exI [of _ "new1 @ new2"]) simp
        qed
      qed
    qed
  qed
  with rng show ?thesis by simp
qed

text \<open>
  The router returns. The span it takes in a round is at least one sector and at
  most what remains of the request, as long as that is less than \<open>2\<^sup>3\<^sup>1\<close> sectors,
  so that \<^verbatim>\<open>remaining\<close> is what remains.
\<close>

lemma unat_ucast_u64_u32: "unat (x :: u64) < 2 ^ 32 \<Longrightarrow> unat (ucast x :: u32) = unat x"
  by (simp add: unsigned_ucast_eq take_bit_nat_eq_self)

lemma unat_ucast_u32_u64': "unat (ucast (x :: u32) :: u64) = unat x"
proof -
  have "unat x < 2 ^ 32" using unsigned_less [of x] by simp
  then have "unat x < (2 :: nat) ^ 64" by (rule less_trans) simp
  then show ?thesis by (simp add: unsigned_ucast_eq take_bit_nat_eq_self)
qed

lemma sint_small_u32: "unat (w :: u32) < 2 ^ 31 \<Longrightarrow> sint w = int (unat w)"
proof -
  assume a: "unat w < 2 ^ 31"
  have u: "uint w = int (unat w)" by (rule uint_nat)
  from a have "int (unat w) < int (2 ^ 31)" by (simp only: of_nat_less_iff)
  then have "int (unat w) < 2 ^ 31" by simp
  then have lt: "uint w < 2 ^ 31" by (simp only: u)
  have ge: "- (2 ^ 31) \<le> uint w"
  proof -
    have "(0 :: int) \<le> uint w" by simp
    moreover have "- (2 ^ 31) \<le> (0 :: int)" by simp
    ultimately show ?thesis by (rule order_trans [rotated])
  qed
  have "sint w = signed_take_bit 31 (uint w)" by (simp add: sint_uint)
  also have "\<dots> = uint w" using ge lt by (rule signed_take_bit_int_eq_self)
  finally show ?thesis by (simp only: u)
qed

lemma sint_ucast_small: "unat (x :: u64) < 2 ^ 31 \<Longrightarrow> sint (ucast x :: u32) = int (unat x)"
proof -
  assume a: "unat x < 2 ^ 31"
  then have "unat x < 2 ^ 32" by simp
  then have "unat (ucast x :: u32) = unat x" by (rule unat_ucast_u64_u32)
  with a sint_small_u32 [of "ucast x"] show ?thesis by simp
qed

lemma unat_add_word_of_int:
  "unat (sec :: u64) + n < 2 ^ 64 \<Longrightarrow> unat (sec + word_of_int (int n)) = unat sec + n"
proof -
  assume a: "unat sec + n < 2 ^ 64"
  then have "n < 2 ^ 64" by simp
  then have "unat (word_of_int (int n) :: u64) = n" by (simp add: unat_of_nat)
  with a show ?thesis by (simp add: unat_word_ariths)
qed

text \<open>The span to the end of the block, or to the end of the request.\<close>

lemma block_rest:
  fixes sec :: u64 and spb' :: u32
  assumes "spb' \<noteq> 0"
  shows "unat (ucast spb' - sec mod ucast spb' :: u64) = unat spb' - unat sec mod unat spb'"
    and "unat (spb' - ucast (sec mod ucast spb') :: u32) = unat spb' - unat sec mod unat spb'"
    and "0 < unat spb' - unat sec mod unat spb'"
proof -
  have S: "unat (ucast spb' :: u64) = unat spb'" by (rule unat_ucast_u32_u64')
  have pos: "0 < unat spb'" using assms by (simp add: unat_gt_0)
  have r: "unat (sec mod ucast spb') = unat sec mod unat spb'" by (simp add: unat_mod S)
  have lt: "unat sec mod unat spb' < unat spb'" using pos by simp
  show "0 < unat spb' - unat sec mod unat spb'" using lt by simp
  have "sec mod ucast spb' \<le> (ucast spb' :: u64)"
    using lt by (simp add: word_le_nat_alt r S)
  then show "unat (ucast spb' - sec mod ucast spb' :: u64) = unat spb' - unat sec mod unat spb'"
    by (simp add: unat_sub r S)
  have "unat spb' < 2 ^ 32" using unsigned_less [of spb'] by simp
  with lt have "unat (sec mod ucast spb') < 2 ^ 32" unfolding r by (rule less_trans)
  then have m: "unat (ucast (sec mod ucast spb') :: u32) = unat sec mod unat spb'"
    using unat_ucast_u64_u32 [of "sec mod ucast spb'"] r by simp
  then have "(ucast (sec mod ucast spb') :: u32) \<le> spb'"
    using lt by (simp add: word_le_nat_alt)
  then show "unat (spb' - ucast (sec mod ucast spb') :: u32) = unat spb' - unat sec mod unat spb'"
    by (simp add: unat_sub m)
qed

lemma min_span_bounds:
  assumes spb: "spb s \<noteq> 0" and more: "sec < end'" and small: "unat (end' - sec) < 2 ^ 31"
  shows "\<exists>n. min_span s sec (sint (ucast (end' - sec) :: u32)) = Some n \<and> 0 < n \<and>
           n \<le> int (unat (end' - sec))"
proof -
  define d where "d = end' - sec"
  define b where "b = (ucast (spb s) - sec mod ucast (spb s) :: u64)"
  define m where "m = (if d < b then d else b)"
  have rem: "sint (ucast d :: u32) = int (unat d)" using small unfolding d_def by (rule sint_ucast_small)
  have a: "(word_of_int (int (unat d)) :: u64) = d" by simp
  from more have le: "sec \<le> end'" by simp
  have "unat d = unat end' - unat sec" unfolding d_def using le by (rule unat_sub)
  moreover have "unat sec < unat end'" using more by (simp add: word_less_nat_alt)
  ultimately have dpos: "0 < unat d" by simp
  have bpos: "0 < unat b" unfolding b_def using block_rest(1,3) [OF spb, of sec] by simp
  have m1: "0 < unat m" using dpos bpos by (simp add: m_def)
  have m2: "unat m \<le> unat d" by (simp add: m_def word_less_nat_alt)
  from m2 small have m3: "unat m < 2 ^ 31" unfolding d_def by simp
  have "min_span s sec (sint (ucast d :: u32)) = Some (sint (ucast m :: u32))"
    using spb by (simp add: min_span_def rem a Let_def b_def m_def)
  moreover have "sint (ucast m :: u32) = int (unat m)" using m3 by (rule sint_ucast_small)
  ultimately have r: "min_span s sec (sint (ucast (end' - sec) :: u32)) = Some (int (unat m))"
    by (simp only: d_def)
  from m1 have "0 < int (unat m)" by (simp only: of_nat_0_less_iff)
  moreover from m2 have "int (unat m) \<le> int (unat (end' - sec))"
    by (simp only: of_nat_le_iff d_def)
  ultimately show ?thesis using r by blast
qed

lemma min_u32_bounds:
  fixes sec :: u64
  assumes spb: "spb' \<noteq> 0" and pos: "0 < d" and small: "d < 2 ^ 31"
  shows "0 < min_u32 (int d) (spb' - ucast (sec mod ucast spb')) \<and>
         min_u32 (int d) (spb' - ucast (sec mod ucast spb')) \<le> int d"
proof -
  define a where "a = (word_of_int (int d) :: u32)"
  define b where "b = (spb' - ucast (sec mod ucast spb') :: u32)"
  define m where "m = (if a < b then a else b)"
  from small have "d < 2 ^ 32" by simp
  then have ua: "unat a = d" by (simp add: a_def unat_of_nat)
  have bpos: "0 < unat b" unfolding b_def using block_rest(2,3) [OF spb, of sec] by simp
  have m1: "0 < unat m" using pos bpos ua by (simp add: m_def)
  have m2: "unat m \<le> d" using ua by (simp add: m_def word_less_nat_alt)
  from m2 small have "unat m < 2 ^ 31" by simp
  then have "sint m = int (unat m)" by (rule sint_small_u32)
  moreover have "min_u32 (int d) (spb' - ucast (sec mod ucast spb')) = sint m"
    by (simp add: min_u32_def m_def a_def b_def)
  ultimately have r: "min_u32 (int d) (spb' - ucast (sec mod ucast spb')) = int (unat m)"
    by (rule trans [rotated])
  from m1 have "0 < int (unat m)" by (simp only: of_nat_0_less_iff)
  moreover from m2 have "int (unat m) \<le> int d" by (simp only: of_nat_le_iff)
  ultimately show ?thesis by (simp only: r simp_thms)
qed

text \<open>
  The requests on the free stack of the pool are distinct requests of the pool
  and were cleared (\<open>pool_ok\<close>); a dynamic image (\<open>dynamic_image\<close>) has a BAT of
  \<^verbatim>\<open>max_bat_size\<close> entries, blocks of at least one sector, and such a pool. The
  router changes neither the type nor the size of the blocks nor the BAT
  (\<open>geometry\<close>).
\<close>

definition pool_ok :: "vhd_state \<Rightarrow> bool" where
  "pool_ok s =
     (distinct (vreq_free s) \<and>
      (\<forall>k\<in>set (vreq_free s). k < length (vreq_list s) \<and> r_nr_secs (vreq_list s ! k) = 0))"

definition dynamic_image :: "vhd_state \<Rightarrow> bool" where
  "dynamic_image s =
     (ftr_type s = HD_TYPE_DYNAMIC \<and> spb s \<noteq> 0 \<and>
      unat (hdr_max_bat_size s) = length (bat_entries (bat s)) \<and> pool_ok s)"

definition geometry :: "vhd_state \<Rightarrow> hd_type \<times> u32 \<times> u32 \<times> u32 list" where
  "geometry s = (ftr_type s, spb s, hdr_max_bat_size s, bat_entries (bat s))"

lemma last_notin_butlast: "distinct xs \<Longrightarrow> xs \<noteq> [] \<Longrightarrow> last xs \<notin> set (butlast xs)"
proof -
  assume d: "distinct xs" and ne: "xs \<noteq> []"
  from ne have "xs = butlast xs @ [last xs]" by simp
  with d have "distinct (butlast xs @ [last xs])" by simp
  then show ?thesis by simp
qed

lemma alloc_vhd_request_pool:
  assumes "pool_ok s"
  shows "alloc_vhd_request s =
           (if vreq_free s = [] then Some (None, s)
            else Some (Some (last (vreq_free s)), s\<lparr>vreq_free := butlast (vreq_free s)\<rparr>))"
  using assms by (auto simp: alloc_vhd_request_def pool_ok_def ASSERT_def Let_def)

lemma pool_ok_taken:
  assumes p: "pool_ok s" and ne: "vreq_free s \<noteq> []"
    and s': "vreq_free s' = butlast (vreq_free s)"
      "length (vreq_list s') = length (vreq_list s)"
      "\<And>j. j \<noteq> last (vreq_free s) \<Longrightarrow> j < length (vreq_list s) \<Longrightarrow>
         vreq_list s' ! j = vreq_list s ! j"
  shows "pool_ok s'"
proof -
  from p have d: "distinct (vreq_free s)" by (simp add: pool_ok_def)
  have nk: "last (vreq_free s) \<notin> set (butlast (vreq_free s))"
    using d ne by (rule last_notin_butlast)
  have "k < length (vreq_list s') \<and> r_nr_secs (vreq_list s' ! k) = 0"
    if "k \<in> set (vreq_free s')" for k
  proof -
    from that have kb: "k \<in> set (butlast (vreq_free s))" by (simp add: s')
    then have "k \<in> set (vreq_free s)" by (rule in_set_butlastD)
    with p have "k < length (vreq_list s)" "r_nr_secs (vreq_list s ! k) = 0"
      by (simp_all add: pool_ok_def)
    moreover from kb nk have "k \<noteq> last (vreq_free s)" by auto
    ultimately show ?thesis using s'(3) [of k] by (simp add: s'(2))
  qed
  moreover have "distinct (vreq_free s')" using d by (simp add: s' distinct_butlast)
  ultimately show ?thesis by (simp add: pool_ok_def)
qed

lemma block_index:
  fixes sec :: u64
  assumes spb: "spb' \<noteq> (0 :: u32)" and inr: "unat sec < L * unat spb'" and L: "L < 2 ^ 32"
  shows "unat (ucast (sec div ucast spb') :: u32) = unat sec div unat spb'"
    and "unat sec div unat spb' < L"
proof -
  have S: "unat (ucast spb' :: u64) = unat spb'" by (rule unat_ucast_u32_u64')
  show lt: "unat sec div unat spb' < L" using inr by (rule less_mult_imp_div_less)
  have "unat (sec div ucast spb') = unat sec div unat spb'" by (simp add: unat_div S)
  moreover from lt L have "unat sec div unat spb' < 2 ^ 32" by (rule less_trans)
  ultimately show "unat (ucast (sec div ucast spb') :: u32) = unat sec div unat spb'"
    using unat_ucast_u64_u32 [of "sec div ucast spb'"] by simp
qed

lemma read_bitmap_cache_dynamic:
  assumes dyn: "ftr_type s = HD_TYPE_DYNAMIC" "spb s \<noteq> 0"
      "unat (hdr_max_bat_size s) = length (bat_entries (bat s))"
    and inr: "unat sec < length (bat_entries (bat s)) * unat (spb s)"
  shows "bat_entry s (ucast (sec div ucast (spb s))) =
           Some (bat_entries (bat s) ! (unat sec div unat (spb s)))"
    and "read_bitmap_cache s sec opc =
           Some (if bat_entries (bat s) ! (unat sec div unat (spb s)) = DD_BLK_UNUSED
                 then (if opc = VHD_OP_DATA_WRITE \<and>
                          pbw_blk (bat s) \<noteq> ucast (sec div ucast (spb s)) \<and> bat_locked s
                       then VHD_BM_BAT_LOCKED else VHD_BM_BAT_CLEAR)
                 else VHD_BM_BIT_SET, s)"
proof -
  have "unat (hdr_max_bat_size s) < 2 ^ 32" using unsigned_less [of "hdr_max_bat_size s"] by simp
  then have L: "length (bat_entries (bat s)) < 2 ^ 32" by (simp only: dyn(3))
  note b = block_index [OF dyn(2) inr L]
  show e: "bat_entry s (ucast (sec div ucast (spb s))) =
           Some (bat_entries (bat s) ! (unat sec div unat (spb s)))"
    using b by (simp add: bat_entry_def)
  have "\<not> ucast (sec div ucast (spb s)) > hdr_max_bat_size s"
    using b dyn(3) by (simp add: word_less_nat_alt)
  then show "read_bitmap_cache s sec opc =
           Some (if bat_entries (bat s) ! (unat sec div unat (spb s)) = DD_BLK_UNUSED
                 then (if opc = VHD_OP_DATA_WRITE \<and>
                          pbw_blk (bat s) \<noteq> ucast (sec div ucast (spb s)) \<and> bat_locked s
                       then VHD_BM_BAT_LOCKED else VHD_BM_BAT_CLEAR)
                 else VHD_BM_BIT_SET, s)"
    using dyn(1,2) e by (simp add: read_bitmap_cache_def Let_def)
qed

lemma geometry_taken:
  "geometry (aio_read (Vreq k) off (req_upd (Vreq k) f (s\<lparr>vreq_free := fr\<rparr>))) = geometry s"
  "geometry (aio_write (Vreq k) off (req_upd (Vreq k) f (s\<lparr>vreq_free := fr\<rparr>))) = geometry s"
  by (simp_all add: geometry_def aio_read_def aio_write_def req_upd.simps)

lemma schedule_data_read_dynamic:
  assumes dyn: "ftr_type s = HD_TYPE_DYNAMIC" "spb s \<noteq> 0"
      "unat (hdr_max_bat_size s) = length (bat_entries (bat s))"
    and pool: "pool_ok s"
    and inr: "unat sec < length (bat_entries (bat s)) * unat (spb s)"
  shows "\<exists>err s2. schedule_data_read s sec n fl ident private = Some (err, s2) \<and>
           geometry s2 = geometry s \<and> pool_ok s2"
proof (cases "vreq_free s = []")
  case True
  then show ?thesis
    using dyn(1,2) pool read_bitmap_cache_dynamic(1) [OF dyn inr]
    by (simp add: schedule_data_read_def Let_def alloc_vhd_request_pool)
next
  case False
  define k where "k = last (vreq_free s)"
  define s2 where "s2 = aio_read (Vreq k)
      (push_bit VHD_SECTOR_SHIFT
         (ucast (bat_entries (bat s) ! (unat sec div unat (spb s))) +
          ucast (bm_secs s + ucast (sec mod ucast (spb s))) :: u64))
      (req_upd (Vreq k) (\<lambda>r. r\<lparr>r_lsec := sec, r_nr_secs := n, r_flags := fl, r_id := ident,
          r_private := private, r_op := VHD_OP_DATA_READ\<rparr>)
        (s\<lparr>vreq_free := butlast (vreq_free s)\<rparr>))"
  have run: "schedule_data_read s sec n fl ident private = Some (0, s2)"
    using False dyn(1,2) pool read_bitmap_cache_dynamic(1) [OF dyn inr]
    by (simp add: schedule_data_read_def Let_def alloc_vhd_request_pool k_def s2_def)
  have g: "geometry s2 = geometry s" unfolding s2_def by (rule geometry_taken)
  have "pool_ok s2"
    by (rule pool_ok_taken [OF pool False])
      (simp_all add: s2_def aio_read_def req_upd.simps k_def)
  with run g show ?thesis by blast
qed

lemma schedule_data_write_dynamic:
  assumes dyn: "ftr_type s = HD_TYPE_DYNAMIC" "spb s \<noteq> 0"
      "unat (hdr_max_bat_size s) = length (bat_entries (bat s))"
    and pool: "pool_ok s"
    and inr: "unat sec < length (bat_entries (bat s)) * unat (spb s)"
  shows "\<exists>err s2. schedule_data_write s sec n 0 ident private = Some (err, s2) \<and>
           geometry s2 = geometry s \<and> pool_ok s2"
proof (cases "vreq_free s = []")
  case True
  then show ?thesis
    using dyn(1,2) pool read_bitmap_cache_dynamic(1) [OF dyn inr]
    by (simp add: schedule_data_write_def Let_def alloc_vhd_request_pool test_vhd_flag_def)
next
  case False
  define k where "k = last (vreq_free s)"
  define s2 where "s2 = aio_write (Vreq k)
      (push_bit VHD_SECTOR_SHIFT
         (ucast (bat_entries (bat s) ! (unat sec div unat (spb s))) +
          ucast (bm_secs s + ucast (sec mod ucast (spb s))) :: u64))
      (req_upd (Vreq k) (\<lambda>r. r\<lparr>r_lsec := sec, r_nr_secs := n, r_flags := 0, r_id := ident,
          r_private := private, r_op := VHD_OP_DATA_WRITE\<rparr>)
        (s\<lparr>vreq_free := butlast (vreq_free s)\<rparr>))"
  have run: "schedule_data_write s sec n 0 ident private = Some (0, s2)"
    using False dyn(1,2) pool read_bitmap_cache_dynamic(1) [OF dyn inr]
    by (simp add: schedule_data_write_def Let_def alloc_vhd_request_pool k_def s2_def
          test_vhd_flag_def)
  have g: "geometry s2 = geometry s" unfolding s2_def by (rule geometry_taken)
  have "pool_ok s2"
    by (rule pool_ok_taken [OF pool False])
      (simp_all add: s2_def aio_write_def req_upd.simps k_def)
  with run g show ?thesis by blast
qed

lemma geometry_callbacks [simp]: "geometry (s\<lparr>callbacks := c\<rparr>) = geometry s"
  by (simp add: geometry_def)

lemma pool_ok_callbacks [simp]: "pool_ok (s\<lparr>callbacks := c\<rparr>) = pool_ok s"
  by (simp add: pool_ok_def)

lemma read_bitmap_cache_span_dynamic:
  assumes dyn: "ftr_type s = HD_TYPE_DYNAMIC" "spb s \<noteq> 0"
    and more: "sec < end'" and small: "unat (end' - sec) < 2 ^ 31"
  shows "\<exists>n. read_bitmap_cache_span s sec (sint (ucast (end' - sec) :: u32)) v = Some n \<and>
           0 < n \<and> n \<le> int (unat (end' - sec))"
proof -
  have rem: "sint (ucast (end' - sec) :: u32) = int (unat (end' - sec))"
    using small by (rule sint_ucast_small)
  from more have le: "sec \<le> end'" by simp
  have "unat (end' - sec) = unat end' - unat sec" using le by (rule unat_sub)
  moreover have "unat sec < unat end'" using more by (simp add: word_less_nat_alt)
  ultimately have pos: "0 < unat (end' - sec)" by simp
  have "read_bitmap_cache_span s sec (sint (ucast (end' - sec) :: u32)) v =
          Some (min_u32 (int (unat (end' - sec))) (spb s - ucast (sec mod ucast (spb s))))"
    using dyn by (simp add: read_bitmap_cache_span_def rem Let_def)
  with min_u32_bounds [OF dyn(2) pos small, of sec] show ?thesis by simp
qed

lemma vhd_queue_read_body_dynamic:
  assumes dyn: "ftr_type s = HD_TYPE_DYNAMIC" "spb s \<noteq> 0"
      "unat (hdr_max_bat_size s) = length (bat_entries (bat s))"
    and pool: "pool_ok s"
    and more: "sec < end'" and small: "unat (end' - sec) < 2 ^ 31"
    and inr: "unat sec < length (bat_entries (bat s)) * unat (spb s)"
  shows "\<exists>st. vhd_queue_read_body cb ident private s sec (sint (ucast (end' - sec) :: u32)) rsp
                 = Some st \<and>
           (case st of
              Return r s' \<Rightarrow> True
            | Continue n rsp' s' \<Rightarrow> 0 < n \<and> n \<le> int (unat (end' - sec)) \<and>
                geometry s' = geometry s \<and> pool_ok s')"
proof (cases "bat_entries (bat s) ! (unat sec div unat (spb s)) = DD_BLK_UNUSED")
  case True
  have c: "read_bitmap_cache s sec VHD_OP_DATA_READ = Some (VHD_BM_BAT_CLEAR, s)"
    using read_bitmap_cache_dynamic(2) [OF dyn inr, of VHD_OP_DATA_READ] True by simp
  from min_span_bounds [OF dyn(2) more small] obtain n where
    n: "min_span s sec (sint (ucast (end' - sec) :: u32)) = Some n" "0 < n"
      "n \<le> int (unat (end' - sec))"
    by blast
  show ?thesis
    using pool n(2,3) by (simp add: vhd_queue_read_body_def c n(1) invoke_cb_def Let_def)
next
  case False
  have c: "read_bitmap_cache s sec VHD_OP_DATA_READ = Some (VHD_BM_BIT_SET, s)"
    using read_bitmap_cache_dynamic(2) [OF dyn inr, of VHD_OP_DATA_READ] False by simp
  from read_bitmap_cache_span_dynamic [OF dyn(1,2) more small, of True] obtain n where
    n: "read_bitmap_cache_span s sec (sint (ucast (end' - sec) :: u32)) True = Some n" "0 < n"
      "n \<le> int (unat (end' - sec))"
    by blast
  from schedule_data_read_dynamic [OF dyn pool inr, of n 0 ident "private"] obtain err s2 where
    r: "schedule_data_read s sec n 0 ident private = Some (err, s2)"
      "geometry s2 = geometry s" "pool_ok s2"
    by blast
  show ?thesis
    using n(2,3) r(2,3) by (simp add: vhd_queue_read_body_def c n(1) r(1) invoke_cb_def Let_def)
qed

lemma vhd_queue_write_body_dynamic:
  assumes dyn: "ftr_type s = HD_TYPE_DYNAMIC" "spb s \<noteq> 0"
      "unat (hdr_max_bat_size s) = length (bat_entries (bat s))"
    and pool: "pool_ok s"
    and more: "sec < end'" and small: "unat (end' - sec) < 2 ^ 31"
    and inr: "unat sec < length (bat_entries (bat s)) * unat (spb s)"
    and alloc: "bat_entries (bat s) ! (unat sec div unat (spb s)) \<noteq> DD_BLK_UNUSED"
  shows "\<exists>st. vhd_queue_write_body cb ident private s sec (sint (ucast (end' - sec) :: u32))
                 = Some st \<and>
           (case st of
              Return r s' \<Rightarrow> True
            | Continue n rsp' s' \<Rightarrow> 0 < n \<and> n \<le> int (unat (end' - sec)) \<and>
                geometry s' = geometry s \<and> pool_ok s')"
proof -
  have c: "read_bitmap_cache s sec VHD_OP_DATA_WRITE = Some (VHD_BM_BIT_SET, s)"
    using read_bitmap_cache_dynamic(2) [OF dyn inr, of VHD_OP_DATA_WRITE] alloc by simp
  from read_bitmap_cache_span_dynamic [OF dyn(1,2) more small, of True] obtain n where
    n: "read_bitmap_cache_span s sec (sint (ucast (end' - sec) :: u32)) True = Some n" "0 < n"
      "n \<le> int (unat (end' - sec))"
    by blast
  from schedule_data_write_dynamic [OF dyn pool inr, of n ident "private"] obtain err s2 where
    r: "schedule_data_write s sec n 0 ident private = Some (err, s2)"
      "geometry s2 = geometry s" "pool_ok s2"
    by blast
  show ?thesis
    using n(2,3) r(2,3) by (simp add: vhd_queue_write_body_def c n(1) r(1) invoke_cb_def Let_def)
qed

lemma advance:
  fixes sec end' :: u64
  assumes more: "sec < end'" and n: "0 < n" "n \<le> int (unat (end' - sec))"
  shows "sec + word_of_int n \<le> end'"
    and "unat (end' - (sec + word_of_int n)) < unat (end' - sec)"
    and "unat sec \<le> unat (sec + word_of_int n)"
proof -
  define k where "k = nat n"
  have nk: "n = int k" using n(1) by (simp add: k_def)
  from more have le: "sec \<le> end'" by simp
  have d: "unat (end' - sec) = unat end' - unat sec" using le by (rule unat_sub)
  have lt: "unat sec < unat end'" using more by (simp add: word_less_nat_alt)
  have kd: "k \<le> unat end' - unat sec" using n(2) unfolding nk d by (simp only: of_nat_le_iff)
  have kpos: "0 < k" using n(1) by (simp add: k_def)
  have "unat end' < 2 ^ 64" using unsigned_less [of end'] by simp
  with kd lt have "unat sec + k < 2 ^ 64" by simp
  then have u: "unat (sec + word_of_int (int k)) = unat sec + k" by (rule unat_add_word_of_int)
  show le': "sec + word_of_int n \<le> end'"
    unfolding nk using u kd lt by (simp add: word_le_nat_alt)
  have "unat (end' - (sec + word_of_int n)) = unat end' - unat (sec + word_of_int n)"
    using le' by (rule unat_sub)
  then show "unat (end' - (sec + word_of_int n)) < unat (end' - sec)"
    unfolding nk d using u kd lt kpos by simp
  show "unat sec \<le> unat (sec + word_of_int n)" unfolding nk using u by simp
qed

lemma vhd_queue_read_loop_returns:
  assumes "ftr_type s = HD_TYPE_DYNAMIC" "spb s \<noteq> 0"
      "unat (hdr_max_bat_size s) = length (bat_entries (bat s))"
      "pool_ok s" "sec \<le> end'" "unat (end' - sec) < 2 ^ 31"
      "unat end' \<le> length (bat_entries (bat s)) * unat (spb s)"
  shows "\<exists>res. vhd_queue_read_loop cb ident private end' s sec rsp = Some res"
  using assms
proof (induction "unat (end' - sec)" arbitrary: s sec rsp rule: less_induct)
  case less
  note dyn = less.prems(1-3) and pool = less.prems(4) and le = less.prems(5)
    and small = less.prems(6) and rng = less.prems(7)
  show ?case
  proof (cases "sec < end'")
    case False
    then show ?thesis by (subst vhd_queue_read_loop.simps) simp
  next
    case True
    then have "unat sec < unat end'" by (simp add: word_less_nat_alt)
    with rng have inr: "unat sec < length (bat_entries (bat s)) * unat (spb s)" by simp
    from vhd_queue_read_body_dynamic [OF dyn pool True small inr, of cb ident "private" rsp]
    obtain st where
      body: "vhd_queue_read_body cb ident private s sec (sint (ucast (end' - sec) :: u32)) rsp
               = Some st" and
      post: "case st of Return r s' \<Rightarrow> True
             | Continue n rsp' s' \<Rightarrow> 0 < n \<and> n \<le> int (unat (end' - sec)) \<and>
                 geometry s' = geometry s \<and> pool_ok s'"
      by blast
    show ?thesis
    proof (cases st)
      case (Return r s')
      then show ?thesis using True body by (subst vhd_queue_read_loop.simps) simp
    next
      case (Continue n rsp' s1)
      with post have n: "0 < n" "n \<le> int (unat (end' - sec))"
        and g: "geometry s1 = geometry s" and p1: "pool_ok s1" by simp_all
      note a = advance [OF True n]
      from g have dyn1: "ftr_type s1 = HD_TYPE_DYNAMIC" "spb s1 \<noteq> 0"
        "unat (hdr_max_bat_size s1) = length (bat_entries (bat s1))"
        and rng1: "unat end' \<le> length (bat_entries (bat s1)) * unat (spb s1)"
        using dyn rng by (simp_all add: geometry_def)
      from a(2) small have small1: "unat (end' - (sec + word_of_int n)) < 2 ^ 31" by simp
      from less.hyps [OF a(2) dyn1 p1 a(1) small1 rng1, of rsp'] obtain res where
        "vhd_queue_read_loop cb ident private end' s1 (sec + word_of_int n) rsp' = Some res" ..
      then show ?thesis
        using True body Continue by (subst vhd_queue_read_loop.simps) simp
    qed
  qed
qed

lemma vhd_queue_write_loop_returns:
  assumes "ftr_type s = HD_TYPE_DYNAMIC" "spb s \<noteq> 0"
      "unat (hdr_max_bat_size s) = length (bat_entries (bat s))"
      "pool_ok s" "sec \<le> end'" "unat (end' - sec) < 2 ^ 31"
      "unat end' \<le> length (bat_entries (bat s)) * unat (spb s)"
      "\<forall>x. unat sec \<le> x \<and> x < unat end' \<longrightarrow>
         bat_entries (bat s) ! (x div unat (spb s)) \<noteq> DD_BLK_UNUSED"
  shows "\<exists>res. vhd_queue_write_loop cb ident private end' s sec = Some res"
  using assms
proof (induction "unat (end' - sec)" arbitrary: s sec rule: less_induct)
  case less
  note dyn = less.prems(1-3) and pool = less.prems(4) and le = less.prems(5)
    and small = less.prems(6) and rng = less.prems(7) and alloc = less.prems(8)
  show ?case
  proof (cases "sec < end'")
    case False
    then show ?thesis by (subst vhd_queue_write_loop.simps) simp
  next
    case True
    then have lt: "unat sec < unat end'" by (simp add: word_less_nat_alt)
    with rng have inr: "unat sec < length (bat_entries (bat s)) * unat (spb s)" by simp
    from alloc lt have al: "bat_entries (bat s) ! (unat sec div unat (spb s)) \<noteq> DD_BLK_UNUSED"
      by simp
    from vhd_queue_write_body_dynamic [OF dyn pool True small inr al, of cb ident "private"]
    obtain st where
      body: "vhd_queue_write_body cb ident private s sec (sint (ucast (end' - sec) :: u32))
               = Some st" and
      post: "case st of Return r s' \<Rightarrow> True
             | Continue n rsp' s' \<Rightarrow> 0 < n \<and> n \<le> int (unat (end' - sec)) \<and>
                 geometry s' = geometry s \<and> pool_ok s'"
      by blast
    show ?thesis
    proof (cases st)
      case (Return r s')
      then show ?thesis using True body by (subst vhd_queue_write_loop.simps) simp
    next
      case (Continue n rsp' s1)
      with post have n: "0 < n" "n \<le> int (unat (end' - sec))"
        and g: "geometry s1 = geometry s" and p1: "pool_ok s1" by simp_all
      note a = advance [OF True n]
      from g have dyn1: "ftr_type s1 = HD_TYPE_DYNAMIC" "spb s1 \<noteq> 0"
        "unat (hdr_max_bat_size s1) = length (bat_entries (bat s1))"
        and rng1: "unat end' \<le> length (bat_entries (bat s1)) * unat (spb s1)"
        using dyn rng by (simp_all add: geometry_def)
      from a(2) small have small1: "unat (end' - (sec + word_of_int n)) < 2 ^ 31" by simp
      have alloc1: "\<forall>x. unat (sec + word_of_int n) \<le> x \<and> x < unat end' \<longrightarrow>
         bat_entries (bat s1) ! (x div unat (spb s1)) \<noteq> DD_BLK_UNUSED"
        using alloc a(3) g by (auto simp: geometry_def)
      from less.hyps [OF a(2) dyn1 p1 a(1) small1 rng1 alloc1] obtain res where
        "vhd_queue_write_loop cb ident private end' s1 (sec + word_of_int n) = Some res" ..
      then show ?thesis
        using True body Continue by (subst vhd_queue_write_loop.simps) simp
    qed
  qed
qed

lemma not_all_unallocated:
  assumes "new \<noteq> []" "cb_error (fst (last new)) < 0"
  shows "\<not> list_all (\<lambda>c. cb_error (fst c) = BLK_NOT_ALLOCATED) new"
proof
  assume "list_all (\<lambda>c. cb_error (fst c) = BLK_NOT_ALLOCATED) new"
  with assms(1) have "cb_error (fst (last new)) = BLK_NOT_ALLOCATED"
    by (simp add: list_all_iff)
  with assms(2) show False by simp
qed

lemma image_sectors:
  fixes sector :: u64
  assumes len: "unat (m :: u32) = L" and rng: "unat sector + k \<le> L * unat (spb' :: u32)"
  shows "unat (sector + word_of_int (int k)) = unat sector + k"
proof -
  have "unat m < 2 ^ 32" using unsigned_less [of m] by simp
  then have "L < 2 ^ 32" by (simp only: len)
  moreover have "unat spb' < 2 ^ 32" using unsigned_less [of spb'] by simp
  ultimately have "L * unat spb' < 2 ^ 32 * 2 ^ 32"
    by (intro mult_strict_mono) simp_all
  then have "L * unat spb' < 2 ^ 64" by simp
  with rng have "unat sector + k < 2 ^ 64" by simp
  then show ?thesis by (rule unat_add_word_of_int)
qed

text \<open>
  C6. A call of \<^verbatim>\<open>vhd_queue_read\<close> or \<^verbatim>\<open>vhd_queue_write\<close> that returns has made
  the callbacks \<open>new\<close>. If no span ended the walk with an error, that is, if
  every callback of the call reported \<^verbatim>\<open>BLK_NOT_ALLOCATED\<close> (for a write: if
  there was none), the value returned is the sum of the values the callbacks
  returned, added up in \<^verbatim>\<open>int\<close>. Otherwise the last callback of the call carries
  a negative error code and the value returned is what that callback returned.
  And the calls do return: on a dynamic image, a read of fewer than \<open>2\<^sup>3\<^sup>1\<close>
  sectors that lie in the blocks of the BAT returns, and so does such a write
  when the blocks it touches are allocated.
\<close>

theorem vhd_queue_return_sum:
  "(vhd_queue_read cb s sector nr_sectors ident private = Some (ret, s') \<longrightarrow>
      (\<exists>new. callbacks s' = callbacks s @ new \<and>
         (if list_all (\<lambda>c. cb_error (fst c) = BLK_NOT_ALLOCATED) new
          then ret = int32 (sum_list (map snd new))
          else cb_error (fst (last new)) < 0 \<and> ret = snd (last new)))) \<and>
   (vhd_queue_write cb s sector nr_sectors ident private = Some (ret, s') \<longrightarrow>
      (\<exists>new. callbacks s' = callbacks s @ new \<and>
         (if list_all (\<lambda>c. cb_error (fst c) = BLK_NOT_ALLOCATED) new
          then new = [] \<and> ret = int32 (sum_list (map snd new))
          else cb_error (fst (last new)) < 0 \<and> ret = snd (last new)))) \<and>
   (dynamic_image s \<and> 0 < nr_sectors \<and> nr_sectors < 2 ^ 31 \<and>
    unat sector + nat nr_sectors \<le> length (bat_entries (bat s)) * unat (spb s) \<longrightarrow>
      (\<exists>r t. vhd_queue_read cb s sector nr_sectors ident private = Some (r, t)) \<and>
      ((\<forall>x. unat sector \<le> x \<and> x < unat sector + nat nr_sectors \<longrightarrow>
            bat_entries (bat s) ! (x div unat (spb s)) \<noteq> DD_BLK_UNUSED) \<longrightarrow>
       (\<exists>r t. vhd_queue_write cb s sector nr_sectors ident private = Some (r, t))))"
proof (intro conjI impI)
  assume "vhd_queue_read cb s sector nr_sectors ident private = Some (ret, s')"
  then have "vhd_queue_read_loop cb ident private (sector + word_of_int nr_sectors) s sector 0
      = Some (ret, s')"
    by (simp add: vhd_queue_read_def)
  from vhd_queue_read_loop_callbacks [OF this] obtain new where
    c: "callbacks s' = callbacks s @ new" and
    alt: "list_all (\<lambda>c. cb_error (fst c) = BLK_NOT_ALLOCATED) new \<and>
            ret = int32 (sum_list (map snd new)) \<or>
          new \<noteq> [] \<and> cb_error (fst (last new)) < 0 \<and> ret = snd (last new)"
    by auto
  from alt not_all_unallocated [of new]
  have "if list_all (\<lambda>c. cb_error (fst c) = BLK_NOT_ALLOCATED) new
          then ret = int32 (sum_list (map snd new))
          else cb_error (fst (last new)) < 0 \<and> ret = snd (last new)"
    by auto
  with c show "\<exists>new. callbacks s' = callbacks s @ new \<and>
         (if list_all (\<lambda>c. cb_error (fst c) = BLK_NOT_ALLOCATED) new
          then ret = int32 (sum_list (map snd new))
          else cb_error (fst (last new)) < 0 \<and> ret = snd (last new))"
    by blast
next
  assume "vhd_queue_write cb s sector nr_sectors ident private = Some (ret, s')"
  then have "vhd_queue_write_loop cb ident private (sector + word_of_int nr_sectors) s sector
      = Some (ret, s')"
    by (simp add: vhd_queue_write_def)
  from vhd_queue_write_loop_callbacks [OF this] obtain new where
    c: "callbacks s' = callbacks s @ new" and
    alt: "new = [] \<and> ret = 0 \<or>
          new \<noteq> [] \<and> cb_error (fst (last new)) < 0 \<and> ret = snd (last new)"
    by auto
  from alt not_all_unallocated [of new]
  have "if list_all (\<lambda>c. cb_error (fst c) = BLK_NOT_ALLOCATED) new
          then new = [] \<and> ret = int32 (sum_list (map snd new))
          else cb_error (fst (last new)) < 0 \<and> ret = snd (last new)"
    by auto
  with c show "\<exists>new. callbacks s' = callbacks s @ new \<and>
         (if list_all (\<lambda>c. cb_error (fst c) = BLK_NOT_ALLOCATED) new
          then new = [] \<and> ret = int32 (sum_list (map snd new))
          else cb_error (fst (last new)) < 0 \<and> ret = snd (last new))"
    by blast
next
  assume a: "dynamic_image s \<and> 0 < nr_sectors \<and> nr_sectors < 2 ^ 31 \<and>
    unat sector + nat nr_sectors \<le> length (bat_entries (bat s)) * unat (spb s)"
  then have dyn: "ftr_type s = HD_TYPE_DYNAMIC" "spb s \<noteq> 0"
      "unat (hdr_max_bat_size s) = length (bat_entries (bat s))" and pool: "pool_ok s"
    by (simp_all add: dynamic_image_def)
  define k where "k = nat nr_sectors"
  from a have nk: "nr_sectors = int k"
    and rng: "unat sector + k \<le> length (bat_entries (bat s)) * unat (spb s)"
    by (simp_all add: k_def)
  from a have k: "k < 2 ^ 31" by (simp add: k_def nat_less_iff)
  have e: "unat (sector + word_of_int (int k)) = unat sector + k"
    using dyn(3) rng by (rule image_sectors)
  then have le: "sector \<le> sector + word_of_int (int k)" by (simp add: word_le_nat_alt)
  have "unat (sector + word_of_int (int k) - sector) =
          unat (sector + word_of_int (int k)) - unat sector"
    using le by (rule unat_sub)
  also have "\<dots> = k" by (simp only: e add_diff_cancel_left')
  finally have dk: "unat (sector + word_of_int (int k) - sector) = k" .
  have d: "unat (sector + word_of_int (int k) - sector) < 2 ^ 31"
    unfolding dk by (rule k)
  have r: "unat (sector + word_of_int (int k)) \<le> length (bat_entries (bat s)) * unat (spb s)"
    unfolding e by (rule rng)
  from vhd_queue_read_loop_returns [OF dyn pool le d r, of cb ident "private" 0]
  show "\<exists>r t. vhd_queue_read cb s sector nr_sectors ident private = Some (r, t)"
    by (auto simp: vhd_queue_read_def nk)
next
  assume a: "dynamic_image s \<and> 0 < nr_sectors \<and> nr_sectors < 2 ^ 31 \<and>
    unat sector + nat nr_sectors \<le> length (bat_entries (bat s)) * unat (spb s)"
    and al: "\<forall>x. unat sector \<le> x \<and> x < unat sector + nat nr_sectors \<longrightarrow>
            bat_entries (bat s) ! (x div unat (spb s)) \<noteq> DD_BLK_UNUSED"
  then have dyn: "ftr_type s = HD_TYPE_DYNAMIC" "spb s \<noteq> 0"
      "unat (hdr_max_bat_size s) = length (bat_entries (bat s))" and pool: "pool_ok s"
    by (simp_all add: dynamic_image_def)
  define k where "k = nat nr_sectors"
  from a have nk: "nr_sectors = int k"
    and rng: "unat sector + k \<le> length (bat_entries (bat s)) * unat (spb s)"
    by (simp_all add: k_def)
  from a have k: "k < 2 ^ 31" by (simp add: k_def nat_less_iff)
  have e: "unat (sector + word_of_int (int k)) = unat sector + k"
    using dyn(3) rng by (rule image_sectors)
  then have le: "sector \<le> sector + word_of_int (int k)" by (simp add: word_le_nat_alt)
  have "unat (sector + word_of_int (int k) - sector) =
          unat (sector + word_of_int (int k)) - unat sector"
    using le by (rule unat_sub)
  also have "\<dots> = k" by (simp only: e add_diff_cancel_left')
  finally have dk: "unat (sector + word_of_int (int k) - sector) = k" .
  have d: "unat (sector + word_of_int (int k) - sector) < 2 ^ 31"
    unfolding dk by (rule k)
  have r: "unat (sector + word_of_int (int k)) \<le> length (bat_entries (bat s)) * unat (spb s)"
    unfolding e by (rule rng)
  have al': "\<forall>x. unat sector \<le> x \<and> x < unat (sector + word_of_int (int k)) \<longrightarrow>
            bat_entries (bat s) ! (x div unat (spb s)) \<noteq> DD_BLK_UNUSED"
    unfolding e unfolding k_def by (rule al)
  from vhd_queue_write_loop_returns [OF dyn pool le d r al', of cb ident "private"]
  show "\<exists>r t. vhd_queue_write cb s sector nr_sectors ident private = Some (r, t)"
    by (auto simp: vhd_queue_write_def nk)
qed

theorem vhd_queue_return_sum_witness:
  "\<exists>ret s' wret ws' r t.
     read_over_holes = Some (ret, s') \<and>
     map (\<lambda>c. (cb_error (fst c), cb_sector (fst c), snd c)) (callbacks s') =
       [(BLK_NOT_ALLOCATED, 4090, 6), (BLK_NOT_ALLOCATED, 4096, 4)] \<and>
     ret = 10 \<and>
     write_block_0 = Some (wret, ws') \<and> callbacks ws' = [] \<and> wret = 0 \<and>
     dynamic_image (image_block_0 HD_TYPE_DYNAMIC) \<and>
     vhd_queue_write cb_secs (image_block_0 HD_TYPE_DYNAMIC) 4080 10 7 0 = Some (r, t)"
proof -
  have c0: "callbacks (image HD_TYPE_DYNAMIC) = []" by code_simp
  have "case read_over_holes of
          None \<Rightarrow> False
        | Some (ret, s') \<Rightarrow>
            map (\<lambda>c. (cb_error (fst c), cb_sector (fst c), snd c)) (callbacks s') =
              [(BLK_NOT_ALLOCATED, 4090, 6), (BLK_NOT_ALLOCATED, 4096, 4)]"
    by code_simp
  then obtain ret s' where r: "read_over_holes = Some (ret, s')" and
    cbs: "map (\<lambda>c. (cb_error (fst c), cb_sector (fst c), snd c)) (callbacks s') =
              [(BLK_NOT_ALLOCATED, 4090, 6), (BLK_NOT_ALLOCATED, 4096, 4)]"
    by (auto split: option.splits)
  have "case write_block_0 of None \<Rightarrow> False | Some (wret, ws') \<Rightarrow> callbacks ws' = []"
    by code_simp
  then obtain wret ws' where w: "write_block_0 = Some (wret, ws')" and wc: "callbacks ws' = []"
    by (auto split: option.splits)
  from vhd_queue_return_sum [of cb_secs "image HD_TYPE_DYNAMIC" 4090 10 7 0 ret s', THEN conjunct1]
    r c0
  have "if list_all (\<lambda>c. cb_error (fst c) = BLK_NOT_ALLOCATED) (callbacks s')
        then ret = int32 (sum_list (map snd (callbacks s')))
        else cb_error (fst (last (callbacks s'))) < 0 \<and> ret = snd (last (callbacks s'))"
    by (simp add: read_over_holes_def)
  with cbs have ret: "ret = 10" by (auto simp: map_eq_Cons_conv int32_def)
  from vhd_queue_return_sum [of cb_secs "image HD_TYPE_DYNAMIC" 0 1 7 0 wret ws',
      THEN conjunct2, THEN conjunct1] w c0 wc
  have wret: "wret = 0" by (simp add: write_block_0_def)
  have d: "dynamic_image (image_block_0 HD_TYPE_DYNAMIC)" by code_simp
  have g: "length (bat_entries (bat (image_block_0 HD_TYPE_DYNAMIC))) = 128 \<and>
           spb (image_block_0 HD_TYPE_DYNAMIC) = 4096 \<and>
           bat_entries (bat (image_block_0 HD_TYPE_DYNAMIC)) ! 0 = 7"
    by code_simp
  have al: "\<forall>x. unat (4080 :: u64) \<le> x \<and> x < unat (4080 :: u64) + nat 10 \<longrightarrow>
     bat_entries (bat (image_block_0 HD_TYPE_DYNAMIC)) !
       (x div unat (spb (image_block_0 HD_TYPE_DYNAMIC))) \<noteq> DD_BLK_UNUSED"
  proof (intro allI impI)
    fix x :: nat
    assume "unat (4080 :: u64) \<le> x \<and> x < unat (4080 :: u64) + nat 10"
    then have "x < 4096" by simp
    then have "x div 4096 = 0" by simp
    then show "bat_entries (bat (image_block_0 HD_TYPE_DYNAMIC)) !
       (x div unat (spb (image_block_0 HD_TYPE_DYNAMIC))) \<noteq> DD_BLK_UNUSED"
      using g by simp
  qed
  have rng: "unat (4080 :: u64) + nat 10 \<le>
      length (bat_entries (bat (image_block_0 HD_TYPE_DYNAMIC))) *
        unat (spb (image_block_0 HD_TYPE_DYNAMIC))"
    using g by simp
  from vhd_queue_return_sum [of cb_secs "image_block_0 HD_TYPE_DYNAMIC" 4080 10 7 0,
      THEN conjunct2, THEN conjunct2] d rng al
  obtain r t where
    "vhd_queue_write cb_secs (image_block_0 HD_TYPE_DYNAMIC) 4080 10 7 0 = Some (r, t)"
    by auto
  with r cbs ret w wc wret d show ?thesis by auto
qed

subsection \<open>A bitmap read that fails\<close>

text \<open>
  C9. When the read of a bitmap fails, \<^verbatim>\<open>finish_bitmap_read\<close> completes the waiting
  requests through \<^verbatim>\<open>signal_completion\<close> with the error field of the first of
  them, which is 0, as the claim says; the claim then has the bitmap taken out of
  the cache and returned to the free list. But \<^verbatim>\<open>schedule_bitmap_read\<close> has locked
  the bitmap, nothing unlocks it before \<^verbatim>\<open>free_vhd_bitmap\<close> is called, and
  \<^verbatim>\<open>free_vhd_bitmap\<close> asserts \<^verbatim>\<open>!bitmap_locked(bm)\<close>. On the differencing image whose
  block 0 is allocated, after a read of sector 0 was queued and the read of the
  bitmap has failed, the waiting request is called back with error 0 and the
  assertion fails: the driver stops there, the bitmap is not returned. Had the
  read succeeded the run would go on.
\<close>

theorem finish_bitmap_read_error_aborts:
  "case bitmap_read_pending of
     None \<Rightarrow> False
   | Some s \<Rightarrow>
       get_bitmap s 0 = Some 31 \<and>
       (case bm_at s 31 of
          None \<Rightarrow> False
        | Some bm \<Rightarrow>
            test_vhd_flag (bm_status bm) VHD_FLAG_BM_READ_PENDING \<and> bitmap_locked bm \<and>
            bm_waiting bm = [Vreq 3] \<and> r_op (bm_req bm) = VHD_OP_BITMAP_READ) \<and>
       (case signal_completion cb_zero [Vreq 3] 0
               (bm_upd 31 (\<lambda>bm. bm\<lparr>bm_waiting := [], bm_status :=
                   clear_vhd_flag (bm_status bm) VHD_FLAG_BM_READ_PENDING\<rparr>)
                 (req_upd (Bm_req 31) (\<lambda>r. r\<lparr>r_error := - EIO\<rparr>) s)) of
          None \<Rightarrow> False
        | Some (rsp, s2) \<Rightarrow>
            map (\<lambda>c. (cb_error (fst c), cb_sector (fst c), cb_id (fst c))) (callbacks s2) =
              [(0, 0, 7)] \<and>
            (case bm_at s2 31 of None \<Rightarrow> False | Some bm \<Rightarrow> bitmap_locked bm) \<and>
            free_vhd_bitmap 31 s2 = None) \<and>
       finish_bitmap_read cb_zero (req_upd (Bm_req 31) (\<lambda>r. r\<lparr>r_error := - EIO\<rparr>) s)
         (Bm_req 31) = None \<and>
       td_run cb_zero [Td_do_callbacks [ev_failed (Bm_req 31)]] s = None \<and>
       td_run cb_zero [Td_do_callbacks [ev_done (Bm_req 31)]] s \<noteq> None"
  by code_simp

subsection \<open>The two buffers of a bitmap\<close>

text \<open>
  C3. The claim is that \<open>map\<close> and \<open>shadow\<close> of a cached bitmap agree whenever
  its transaction is not live. \<^verbatim>\<open>finish_data_write\<close> sets the bits of a completed
  data write in \<open>shadow\<close>; they reach \<open>map\<close> when the bitmap write completes and
  are taken back when it fails (\<^verbatim>\<open>finish_bitmap_write\<close>). But a transaction that
  carries an error is finished by \<^verbatim>\<open>finish_data_transaction\<close> without a bitmap
  write, and nothing takes the bits back. On a differencing image, after a write
  to the unallocated block 0 whose zeroed bitmap could not be written while the
  data was, the request has been failed with \<^verbatim>\<open>-EIO\<close>, the bitmap of block 0 is
  cached with a cleared transaction, and bit 0 is set in \<open>shadow\<close> and not in
  \<open>map\<close>.
\<close>

theorem shadow_differs_after_failed_transaction:
  "case failed_allocation of
     None \<Rightarrow> False
   | Some s \<Rightarrow>
       get_bitmap s 0 = Some 31 \<and>
       (case bm_at s 31 of
          None \<Rightarrow> False
        | Some bm \<Rightarrow>
            bm_tx bm = init_tx \<and>
            \<not> test_vhd_flag (tx_status (bm_tx bm)) VHD_FLAG_TX_LIVE \<and>
            bm_status bm = 0 \<and>
            \<not> test_bit 0 (bm_map bm) \<and> test_bit 0 (bm_shadow bm)) \<and>
       map (\<lambda>c. (cb_error (fst c), cb_sector (fst c), cb_id (fst c))) (callbacks s) =
         [(- EIO, 0, 7)]"
  by code_simp

subsection \<open>Callbacks and the writes of a transaction\<close>

text \<open>
  C1. The claim is that the callback of a data write is made only after all the
  writes of its transaction have completed. \<^verbatim>\<open>start_new_bitmap_transaction\<close>
  fails the writes queued on a block whose BAT write failed and returns their
  requests to the pool while their data writes are still in flight (C10); the
  completion of such a write is then counted for whatever write the request was
  given next. In the run \<open>reused_request\<close> the transaction of the third and the
  fourth write counts three completions out of three (the zeroed bitmap, and
  twice request 2) while the data write of the fourth (request 3) has not
  completed, and when the BAT write completes both are called back with error 0.
\<close>

theorem callback_before_data_write_completes:
  "case reused_request of
     None \<Rightarrow> False
   | Some s \<Rightarrow>
       map (\<lambda>c. (cb_error (fst c), cb_sector (fst c), cb_id (fst c))) (callbacks s) =
         [(- EIO, 0, 1), (- EIO, 1, 2)] \<and>
       (case req_at s (Vreq 3) of
          None \<Rightarrow> False
        | Some r \<Rightarrow>
            r_id r = 4 \<and> r_lsec r = 3 \<and> r_op r = VHD_OP_DATA_WRITE \<and> r_tx r = Some 31 \<and>
            \<not> test_vhd_flag (r_flags r) VHD_FLAG_REQ_FINISHED) \<and>
       (case bm_at s 31 of
          None \<Rightarrow> False
        | Some bm \<Rightarrow>
            tx_requests (bm_tx bm) = [Vreq 2, Vreq 3] \<and> tx_started (bm_tx bm) = 3 \<and>
            tx_finished (bm_tx bm) = 3 \<and> tx_closed (bm_tx bm) = 1) \<and>
       (case td_run cb_zero [Td_do_callbacks [ev_done Bat_req]] s of
          None \<Rightarrow> False
        | Some t \<Rightarrow>
            map (\<lambda>c. (cb_error (fst c), cb_sector (fst c), cb_id (fst c))) (callbacks t) =
              [(- EIO, 0, 1), (- EIO, 1, 2), (0, 2, 3), (0, 3, 4)])"
  by code_simp


end
